(* ===== verification/Prelude.thy ===== *)
theory Prelude
  imports Main "HOL-Library.Word" "HOL-Library.Sublist"
begin

unbundle bit_operations_syntax

text \<open>
  The vocabulary shared by the component theories: Go errors, the parts of the
  packages \<^verbatim>\<open>strings\<close>, \<^verbatim>\<open>strconv\<close>, \<^verbatim>\<open>path/filepath\<close> and \<^verbatim>\<open>fmt\<close> that the
  program uses, and the generic lemmas about them.

  A Go \<^verbatim>\<open>string\<close> or \<^verbatim>\<open>[]byte\<close> is a list of bytes, and \<^typ>\<open>char\<close> is the type of
  bytes, so both are \<^typ>\<open>string\<close>. A nil slice and an empty one are the same list.
\<close>

section \<open>Types, error values and the error idiom\<close>

type_synonym bytes = string
type_synonym file_mode = "32 word"

text \<open>
  An \<^verbatim>\<open>error\<close> carries its text (\<^verbatim>\<open>Error()\<close>) and the sentinels that \<^verbatim>\<open>errors.Is\<close>
  finds in its chain; \<^verbatim>\<open>fmt.Errorf("...: %w", err)\<close> prefixes the text and keeps the chain.
\<close>

datatype sentinel = EEXIST | ECHILD | ErrNotExist | HTTPServerClosed | SSHServerClosed

record go_error =
  err_text :: string
  err_chain :: "sentinel list"

type_synonym 'a result = "go_error + 'a"

definition errorf :: "string \<Rightarrow> go_error" where
  "errorf t = \<lparr>err_text = t, err_chain = []\<rparr>"

definition wrap :: "string \<Rightarrow> go_error \<Rightarrow> go_error" where
  "wrap p e = e\<lparr>err_text := p @ err_text e\<rparr>"

definition errors_is :: "go_error \<Rightarrow> sentinel \<Rightarrow> bool" where
  "errors_is e k = List.member (err_chain e) k"

text \<open>\<^verbatim>\<open>if err := f(); err != nil { return err }\<close>, the state being threaded through.\<close>

fun andThen :: "'s \<times> go_error option \<Rightarrow> ('s \<Rightarrow> 's \<times> go_error option) \<Rightarrow> 's \<times> go_error option"
where
  "andThen (s, Some e) k = (s, Some e)"
| "andThen (s, None) k = k s"

text \<open>\<^verbatim>\<open>return fmt.Errorf("prefix: %w", err)\<close> around a call.\<close>

fun wrapErr :: "string \<Rightarrow> 's \<times> go_error option \<Rightarrow> 's \<times> go_error option" where
  "wrapErr p (s, Some e) = (s, Some (wrap p e))"
| "wrapErr p (s, None) = (s, None)"

fun bindR :: "'a result \<Rightarrow> ('a \<Rightarrow> 'b result) \<Rightarrow> 'b result" where
  "bindR (Inl e) k = Inl e"
| "bindR (Inr a) k = k a"

lemma andThen_None: "andThen r k = (s, None) \<longleftrightarrow> (\<exists>t. r = (t, None) \<and> k t = (s, None))"
  by (cases "(r, k)" rule: andThen.cases) auto

lemma wrapErr_None: "wrapErr p r = (s, None) \<longleftrightarrow> r = (s, None)"
  by (cases "(p, r)" rule: wrapErr.cases) auto

definition wrapR :: "string \<Rightarrow> 'a result \<Rightarrow> 'a result" where
  "wrapR p r = (case r of Inl e \<Rightarrow> Inl (wrap p e) | Inr a \<Rightarrow> Inr a)"

lemma wrapR_Inr [simp]: "wrapR p r = Inr a \<longleftrightarrow> r = Inr a"
  by (simp add: wrapR_def split: sum.splits)

lemma bindR_Inr: "bindR r k = Inr b \<longleftrightarrow> (\<exists>a. r = Inr a \<and> k a = Inr b)"
  by (cases r) auto

section \<open>Package strings\<close>

definition HasPrefix :: "string \<Rightarrow> string \<Rightarrow> bool" where
  "HasPrefix s p = (take (length p) s = p)"

definition HasSuffix :: "string \<Rightarrow> string \<Rightarrow> bool" where
  "HasSuffix s p = (length p \<le> length s \<and> drop (length s - length p) s = p)"

definition TrimPrefix :: "string \<Rightarrow> string \<Rightarrow> string" where
  "TrimPrefix s p = (if HasPrefix s p then drop (length p) s else s)"

fun Contains :: "string \<Rightarrow> string \<Rightarrow> bool" where
  "Contains [] p = (p = [])"
| "Contains (c # s) p = (HasPrefix (c # s) p \<or> Contains s p)"

fun Join :: "string \<Rightarrow> string list \<Rightarrow> string" where
  "Join sep [] = []"
| "Join sep [x] = x"
| "Join sep (x # y # ys) = x @ sep @ Join sep (y # ys)"

text \<open>\<^verbatim>\<open>strings.Split(s, sep)\<close> for the one-byte separators the program uses.\<close>

fun Split :: "char \<Rightarrow> string \<Rightarrow> string list" where
  "Split c [] = [[]]"
| "Split c (x # xs) =
     (if x = c then [] # Split c xs
      else case Split c xs of [] \<Rightarrow> [[x]] | p # ps \<Rightarrow> (x # p) # ps)"

text \<open>\<^verbatim>\<open>strings.SplitN(s, sep, 2)\<close>.\<close>

definition SplitN2 :: "char \<Rightarrow> string \<Rightarrow> string list" where
  "SplitN2 c s =
     (let a = takeWhile (\<lambda>x. x \<noteq> c) s
      in if a = s then [s] else [a, drop (Suc (length a)) s])"

text \<open>
  White space in the sense of \<^verbatim>\<open>unicode.IsSpace\<close>, by its UTF-8 encodings: one byte for
  the ASCII ones, two for U+0085 and U+00A0, three for U+1680, U+2000 to U+200A, U+2028,
  U+2029, U+202F, U+205F and U+3000. \<^verbatim>\<open>space1\<close>, \<^verbatim>\<open>space2\<close> and \<^verbatim>\<open>space3\<close> recognise the
  encodings by their length.
\<close>

definition space1 :: "char \<Rightarrow> bool" where
  "space1 c = (let n = (of_char c :: nat) in n = 32 \<or> (9 \<le> n \<and> n \<le> 13))"

definition space2 :: "char \<Rightarrow> char \<Rightarrow> bool" where
  "space2 a b = (of_char a = (0xC2 :: nat) \<and> (of_char b = (0x85 :: nat) \<or> of_char b = (0xA0 :: nat)))"

definition space3 :: "char \<Rightarrow> char \<Rightarrow> char \<Rightarrow> bool" where
  "space3 a b c =
     (let x = (of_char a :: nat); y = (of_char b :: nat); z = (of_char c :: nat)
      in (x = 0xE1 \<and> y = 0x9A \<and> z = 0x80)
       \<or> (x = 0xE2 \<and> y = 0x80 \<and> ((0x80 \<le> z \<and> z \<le> 0x8A) \<or> z = 0xA8 \<or> z = 0xA9 \<or> z = 0xAF))
       \<or> (x = 0xE2 \<and> y = 0x81 \<and> z = 0x9F)
       \<or> (x = 0xE3 \<and> y = 0x80 \<and> z = 0x80))"

fun space_len :: "string \<Rightarrow> nat" where
  "space_len (a # b # c # s) =
     (if space1 a then 1 else if space2 a b then 2 else if space3 a b c then 3 else 0)"
| "space_len [a, b] = (if space1 a then 1 else if space2 a b then 2 else 0)"
| "space_len [a] = (if space1 a then 1 else 0)"
| "space_len [] = 0"

text \<open>The same at the end of a string, on the reversed list.\<close>

fun rspace_len :: "string \<Rightarrow> nat" where
  "rspace_len (c # b # a # s) =
     (if space1 c then 1 else if space2 b c then 2 else if space3 a b c then 3 else 0)"
| "rspace_len [b, a] = (if space1 b then 1 else if space2 a b then 2 else 0)"
| "rspace_len [a] = (if space1 a then 1 else 0)"
| "rspace_len [] = 0"

lemma space_len_le: "space_len s \<le> length s"
  by (cases s rule: space_len.cases) auto

lemma rspace_len_le: "rspace_len s \<le> length s"
  by (cases s rule: rspace_len.cases) auto

lemma space_len_0_Nil [simp]: "space_len s \<noteq> 0 \<Longrightarrow> s \<noteq> []"
  by (cases s) auto

function trim_left :: "string \<Rightarrow> string" where
  "trim_left s = (if space_len s = 0 then s else trim_left (drop (space_len s) s))"
  by pat_completeness auto
termination
  by (relation "measure length")
     (auto simp: dest: space_len_0_Nil)

function trim_rev :: "string \<Rightarrow> string" where
  "trim_rev s = (if rspace_len s = 0 then s else trim_rev (drop (rspace_len s) s))"
  by pat_completeness auto
termination
proof (relation "measure length")
  fix s :: string assume "rspace_len s \<noteq> 0"
  then show "(drop (rspace_len s) s, s) \<in> measure length"
    by (cases s) auto
qed simp

declare trim_left.simps [simp del] trim_rev.simps [simp del]

text \<open>\<^verbatim>\<open>strings.TrimSpace\<close> and \<^verbatim>\<open>bytes.TrimSpace\<close>.\<close>

definition TrimSpace :: "string \<Rightarrow> string" where
  "TrimSpace s = rev (trim_rev (rev (trim_left s)))"

text \<open>\<^verbatim>\<open>strings.TrimRight(s, "/")\<close>: drop the trailing bytes equal to the given one.\<close>

definition TrimRight1 :: "char \<Rightarrow> string \<Rightarrow> string" where
  "TrimRight1 c s = rev (dropWhile (\<lambda>x. x = c) (rev s))"

text \<open>
  \<^verbatim>\<open>strings.ToLower\<close> as far as ASCII results go: the ASCII letters and the two other
  runes whose lower case is an ASCII letter (U+0130 and U+212A). Every other rune maps to a
  non-ASCII one, which the uses in the program (comparison with and search for ASCII
  literals) cannot tell apart, so those bytes are kept.
\<close>

definition lower1 :: "char \<Rightarrow> char" where
  "lower1 c = (let n = (of_char c :: nat) in if 65 \<le> n \<and> n \<le> 90 then char_of (n + 32) else c)"

fun ToLower :: "string \<Rightarrow> string" where
  "ToLower [] = []"
| "ToLower (a # s) =
     (case s of
        [] \<Rightarrow> [lower1 a]
      | b # s' \<Rightarrow>
          if of_char a = (0xC4 :: nat) \<and> of_char b = (0xB0 :: nat) then CHR ''i'' # ToLower s'
          else (case s' of
                  [] \<Rightarrow> lower1 a # ToLower s
                | c # s'' \<Rightarrow>
                    if of_char a = (0xE2 :: nat) \<and> of_char b = (0x84 :: nat) \<and> of_char c = (0xAA :: nat)
                    then CHR ''k'' # ToLower s'' else lower1 a # ToLower s))"

text \<open>\<^verbatim>\<open>strings.Fields\<close>: the maximal runs of non-space, in order.\<close>

function fields_acc :: "string \<Rightarrow> string \<Rightarrow> string list" where
  "fields_acc w s =
     (if s = [] then (if w = [] then [] else [rev w])
      else if space_len s = 0 then fields_acc (hd s # w) (tl s)
      else (if w = [] then [] else [rev w]) @ fields_acc [] (drop (space_len s) s))"
  by pat_completeness auto
termination
  by (relation "measure (\<lambda>(w, s). length s)") auto

declare fields_acc.simps [simp del]

definition Fields :: "string \<Rightarrow> string list" where
  "Fields s = fields_acc [] s"

section \<open>Packages strconv and fmt\<close>

definition digit_char :: "nat \<Rightarrow> char" where
  "digit_char d = (if d < 10 then char_of (48 + d) else char_of (87 + d))"

definition digit_val :: "char \<Rightarrow> nat option" where
  "digit_val c =
     (let n = (of_char c :: nat)
      in if 48 \<le> n \<and> n \<le> 57 then Some (n - 48)
         else if 97 \<le> n \<and> n \<le> 122 then Some (n - 87)
         else if 65 \<le> n \<and> n \<le> 90 then Some (n - 55)
         else None)"

function digits :: "nat \<Rightarrow> nat \<Rightarrow> string" where
  "digits b n = (if n < b \<or> b < 2 then [digit_char n] else digits b (n div b) @ [digit_char (n mod b)])"
  by pat_completeness auto
termination
  by (relation "measure snd") auto

declare digits.simps [simp del]

definition Itoa :: "int \<Rightarrow> string" where
  "Itoa i = (if i < 0 then CHR ''-'' # digits 10 (nat (- i)) else digits 10 (nat i))"

text \<open>The verb \<^verbatim>\<open>%08x\<close> on a non-negative integer.\<close>

definition hex08 :: "nat \<Rightarrow> string" where
  "hex08 n = (let d = digits 16 n in replicate (8 - length d) (CHR ''0'') @ d)"

fun digits_val :: "nat \<Rightarrow> nat \<Rightarrow> string \<Rightarrow> nat option" where
  "digits_val b acc [] = Some acc"
| "digits_val b acc (c # s) =
     (case digit_val c of
        None \<Rightarrow> None
      | Some d \<Rightarrow> if d < b then digits_val b (acc * b + d) s else None)"

text \<open>\<^verbatim>\<open>strconv.ParseUint(s, base, bits)\<close> for a base other than 0; \<^const>\<open>None\<close> is the error.\<close>

definition ParseUint :: "nat \<Rightarrow> nat \<Rightarrow> string \<Rightarrow> nat option" where
  "ParseUint b bits s =
     (if s = [] then None
      else case digits_val b 0 s of
             None \<Rightarrow> None
           | Some n \<Rightarrow> if n < 2 ^ bits then Some n else None)"

text \<open>\<^verbatim>\<open>strconv.Atoi\<close> where \<^verbatim>\<open>int\<close> has 64 bits.\<close>

definition Atoi :: "string \<Rightarrow> int option" where
  "Atoi s =
     (case s of
        [] \<Rightarrow> None
      | c # r \<Rightarrow>
          (let neg = (c = CHR ''-''); body = (if c = CHR ''-'' \<or> c = CHR ''+'' then r else s)
           in case ParseUint 10 64 body of
                None \<Rightarrow> None
              | Some n \<Rightarrow>
                  if neg then (if n \<le> 2 ^ 63 then Some (- int n) else None)
                  else (if n < 2 ^ 63 then Some (int n) else None)))"

text \<open>
  The verb \<^verbatim>\<open>%q\<close> (\<^verbatim>\<open>strconv.Quote\<close>) on ASCII text; the bytes of other runes are kept.
  It only appears in the texts of errors.
\<close>

definition hex02 :: "nat \<Rightarrow> string" where
  "hex02 n = [digit_char (n div 16), digit_char (n mod 16)]"

definition quote1 :: "char \<Rightarrow> string" where
  "quote1 c =
     (let n = (of_char c :: nat); bs = CHR 0x5C
      in if n = 7 then [bs, CHR ''a''] else if n = 8 then [bs, CHR ''b'']
         else if n = 9 then [bs, CHR ''t''] else if n = 10 then [bs, CHR ''n'']
         else if n = 11 then [bs, CHR ''v''] else if n = 12 then [bs, CHR ''f'']
         else if n = 13 then [bs, CHR ''r''] else if n = 34 \<or> n = 92 then [bs, c]
         else if n < 32 \<or> n = 127 then [bs, CHR ''x''] @ hex02 n
         else [c])"

definition quote :: "string \<Rightarrow> string" where
  "quote s = [CHR 0x22] @ concat (map quote1 s) @ [CHR 0x22]"

definition ParseBool :: "string \<Rightarrow> bool option" where
  "ParseBool s =
     (if List.member [''1'', ''t'', ''T'', ''TRUE'', ''true'', ''True''] s then Some True
      else if List.member [''0'', ''f'', ''F'', ''FALSE'', ''false'', ''False''] s then Some False
      else None)"

section \<open>Package path/filepath\<close>

abbreviation slash :: char where "slash \<equiv> CHR ''/''"

definition dotdot :: string where
  "dotdot = ''..''"

fun clean_step :: "bool \<Rightarrow> string \<Rightarrow> string list \<Rightarrow> string list" where
  "clean_step rooted c out =
     (if c = '''' \<or> c = ''.'' then out
      else if c = dotdot then
        (case out of
           [] \<Rightarrow> if rooted then [] else [c]
         | x # xs \<Rightarrow> if x = dotdot then c # out else xs)
      else c # out)"

definition clean_parts :: "string \<Rightarrow> string list" where
  "clean_parts p = rev (fold (clean_step (HasPrefix p ''/'')) (Split slash p) [])"

definition Clean :: "string \<Rightarrow> string" where
  "Clean p =
     (let s = (if HasPrefix p ''/'' then ''/'' else '''') @ Join ''/'' (clean_parts p)
      in if s = '''' then ''.'' else s)"

definition Dir :: "string \<Rightarrow> string" where
  "Dir p = Clean (rev (dropWhile (\<lambda>x. x \<noteq> slash) (rev p)))"

definition Base :: "string \<Rightarrow> string" where
  "Base p =
     (if p = '''' then ''.''
      else let q = rev (takeWhile (\<lambda>x. x \<noteq> slash) (rev (TrimRight1 slash p)))
           in if q = '''' then ''/'' else q)"

definition Ext :: "string \<Rightarrow> string" where
  "Ext p =
     (let r = takeWhile (\<lambda>x. x \<noteq> slash) (rev p)
      in if List.member r (CHR ''.'') then CHR ''.'' # rev (takeWhile (\<lambda>x. x \<noteq> CHR ''.'') r) else '''')"

definition PathJoin :: "string list \<Rightarrow> string" where
  "PathJoin es = (let fs = dropWhile (\<lambda>e. e = '''') es in if fs = [] then '''' else Clean (Join ''/'' fs))"

section \<open>The process environment\<close>

type_synonym environ = "string \<rightharpoonup> string"

definition getenv :: "environ \<Rightarrow> string \<Rightarrow> string" where
  "getenv env n = (case env n of None \<Rightarrow> '''' | Some v \<Rightarrow> v)"

section \<open>Lemmas: numbers\<close>

lemma digit_val_char [simp]: "d < 36 \<Longrightarrow> digit_val (digit_char d) = Some d"
  by (auto simp: digit_val_def digit_char_def Let_def)

lemma digits_val_append:
  "digits_val b acc (s @ t) = (case digits_val b acc s of None \<Rightarrow> None | Some v \<Rightarrow> digits_val b v t)"
  by (induction b acc s rule: digits_val.induct) (auto split: option.splits)

lemma digits_val_digits:
  assumes "2 \<le> b" and "b \<le> 36"
  shows "digits_val b 0 (digits b n) = Some n"
  using assms
proof (induction b n rule: digits.induct)
  case (1 b n)
  show ?case
  proof (cases "n < b")
    case True
    with "1.prems" show ?thesis by (subst digits.simps) simp
  next
    case False
    with "1" have "digits_val b 0 (digits b (n div b)) = Some (n div b)" by simp
    moreover have "n mod b < b" using "1.prems" by simp
    moreover have "n mod b < 36" using \<open>n mod b < b\<close> "1.prems"(2) by linarith
    ultimately show ?thesis using False "1.prems"
      by (subst digits.simps) (simp add: digits_val_append)
  qed
qed

lemma digits_nonempty [simp]: "digits b n \<noteq> []"
  by (subst digits.simps) simp

lemma length_digits: "2 \<le> b \<Longrightarrow> n < b ^ k \<Longrightarrow> 0 < k \<Longrightarrow> length (digits b n) \<le> k"
proof (induction k arbitrary: n)
  case 0
  then show ?case by simp
next
  case (Suc k)
  show ?case
  proof (cases "n < b")
    case True
    then show ?thesis by (subst digits.simps) simp
  next
    case False
    with Suc.prems have "0 < k" by (cases k) auto
    moreover have "n div b < b ^ k"
      using Suc.prems by (simp add: less_mult_imp_div_less mult.commute)
    ultimately have "length (digits b (n div b)) \<le> k" using Suc by simp
    with False Suc.prems show ?thesis by (subst digits.simps) simp
  qed
qed

lemma digits_val_zeros: "0 < b \<Longrightarrow> digits_val b 0 (replicate k (CHR ''0'') @ s) = digits_val b 0 s"
  by (induction k) (auto simp: digit_val_def)

lemma length_hex08: "n < 2 ^ 32 \<Longrightarrow> length (hex08 n) = 8"
  using length_digits [of 16 n 8] by (simp add: hex08_def Let_def)

lemma ParseUint_hex08: "n < 2 ^ 32 \<Longrightarrow> ParseUint 16 32 (hex08 n) = Some n"
  by (simp add: ParseUint_def hex08_def Let_def digits_val_zeros digits_val_digits)

lemma ParseUint_digits: "n < 2 ^ bits \<Longrightarrow> ParseUint 10 bits (digits 10 n) = Some n"
  by (simp add: ParseUint_def digits_val_digits)

lemma digit_char_not_sign: "d < 10 \<Longrightarrow> digit_char d \<noteq> CHR ''-'' \<and> digit_char d \<noteq> CHR ''+''"
  using digit_val_char [of d] by (auto simp: digit_val_def)

lemma hd_digits: "2 \<le> b \<Longrightarrow> \<exists>d<b. hd (digits b n) = digit_char d"
proof (induction b n rule: digits.induct)
  case (1 b n)
  then show ?case by (subst digits.simps) auto
qed

section \<open>Lemmas: words\<close>

lemma unat32_less: "unat (w :: 32 word) < 2 ^ 32"
  using unsigned_less [of w] by simp

lemma unat32_of_nat: "n < 2 ^ 32 \<Longrightarrow> unat (word_of_nat n :: 32 word) = n"
  by (simp add: unat_of_nat)

section \<open>Lemmas: splitting and joining\<close>

lemma Split_nonempty [simp]: "Split c s \<noteq> []"
  by (cases s) (auto split: list.splits)

lemma Join_Cons: "ps \<noteq> [] \<Longrightarrow> Join sep (p # ps) = p @ sep @ Join sep ps"
  by (cases ps) auto

lemma Join_Cons_Cons [simp]: "Join sep ((x # p) # ps) = x # Join sep (p # ps)"
  by (cases ps) auto

lemma Join_Split: "Join [c] (Split c s) = s"
proof (induction s)
  case Nil
  then show ?case by simp
next
  case (Cons x s)
  then show ?case
    by (cases "Split c s") (auto simp: Join_Cons  split: list.splits)
qed

lemma Split_free: "c \<notin> set s \<Longrightarrow> Split c s = [s]"
  by (induction s) auto

lemma Split_append: "c \<notin> set p \<Longrightarrow> Split c (p @ c # s) = p # Split c s"
  by (induction p) auto

lemma Split_Join: "ps \<noteq> [] \<Longrightarrow> \<forall>p\<in>set ps. c \<notin> set p \<Longrightarrow> Split c (Join [c] ps) = ps"
proof (induction ps)
  case (Cons p ps)
  then show ?case
    by (cases ps) (auto simp: Split_free Split_append Join_Cons)
qed simp

lemma Split_parts_free: "p \<in> set (Split c s) \<Longrightarrow> c \<notin> set p"
  by (induction s arbitrary: p) (fastforce split: if_splits list.splits)+

lemma SplitN2_append: "c \<notin> set a \<Longrightarrow> SplitN2 c (a @ c # b) = [a, b]"
proof -
  assume "c \<notin> set a"
  then have "takeWhile (\<lambda>x. x \<noteq> c) (a @ c # b) = a"
    by (induction a) auto
  then show ?thesis by (simp add: SplitN2_def Let_def)
qed

lemma SplitN2_cases:
  obtains (one) "c \<notin> set s" "SplitN2 c s = [s]"
  | (two) a b where "s = a @ c # b" "c \<notin> set a" "SplitN2 c s = [a, b]"
proof (cases "c \<in> set s")
  case True
  then obtain a b where "s = a @ c # b" "c \<notin> set a" by (metis split_list_first)
  then show ?thesis by (intro two [of a b]) (auto simp: SplitN2_append)
next
  case False
  then have "takeWhile (\<lambda>x. x \<noteq> c) s = s" by (auto simp: takeWhile_eq_all_conv)
  with False show ?thesis by (intro one) (auto simp: SplitN2_def)
qed

lemma HasPrefix_iff: "HasPrefix s p \<longleftrightarrow> prefix p s"
  by (auto simp: HasPrefix_def prefix_def) (metis append_take_drop_id)

lemma HasPrefix_append [simp]: "HasPrefix (p @ s) p"
  by (simp add: HasPrefix_def)

section \<open>Lemmas: trimming\<close>

lemma space_len_trim_left [simp]: "space_len (trim_left s) = 0"
  by (induction s rule: trim_left.induct) (subst trim_left.simps, simp)

lemma rspace_len_trim_rev [simp]: "rspace_len (trim_rev s) = 0"
  by (induction s rule: trim_rev.induct) (subst trim_rev.simps, simp)

lemma trim_left_id: "space_len s = 0 \<Longrightarrow> trim_left s = s"
  by (subst trim_left.simps) simp

lemma trim_rev_id: "rspace_len s = 0 \<Longrightarrow> trim_rev s = s"
  by (subst trim_rev.simps) simp

lemma suffix_trim_rev: "suffix (trim_rev s) s"
proof (induction s rule: trim_rev.induct)
  case (1 s)
  show ?case
    using 1 by (subst trim_rev.simps) (auto intro: suffix_order.trans suffix_drop)
qed

lemma suffix_trim_left: "suffix (trim_left s) s"
proof (induction s rule: trim_left.induct)
  case (1 s)
  show ?case
    using 1 by (subst trim_left.simps) (auto intro: suffix_order.trans suffix_drop)
qed

lemma space_len_prefix:
  assumes "prefix t s" and "space_len s = 0"
  shows "space_len t = 0"
  using assms
  by (cases t rule: space_len.cases; cases s rule: space_len.cases) (auto split: if_splits)

lemma space_len_TrimSpace [simp]: "space_len (TrimSpace s) = 0"
proof (rule space_len_prefix)
  show "prefix (TrimSpace s) (trim_left s)"
    unfolding TrimSpace_def using suffix_trim_rev [of "rev (trim_left s)"]
    by (simp add: suffix_to_prefix)
qed simp

lemma TrimSpace_idem [simp]: "TrimSpace (TrimSpace s) = TrimSpace s"
proof -
  have "trim_left (TrimSpace s) = TrimSpace s"
    by (rule trim_left_id) simp
  moreover have "trim_rev (rev (TrimSpace s)) = rev (TrimSpace s)"
    by (rule trim_rev_id) (simp add: TrimSpace_def)
  ultimately show ?thesis by (simp add: TrimSpace_def [of "TrimSpace s"])
qed

lemma TrimSpace_Nil [simp]: "TrimSpace [] = []"
  by (simp add: TrimSpace_def trim_left_id trim_rev_id)

lemma set_TrimSpace: "set (TrimSpace s) \<subseteq> set s"
  using set_mono_suffix [OF suffix_trim_rev [of "rev (trim_left s)"]] set_mono_suffix [OF suffix_trim_left [of s]]
  by (auto simp: TrimSpace_def)

section \<open>Lemmas: clean relative paths\<close>

text \<open>
  The components of a cleaned relative path: none empty or \<open>.\<close>, and \<open>..\<close> only in front.
  On such paths \<^const>\<open>Clean\<close> is the identity, \<^const>\<open>Dir\<close> drops the last component and
  \<^const>\<open>PathJoin\<close> is plain joining.
\<close>

fun dots_first :: "string list \<Rightarrow> bool" where
  "dots_first [] = True"
| "dots_first (c # cs) = (if c = dotdot then dots_first cs else dotdot \<notin> set cs)"

definition rel_parts :: "string list \<Rightarrow> bool" where
  "rel_parts cs = ((\<forall>c\<in>set cs. c \<noteq> '''' \<and> c \<noteq> ''.'' \<and> slash \<notin> set c) \<and> dots_first cs)"

lemma dots_first_snoc:
  "dots_first (cs @ [c]) \<longleftrightarrow> dots_first cs \<and> (c = dotdot \<longrightarrow> (\<forall>x\<in>set cs. x = dotdot))"
  by (induction cs) auto

lemma dots_first_snoc2:
  "dots_first (cs @ [b, c]) \<longleftrightarrow>
     dots_first (cs @ [b]) \<and> (c = dotdot \<longrightarrow> b = dotdot \<and> (\<forall>x\<in>set cs. x = dotdot))"
  using dots_first_snoc [of "cs @ [b]" c] by auto

lemma dots_first_take: "dots_first cs \<Longrightarrow> dots_first (take k cs)"
  by (induction cs arbitrary: k) (auto simp: take_Cons' dest: in_set_takeD)

lemma rel_parts_take: "rel_parts cs \<Longrightarrow> rel_parts (take k cs)"
  unfolding rel_parts_def by (meson dots_first_take in_set_takeD)

lemma rel_parts_butlast: "rel_parts cs \<Longrightarrow> rel_parts (butlast cs)"
  by (simp add: butlast_conv_take rel_parts_take)

lemma HasPrefix_slash_append: "c \<noteq> '''' \<Longrightarrow> slash \<notin> set c \<Longrightarrow> \<not> HasPrefix (c @ s) ''/''"
  by (cases c) (auto simp: HasPrefix_def)

lemma HasPrefix_Join_rel: "rel_parts cs \<Longrightarrow> \<not> HasPrefix (Join ''/'' cs) ''/''"
proof (cases cs)
  case (Cons c ds)
  moreover assume "rel_parts cs"
  ultimately have c: "c \<noteq> ''''" "slash \<notin> set c" by (auto simp: rel_parts_def)
  from Cons show ?thesis
    using HasPrefix_slash_append [OF c, of "[]"] HasPrefix_slash_append [OF c]
    by (cases ds) (auto simp: HasPrefix_def)
qed (simp add: HasPrefix_def)

lemma fold_clean_plain:
  "\<forall>c\<in>set cs. c \<noteq> '''' \<and> c \<noteq> ''.'' \<Longrightarrow> dotdot \<notin> set cs \<Longrightarrow> fold (clean_step r) cs out = rev cs @ out"
  by (induction cs arbitrary: out) auto

lemma dotdot_part [simp]: "dotdot \<noteq> ''''" "dotdot \<noteq> ''.''"
  by (simp_all add: dotdot_def)

lemma fold_clean_dots_first:
  "\<forall>c\<in>set cs. c \<noteq> '''' \<and> c \<noteq> ''.'' \<Longrightarrow> dots_first cs \<Longrightarrow> \<forall>c\<in>set out. c = dotdot
   \<Longrightarrow> fold (clean_step False) cs out = rev cs @ out"
proof (induction cs arbitrary: out)
  case (Cons c cs)
  then have "clean_step False c out = c # out" by (cases out) auto
  with Cons show ?case by (cases "c = dotdot") (simp_all add: fold_clean_plain del: clean_step.simps)
qed simp

lemma clean_parts_Join:
  assumes "rel_parts cs" and "cs \<noteq> []"
  shows "clean_parts (Join ''/'' cs) = cs"
proof -
  have "Split slash (Join ''/'' cs) = cs"
    using assms by (intro Split_Join) (auto simp: rel_parts_def)
  moreover have "fold (clean_step False) cs [] = rev cs"
    using assms by (subst fold_clean_dots_first) (auto simp: rel_parts_def)
  ultimately show ?thesis using HasPrefix_Join_rel [OF assms(1)] by (simp add: clean_parts_def)
qed

lemma Join_eq_Nil: "rel_parts cs \<Longrightarrow> Join ''/'' cs = '''' \<longleftrightarrow> cs = []"
  by (cases cs; cases "tl cs") (auto simp: rel_parts_def)

lemma Clean_Join:
  assumes "rel_parts cs" and "cs \<noteq> []"
  shows "Clean (Join ''/'' cs) = Join ''/'' cs"
  using assms HasPrefix_Join_rel [OF assms(1)] Join_eq_Nil [OF assms(1)]
  by (simp add: Clean_def clean_parts_Join Let_def)

lemma rel_parts_step:
  assumes "rel_parts (rev out)" and "slash \<notin> set c"
  shows "rel_parts (rev (clean_step False c out))"
  using assms
  by (cases out) (auto simp: rel_parts_def dots_first_snoc dots_first_snoc2)

lemma rel_parts_fold:
  "\<forall>c\<in>set cs. slash \<notin> set c \<Longrightarrow> rel_parts (rev out) \<Longrightarrow> rel_parts (rev (fold (clean_step False) cs out))"
  by (induction cs arbitrary: out) (simp_all del: clean_step.simps add: rel_parts_step)

lemma rel_parts_clean: "\<not> HasPrefix p ''/'' \<Longrightarrow> rel_parts (clean_parts p)"
  unfolding clean_parts_def using rel_parts_fold [of "Split slash p" "[]"] Split_parts_free [of _ slash p]
  by (simp add: rel_parts_def)

lemma Split_snoc: "Split c (s @ [c]) = Split c s @ [[]]"
  by (induction s) (auto split: list.splits)

lemma clean_parts_slash: "s \<noteq> [] \<Longrightarrow> clean_parts (s @ ''/'') = clean_parts s"
  unfolding clean_parts_def by (cases s) (simp_all only: Split_snoc fold_append, auto simp: HasPrefix_def)

lemma Clean_slash: "s \<noteq> [] \<Longrightarrow> Clean (s @ ''/'') = Clean s"
  using clean_parts_slash [of s] by (cases s) (simp_all add: Clean_def HasPrefix_def)

lemma Join_snoc: "ds \<noteq> [] \<Longrightarrow> Join sep (ds @ [d]) = Join sep ds @ sep @ d"
proof (induction ds)
  case (Cons a ds)
  then show ?case by (cases ds) (simp_all add: Join_Cons)
qed simp

lemma dropWhile_free: "slash \<notin> set d \<Longrightarrow> dropWhile (\<lambda>x. x \<noteq> slash) (rev d @ s) = dropWhile (\<lambda>x. x \<noteq> slash) s"
  by (subst dropWhile_append2) auto

lemma Dir_single: "slash \<notin> set d \<Longrightarrow> Dir d = ''.''"
proof -
  assume "slash \<notin> set d"
  then have "dropWhile (\<lambda>x. x \<noteq> slash) (rev d) = []" using dropWhile_free [of d "[]"] by simp
  then have "Dir d = Clean []" by (simp only: Dir_def rev.simps)
  then show ?thesis by (simp add: Clean_def clean_parts_def HasPrefix_def)
qed

lemma Dir_snoc: "slash \<notin> set d \<Longrightarrow> s \<noteq> '''' \<Longrightarrow> Dir (s @ ''/'' @ d) = Clean s"
  using dropWhile_free [of d "slash # rev s"] by (simp add: Dir_def Clean_slash)

lemma Dir_Join:
  assumes "rel_parts (ds @ [d])"
  shows "Dir (Join ''/'' (ds @ [d])) = (if ds = [] then ''.'' else Join ''/'' ds)"
proof -
  have r: "rel_parts ds" using rel_parts_butlast [OF assms] by simp
  have d: "slash \<notin> set d" using assms by (simp add: rel_parts_def)
  show ?thesis
    using Join_eq_Nil [OF r] Dir_single [OF d] Dir_snoc [OF d, of "Join ''/'' ds"] Clean_Join [OF r]
    by (cases "ds = []") (simp_all add: Join_snoc)
qed

lemma PathJoin_rel: "rel_parts cs \<Longrightarrow> cs \<noteq> [] \<Longrightarrow> PathJoin cs = Join ''/'' cs"
proof -
  assume r: "rel_parts cs" "cs \<noteq> []"
  then have "dropWhile (\<lambda>e. e = '''') cs = cs" by (cases cs) (auto simp: rel_parts_def)
  with r show ?thesis by (simp add: PathJoin_def Clean_Join)
qed


section \<open>Lemmas: line ends and visible characters\<close>

abbreviation LFc :: char where "LFc \<equiv> CHR 0x0A"

definition visible :: "char \<Rightarrow> bool" where
  "visible c = (33 \<le> (of_char c :: nat) \<and> of_char c \<le> (126 :: nat))"

lemma space_len_visible: "visible c \<Longrightarrow> space_len (t @ c # u) \<le> length t"
  by (cases t rule: space_len.cases; cases u rule: space_len.cases)
     (auto simp: visible_def space1_def space2_def space3_def Let_def)

lemma rspace_len_visible: "visible c \<Longrightarrow> rspace_len (t @ c # u) \<le> length t"
  by (cases t rule: rspace_len.cases; cases u rule: rspace_len.cases)
     (auto simp: visible_def space1_def space2_def space3_def Let_def)

lemma trim_left_visible:
  assumes "visible c"
  shows "\<exists>t'. trim_left (t @ c # u) = t' @ c # u"
proof (induction "t @ c # u" arbitrary: t rule: trim_left.induct)
  case (1 t)
  show ?case
  proof (cases "space_len (t @ c # u) = 0")
    case True
    then show ?thesis by (auto simp: trim_left_id)
  next
    case False
    then show ?thesis using 1 space_len_visible [OF assms, of t u]
      by (subst trim_left.simps) simp
  qed
qed

lemma trim_rev_visible:
  assumes "visible c"
  shows "\<exists>t'. trim_rev (t @ c # u) = t' @ c # u"
proof (induction "t @ c # u" arbitrary: t rule: trim_rev.induct)
  case (1 t)
  show ?case
  proof (cases "rspace_len (t @ c # u) = 0")
    case True
    then show ?thesis by (auto simp: trim_rev_id)
  next
    case False
    then show ?thesis using 1 rspace_len_visible [OF assms, of t u]
      by (subst trim_rev.simps) simp
  qed
qed

lemma TrimSpace_visible: "visible c \<Longrightarrow> TrimSpace (t @ c # u) \<noteq> []"
proof -
  assume v: "visible c"
  obtain t' where "trim_left (t @ c # u) = t' @ c # u" using trim_left_visible [OF v] by blast
  moreover obtain u' where "trim_rev (rev u @ c # rev t') = u' @ c # rev t'" using trim_rev_visible [OF v] by blast
  ultimately show ?thesis by (simp add: TrimSpace_def)
qed

lemma digit_char_row: "n < 16 \<Longrightarrow> digit_char n \<noteq> LFc"
proof -
  assume "n < 16"
  then have "(of_char (digit_char n) :: nat) \<noteq> of_char LFc" by (simp add: digit_char_def)
  then show ?thesis by metis
qed

lemma quote1_row: "LFc \<notin> set (quote1 c)"
proof (cases "c = LFc")
  case True
  show ?thesis unfolding True by code_simp
next
  case False
  have "(of_char c :: nat) < 256" by simp
  then have "of_char c div 16 < (16::nat)" by (simp add: less_mult_imp_div_less)
  then have "LFc \<notin> set (hex02 (of_char c))" using digit_char_row [of "of_char c div 16"] digit_char_row [of "of_char c mod 16"]
    by (auto simp: hex02_def)
  with False show ?thesis unfolding quote1_def Let_def by (auto split: if_split)
qed

lemma quote_row: "LFc \<notin> set (quote s)"
  using quote1_row by (auto simp: quote_def)

lemma set_Join: "x \<in> set (Join sep xs) \<Longrightarrow> x \<in> set sep \<or> (\<exists>y\<in>set xs. x \<in> set y)"
  by (induction sep xs rule: Join.induct) auto

lemma clean_step_subset: "p \<in> set (clean_step rooted c out) \<Longrightarrow> p = c \<or> p \<in> set out"
  by (auto split: if_splits list.splits)

lemma fold_clean_subset: "p \<in> set (fold (clean_step rooted) cs out) \<Longrightarrow> p \<in> set cs \<or> p \<in> set out"
proof (induction cs arbitrary: out)
  case (Cons c cs)
  then show ?case using Cons.IH [of "clean_step rooted c out"] clean_step_subset [of p rooted c out] by auto
qed simp

lemma Split_subset: "p \<in> set (Split c s) \<Longrightarrow> x \<in> set p \<Longrightarrow> x \<in> set s"
proof (induction s arbitrary: p)
  case (Cons y s)
  then show ?case by (cases "Split c s") (fastforce split: if_splits)+
qed simp

lemma set_Clean: "x \<in> set (Clean p) \<Longrightarrow> x \<in> set p \<or> x = slash \<or> x = CHR ''.''"
proof -
  have "q \<in> set (clean_parts p) \<Longrightarrow> x \<in> set q \<Longrightarrow> x \<in> set p" for q
    using fold_clean_subset [of q "HasPrefix p ''/''" "Split slash p" "[]"] Split_subset by (auto simp: clean_parts_def)
  moreover assume "x \<in> set (Clean p)"
  ultimately show ?thesis using set_Join [of x "''/''" "clean_parts p"]
    by (auto simp: Clean_def Let_def split: if_splits)
qed

lemma set_PathJoin: "x \<in> set (PathJoin es) \<Longrightarrow> (\<exists>e\<in>set es. x \<in> set e) \<or> x = slash \<or> x = CHR ''.''"
proof (cases "dropWhile (\<lambda>e. e = '''') es = []")
  case False
  assume "x \<in> set (PathJoin es)"
  with False have "x \<in> set (Clean (Join ''/'' (dropWhile (\<lambda>e. e = '''') es)))" unfolding PathJoin_def Let_def by (simp only: if_False)
  from set_Clean [OF this] set_Join [of x "''/''" "dropWhile (\<lambda>e. e = '''') es"] show ?thesis
    using set_dropWhileD [of _ "\<lambda>e. e = ''''" es] by fastforce
qed (simp add: PathJoin_def)

end
