(* ===== verification/Cmdline.thy ===== *)
theory Cmdline
  imports Prelude
begin

text \<open>
  The part of the standard library's \<^verbatim>\<open>flag\<close> package that the host commands use: flags with a value, set in
  the order they are given. A flag set maps a name to what setting it does to the variables of the
  command. The grammar the parser accepts is an inductive relation; the parser is proved to accept
  exactly that, for every flag set whose names are plain.
\<close>

section \<open>The parser\<close>

datatype flag_error = ErrHelp | BadFlags string

type_synonym 's flag_set = "string \<rightharpoonup> (string \<Rightarrow> 's \<Rightarrow> 's)"

text \<open>A flag is a text of two bytes or more that starts with a hyphen.\<close>

definition is_flag :: "string \<Rightarrow> bool" where
  "is_flag a = (2 \<le> length a \<and> hd a = CHR ''-'')"

text \<open>The name and the value of \<^verbatim>\<open>name=value\<close>; an equals sign is never the first byte of a name.\<close>

definition cutFlag :: "string \<Rightarrow> string \<times> string option" where
  "cutFlag name =
     (takeWhile (\<lambda>c. c \<noteq> CHR ''='') name,
      case dropWhile (\<lambda>c. c \<noteq> CHR ''='') name of [] \<Rightarrow> None | _ # value \<Rightarrow> Some value)"

definition flag_text :: "string \<Rightarrow> string" where
  "flag_text a = (if a ! 1 = CHR ''-'' then drop 2 a else drop 1 a)"

fun parseFlags :: "'s flag_set \<Rightarrow> string list \<Rightarrow> 's \<Rightarrow> flag_error + ('s \<times> string list)" where
  "parseFlags flags [] s = Inr (s, [])"
| "parseFlags flags (a # args) s =
     (if \<not> is_flag a then Inr (s, a # args)
      else if a = ''--'' then Inr (s, args)
      else if flag_text a = '''' \<or> hd (flag_text a) = CHR ''-'' \<or> hd (flag_text a) = CHR ''=''
      then Inl (BadFlags (''bad flag syntax: '' @ a))
      else case cutFlag (flag_text a) of (name, joined) \<Rightarrow>
        (case flags name of
           None \<Rightarrow> Inl (if name = ''help'' \<or> name = ''h'' then ErrHelp
                       else BadFlags (''flag provided but not defined: -'' @ name))
         | Some put \<Rightarrow>
             (case joined of
                Some value \<Rightarrow> parseFlags flags args (put value s)
              | None \<Rightarrow>
                  (case args of
                     [] \<Rightarrow> Inl (BadFlags (''flag needs an argument: -'' @ name))
                   | value # args \<Rightarrow> parseFlags flags args (put value s)))))"

text \<open>
  \<^verbatim>\<open>flag.Parse\<close> prints the error and exits on a bad command line: with status 0 when help was
  asked for, with 2 otherwise.
\<close>

definition flag_exit :: "flag_error \<Rightarrow> nat" where
  "flag_exit e = (case e of ErrHelp \<Rightarrow> 0 | BadFlags _ \<Rightarrow> 2)"

definition flag_message :: "string \<Rightarrow> flag_error \<Rightarrow> string" where
  "flag_message usage e = (case e of ErrHelp \<Rightarrow> usage | BadFlags m \<Rightarrow> m @ [CHR 0x0A] @ usage)"

section \<open>The grammar\<close>

text \<open>
  \<open>spelled names args settings rest\<close>: the arguments spell the settings, name and value, and leave the rest.
  A setting is one argument \<^verbatim>\<open>-name=value\<close> or two arguments \<^verbatim>\<open>-name value\<close>, with one or two hyphens;
  the settings end at the first argument that is not a flag, or after \<^verbatim>\<open>--\<close>.
\<close>

inductive spelled :: "string set \<Rightarrow> string list \<Rightarrow> (string \<times> string) list \<Rightarrow> string list \<Rightarrow> bool" for names where
  stop: "spelled names args [] args" if "args = [] \<or> \<not> is_flag (hd args)"
| dashes: "spelled names (''--'' # args) [] args"
| joined: "spelled names ((d @ n @ ''='' @ v) # args) ((n, v) # ss) rest"
    if "d = ''-'' \<or> d = ''--''" "n \<in> names" "spelled names args ss rest"
| separate: "spelled names ((d @ n) # v # args) ((n, v) # ss) rest"
    if "d = ''-'' \<or> d = ''--''" "n \<in> names" "spelled names args ss rest"

definition put_settings :: "'s flag_set \<Rightarrow> (string \<times> string) list \<Rightarrow> 's \<Rightarrow> 's" where
  "put_settings flags ss s = fold (\<lambda>(n, v). the (flags n) v) ss s"

lemma put_settings_simps [simp]:
  "put_settings flags [] s = s"
  "put_settings flags ((n, v) # ss) s = put_settings flags ss (the (flags n) v s)"
  by (simp_all add: put_settings_def)

definition plain_name :: "string \<Rightarrow> bool" where
  "plain_name n = (n \<noteq> '''' \<and> hd n \<noteq> CHR ''-'' \<and> CHR ''='' \<notin> set n)"

lemma cutFlag_plain: "CHR ''='' \<notin> set n \<Longrightarrow> cutFlag n = (n, None)"
proof -
  assume n: "CHR ''='' \<notin> set n"
  then have "takeWhile (\<lambda>c. c \<noteq> CHR ''='') n = n" "dropWhile (\<lambda>c. c \<noteq> CHR ''='') n = []"
    by (auto simp: takeWhile_eq_all_conv dropWhile_eq_Nil_conv)
  then show ?thesis by (simp only: cutFlag_def list.case)
qed

lemma cutFlag_joined: "CHR ''='' \<notin> set n \<Longrightarrow> cutFlag (n @ ''='' @ v) = (n, Some v)"
  by (auto simp: cutFlag_def takeWhile_append dropWhile_append)

lemma cutFlag_cases:
  obtains "CHR ''='' \<notin> set t" "cutFlag t = (t, None)"
    | n v where "t = n @ ''='' @ v" "CHR ''='' \<notin> set n" "cutFlag t = (n, Some v)"
proof (cases "CHR ''='' \<in> set t")
  case True
  then obtain n v where "t = n @ CHR ''='' # v" "CHR ''='' \<notin> set n" by (meson split_list_first)
  then show thesis using that(2) [of n v] cutFlag_joined [of n v] by simp
next
  case False
  then show thesis using that(1) cutFlag_plain by blast
qed

lemma is_flag_spelled: "is_flag a \<Longrightarrow> \<exists>d. (d = ''-'' \<or> d = ''--'') \<and> a = d @ flag_text a"
proof -
  assume "is_flag a"
  then obtain c r where a: "a = CHR ''-'' # c # r" by (cases a; cases "tl a") (auto simp: is_flag_def)
  then show ?thesis by (cases "c = CHR ''-''") (auto simp: flag_text_def)
qed

lemma flag_text_plain:
  assumes "plain_name n" "d = ''-'' \<or> d = ''--''"
  shows "is_flag (d @ n @ t) \<and> d @ n @ t \<noteq> ''--'' \<and> flag_text (d @ n @ t) = n @ t \<and>
     n @ t \<noteq> '''' \<and> hd (n @ t) \<noteq> CHR ''-'' \<and> hd (n @ t) \<noteq> CHR ''=''"
  using assms by (cases n) (auto simp: plain_name_def is_flag_def flag_text_def)

section \<open>Flag sets\<close>

locale flag_names =
  fixes flags :: "'s flag_set"
  assumes plain: "n \<in> dom flags \<Longrightarrow> plain_name n"
begin

lemma parse_spelled:
  "spelled (dom flags) args ss rest \<Longrightarrow> parseFlags flags args s = Inr (put_settings flags ss s, rest)"
proof (induction arbitrary: s rule: spelled.induct)
  case (stop args)
  then show ?case by (cases args) auto
next
  case (dashes args)
  show ?case by (simp add: is_flag_def)
next
  case (joined d n args ss rest v)
  note t = flag_text_plain [OF plain [OF joined.hyps(2)] joined.hyps(1), of "''='' @ v"]
  obtain put where "flags n = Some put" using joined.hyps(2) by blast
  moreover have "cutFlag (n @ ''='' @ v) = (n, Some v)"
    using plain [OF joined.hyps(2)] by (intro cutFlag_joined) (simp add: plain_name_def)
  ultimately show ?case using t joined.IH by simp
next
  case (separate d n args ss rest v)
  note t = flag_text_plain [OF plain [OF separate.hyps(2)] separate.hyps(1), of "[]"]
  obtain put where "flags n = Some put" using separate.hyps(2) by blast
  moreover have "cutFlag n = (n, None)"
    using plain [OF separate.hyps(2)] by (intro cutFlag_plain) (simp add: plain_name_def)
  ultimately show ?case using t separate.IH by simp
qed

lemma parsed_is_spelled:
  "parseFlags flags args s = Inr (s', rest) \<Longrightarrow> \<exists>ss. spelled (dom flags) args ss rest \<and> s' = put_settings flags ss s"
proof (induction args arbitrary: s rule: length_induct)
  case (1 args)
  then have IH: "\<exists>ss. spelled (dom flags) args' ss rest \<and> s' = put_settings flags ss u"
    if "length args' < length args" "parseFlags flags args' u = Inr (s', rest)" for args' u
    using that by blast
  show ?case
  proof (cases "args = [] \<or> \<not> is_flag (hd args) \<or> hd args = ''--''")
    case True
    then show ?thesis
      using "1.prems" spelled.dashes [of "dom flags" "tl args"] spelled.stop [of args "dom flags"]
      by (intro exI [of _ "[]"]) (cases args; auto split: if_splits)
  next
    case False
    then obtain a as where a: "args = a # as" "is_flag a" "a \<noteq> ''--''" by (cases args) auto
    then obtain d where d: "d = ''-'' \<or> d = ''--''" "a = d @ flag_text a" using is_flag_spelled by blast
    show ?thesis
    proof (cases rule: cutFlag_cases [of "flag_text a"])
      case 1
      from "1.prems" a 1(2) obtain put v as' where put: "flags (flag_text a) = Some put" "as = v # as'"
        "parseFlags flags as' (put v s) = Inr (s', rest)"
        by (auto split: if_splits option.splits list.splits)
      with IH [OF _ put(3)] a(1) obtain ss where
        ss: "spelled (dom flags) as' ss rest" "s' = put_settings flags ss (put v s)" by auto
      have "spelled (dom flags) ((d @ flag_text a) # v # as') ((flag_text a, v) # ss) rest"
        using put(1) by (intro separate d ss) auto
      then have "spelled (dom flags) args ((flag_text a, v) # ss) rest"
        unfolding d(2) [symmetric] a(1) put(2) .
      with put(1) ss(2) show ?thesis by (intro exI [of _ "(flag_text a, v) # ss"]) simp
    next
      case (2 n v)
      from "1.prems" a 2(3) obtain put where put: "flags n = Some put" "parseFlags flags as (put v s) = Inr (s', rest)"
        by (auto split: if_splits option.splits)
      with IH [OF _ put(2)] a(1) obtain ss where
        ss: "spelled (dom flags) as ss rest" "s' = put_settings flags ss (put v s)" by auto
      have "spelled (dom flags) ((d @ n @ ''='' @ v) # as) ((n, v) # ss) rest"
        using put(1) by (intro joined d ss) auto
      then have "spelled (dom flags) args ((n, v) # ss) rest"
        unfolding 2(1) [symmetric] d(2) [symmetric] a(1) .
      with put(1) ss(2) show ?thesis by (intro exI [of _ "(n, v) # ss"]) simp
    qed
  qed
qed

lemma parse_iff:
  "parseFlags flags args s = Inr (s', rest) \<longleftrightarrow> (\<exists>ss. spelled (dom flags) args ss rest \<and> s' = put_settings flags ss s)"
proof
  assume "parseFlags flags args s = Inr (s', rest)"
  then show "\<exists>ss. spelled (dom flags) args ss rest \<and> s' = put_settings flags ss s" by (rule parsed_is_spelled)
next
  assume "\<exists>ss. spelled (dom flags) args ss rest \<and> s' = put_settings flags ss s"
  then show "parseFlags flags args s = Inr (s', rest)" using parse_spelled by blast
qed

end

end
