(* ===== verification/Initramfs.thy ===== *)
theory Initramfs
  imports Prelude
begin

text \<open>
  The package \<^verbatim>\<open>internal/initramfs\<close> (\<^verbatim>\<open>writer.go\<close>): a writer of \<^verbatim>\<open>newc\<close> cpio archives.

  The underlying \<^verbatim>\<open>io.Writer\<close> is a parameter: a sink state and its \<^verbatim>\<open>Write\<close>, which
  returns the next sink state and an error or none. The archive reader of
  \<^verbatim>\<open>writer_test.go\<close> is modelled too, as the decoder the writer is checked against.
  The contract the writer relies on is the locale \<open>io_sink\<close>; \<^verbatim>\<open>bytes.Buffer\<close>
  is its interpretation.
\<close>

section \<open>The writer\<close>

type_synonym 's sink = "'s \<Rightarrow> bytes \<Rightarrow> 's \<times> go_error option"

definition newcMagic :: string where "newcMagic = ''070701''"

definition trailer :: string where "trailer = ''TRAILER!!!''"

record 's Writer =
  wr_w :: 's
  wr_nextIno :: "32 word"
  wr_closed :: bool

record cpio_entry =
  e_Name :: string
  e_Mode :: "32 word"
  e_UID :: "32 word"
  e_GID :: "32 word"
  e_NLink :: "32 word"
  e_MTime :: "32 word"
  e_FileSize :: "32 word"
  e_DevMajor :: "32 word"
  e_DevMinor :: "32 word"
  e_RDevMajor :: "32 word"
  e_RDevMinor :: "32 word"
  e_Data :: bytes

definition zero_entry :: cpio_entry where
  "zero_entry = \<lparr>e_Name = [], e_Mode = 0, e_UID = 0, e_GID = 0, e_NLink = 0, e_MTime = 0,
     e_FileSize = 0, e_DevMajor = 0, e_DevMinor = 0, e_RDevMajor = 0, e_RDevMinor = 0, e_Data = []\<rparr>"

definition NewWriter :: "'s \<Rightarrow> 's Writer" where
  "NewWriter s = \<lparr>wr_w = s, wr_nextIno = 1, wr_closed = False\<rparr>"

definition writeString :: "'s sink \<Rightarrow> 's \<Rightarrow> string \<Rightarrow> 's \<times> go_error option" where
  "writeString write s v = write s v"

definition writeBytes :: "'s sink \<Rightarrow> 's \<Rightarrow> bytes \<Rightarrow> 's \<times> go_error option" where
  "writeBytes write s v = (if length v = 0 then (s, None) else write s v)"

definition padding :: "nat \<Rightarrow> nat" where
  "padding sz = (4 - (sz mod 4)) mod 4"

definition pad4 :: "'s sink \<Rightarrow> 's \<Rightarrow> nat \<Rightarrow> 's \<times> go_error option" where
  "pad4 write s sz =
     (if padding sz = 0 then (s, None) else write s (replicate (padding sz) (CHR 0x00)))"

text \<open>The header line of \<^verbatim>\<open>add\<close>: the magic and thirteen \<^verbatim>\<open>%08x\<close> fields.\<close>

definition header :: "32 word \<Rightarrow> cpio_entry \<Rightarrow> string" where
  "header ino e =
     newcMagic @ concat (map hex08
       [unat ino, unat (e_Mode e), unat (e_UID e), unat (e_GID e), unat (e_NLink e),
        unat (e_MTime e), unat (e_FileSize e), unat (e_DevMajor e), unat (e_DevMinor e),
        unat (e_RDevMajor e), unat (e_RDevMinor e), length (e_Name e) + 1, 0])"

definition add :: "'s sink \<Rightarrow> 's Writer \<Rightarrow> cpio_entry \<Rightarrow> 's Writer \<times> go_error option" where
  "add write W e =
     (if wr_closed W \<and> e_Name e \<noteq> trailer then (W, Some (errorf ''writer closed''))
      else if e_Name e = '''' then (W, Some (errorf ''entry name must not be empty''))
      else
        case andThen (writeString write (wr_w W) (header (wr_nextIno W) e)) (\<lambda>s.
             andThen (writeString write s (e_Name e)) (\<lambda>s.
             andThen (writeBytes write s [CHR 0x00]) (\<lambda>s.
             andThen (pad4 write s (110 + length (e_Name e) + 1)) (\<lambda>s.
             andThen (writeBytes write s (e_Data e)) (\<lambda>s.
             pad4 write s (length (e_Data e))))))) of
          (s, Some er) \<Rightarrow> (W\<lparr>wr_w := s\<rparr>, Some er)
        | (s, None) \<Rightarrow> (W\<lparr>wr_w := s, wr_nextIno := wr_nextIno W + 1\<rparr>, None))"

text \<open>\<^verbatim>\<open>fs.FileMode.Perm\<close> and the \<^verbatim>\<open>uint32\<close> conversion of a Unix time in seconds.\<close>

definition Perm :: "file_mode \<Rightarrow> file_mode" where
  "Perm m = m AND 0x1FF"

definition dir_entry :: "string \<Rightarrow> file_mode \<Rightarrow> int \<Rightarrow> cpio_entry" where
  "dir_entry name perm mtime =
     zero_entry\<lparr>e_Name := name, e_Mode := Perm perm OR 0x4000, e_NLink := 2, e_MTime := word_of_int mtime\<rparr>"

definition file_entry :: "string \<Rightarrow> file_mode \<Rightarrow> int \<Rightarrow> bytes \<Rightarrow> cpio_entry" where
  "file_entry name perm mtime data =
     zero_entry\<lparr>e_Name := name, e_Mode := Perm perm OR 0x8000, e_NLink := 1, e_MTime := word_of_int mtime,
       e_FileSize := word_of_nat (length data), e_Data := data\<rparr>"

definition char_entry :: "string \<Rightarrow> file_mode \<Rightarrow> int \<Rightarrow> 32 word \<Rightarrow> 32 word \<Rightarrow> cpio_entry" where
  "char_entry name perm mtime major minor =
     zero_entry\<lparr>e_Name := name, e_Mode := Perm perm OR 0x2000, e_NLink := 1, e_MTime := word_of_int mtime,
       e_RDevMajor := major, e_RDevMinor := minor\<rparr>"

definition trailer_entry :: cpio_entry where
  "trailer_entry = zero_entry\<lparr>e_Name := trailer, e_Mode := 0, e_NLink := 1\<rparr>"

definition AddDirectory ::
  "'s sink \<Rightarrow> 's Writer \<Rightarrow> string \<Rightarrow> file_mode \<Rightarrow> int \<Rightarrow> 's Writer \<times> go_error option" where
  "AddDirectory write W name perm mtime = add write W (dir_entry name perm mtime)"

definition AddFile ::
  "'s sink \<Rightarrow> 's Writer \<Rightarrow> string \<Rightarrow> file_mode \<Rightarrow> int \<Rightarrow> bytes \<Rightarrow> 's Writer \<times> go_error option" where
  "AddFile write W name perm mtime data = add write W (file_entry name perm mtime data)"

definition AddCharDevice ::
  "'s sink \<Rightarrow> 's Writer \<Rightarrow> string \<Rightarrow> file_mode \<Rightarrow> int \<Rightarrow> 32 word \<Rightarrow> 32 word
     \<Rightarrow> 's Writer \<times> go_error option" where
  "AddCharDevice write W name perm mtime major minor =
     add write W (char_entry name perm mtime major minor)"

definition CloseWriter :: "'s sink \<Rightarrow> 's Writer \<Rightarrow> 's Writer \<times> go_error option" where
  "CloseWriter write W =
     (if wr_closed W then (W, None) else add write (W\<lparr>wr_closed := True\<rparr>) trailer_entry)"

section \<open>The archive reader of the tests\<close>

record parsedEntry =
  p_Name :: string
  p_Mode :: "32 word"
  p_FileSize :: "32 word"
  p_RDevMajor :: "32 word"
  p_RDevMinor :: "32 word"
  p_Data :: bytes

definition parseHex :: "bytes \<Rightarrow> (32 word) result" where
  "parseHex d = (case ParseUint 16 32 d of None \<Rightarrow> Inl (errorf ''parse hex'') | Some n \<Rightarrow> Inr (word_of_nat n))"

definition slice :: "nat \<Rightarrow> nat \<Rightarrow> bytes \<Rightarrow> bytes" where
  "slice a b d = take (b - a) (drop a d)"

definition align4 :: "nat \<Rightarrow> nat" where
  "align4 off = off + (4 - off mod 4) mod 4"

text \<open>
  One iteration of the loop: the five header fields the reader uses, and the entry with
  the offset after it.
\<close>

record parsedHeader =
  h_mode :: "32 word"
  h_fileSize :: "32 word"
  h_rdevMajor :: "32 word"
  h_rdevMinor :: "32 word"
  h_nameSize :: "32 word"

definition parseHeader :: "bytes \<Rightarrow> parsedHeader result" where
  "parseHeader h =
     (if slice 0 6 h \<noteq> newcMagic then Inl (errorf ''unexpected magic'')
      else bindR (parseHex (slice 14 22 h)) (\<lambda>mode.
        bindR (parseHex (slice 54 62 h)) (\<lambda>fileSize.
        bindR (parseHex (slice 78 86 h)) (\<lambda>rdevMajor.
        bindR (parseHex (slice 86 94 h)) (\<lambda>rdevMinor.
        bindR (parseHex (slice 94 102 h)) (\<lambda>nameSize.
          Inr \<lparr>h_mode = mode, h_fileSize = fileSize, h_rdevMajor = rdevMajor,
               h_rdevMinor = rdevMinor, h_nameSize = nameSize\<rparr>))))))"

definition parseBody :: "bytes \<Rightarrow> nat \<Rightarrow> parsedHeader \<Rightarrow> (parsedEntry \<times> nat) result" where
  "parseBody data off h =
     (let nameSize = unat (h_nameSize h); fileSize = unat (h_fileSize h);
          off2 = align4 (off + nameSize); off3 = off2 + fileSize
      in if length data < off + nameSize then Inl (errorf ''short name'')
         else if nameSize = 0 then Inl (errorf ''slice bounds out of range'')
         else if length data < off3 then Inl (errorf ''short file data'')
         else Inr (\<lparr>p_Name = butlast (slice off (off + nameSize) data), p_Mode = h_mode h,
                     p_FileSize = h_fileSize h, p_RDevMajor = h_rdevMajor h,
                     p_RDevMinor = h_rdevMinor h, p_Data = slice off2 off3 data\<rparr>, align4 off3))"

definition parseEntry :: "bytes \<Rightarrow> nat \<Rightarrow> (parsedEntry \<times> nat) result" where
  "parseEntry data off =
     (if length data < off + 110 then Inl (errorf ''short header'')
      else bindR (parseHeader (slice off (off + 110) data)) (parseBody data (off + 110)))"

lemma align4_ge: "off \<le> align4 off"
  by (simp add: align4_def)

lemma parseBody_ge: "parseBody data off h = Inr (e, off') \<Longrightarrow> off \<le> off'"
  unfolding parseBody_def Let_def
  by (auto split: if_splits) (meson align4_ge le_add1 order.trans)

lemma parseEntry_progress:
  "parseEntry data off = Inr (e, off') \<Longrightarrow> off < length data \<and> off < off'"
  by (auto simp: parseEntry_def bindR_Inr dest: parseBody_ge split: if_splits)

function parseFrom :: "bytes \<Rightarrow> nat \<Rightarrow> (parsedEntry list) result" where
  "parseFrom data off =
     (case parseEntry data off of
        Inl er \<Rightarrow> Inl er
      | Inr (e, off') \<Rightarrow>
          if p_Name e = trailer then Inr [e]
          else bindR (parseFrom data off') (\<lambda>es. Inr (e # es)))"
  by pat_completeness auto
termination
  by (relation "measure (\<lambda>(d, off). length d - off)") (auto dest: parseEntry_progress)

declare parseFrom.simps [simp del]

definition parseArchive :: "bytes \<Rightarrow> (parsedEntry list) result" where
  "parseArchive data = parseFrom data 0"

section \<open>The archive as a value\<close>

text \<open>
  What the writer should produce: the bytes of one entry, of a list of entries with
  consecutive inode numbers, and what the reader sees of an entry.
\<close>

fun add_all :: "'s sink \<Rightarrow> 's Writer \<Rightarrow> cpio_entry list \<Rightarrow> 's Writer \<times> go_error option" where
  "add_all write W [] = (W, None)"
| "add_all write W (e # es) = andThen (add write W e) (\<lambda>W'. add_all write W' es)"

definition zeros :: "nat \<Rightarrow> bytes" where
  "zeros n = replicate n (CHR 0x00)"

definition encode_entry :: "32 word \<Rightarrow> cpio_entry \<Rightarrow> bytes" where
  "encode_entry ino e =
     header ino e @ e_Name e @ zeros 1 @ zeros (padding (110 + length (e_Name e) + 1))
       @ e_Data e @ zeros (padding (length (e_Data e)))"

fun encode_all :: "32 word \<Rightarrow> cpio_entry list \<Rightarrow> bytes" where
  "encode_all ino [] = []"
| "encode_all ino (e # es) = encode_entry ino e @ encode_all (ino + 1) es"

lemma encode_all_append:
  "encode_all ino (es @ fs) = encode_all ino es @ encode_all (ino + of_nat (length es)) fs"
  by (induction es arbitrary: ino) (simp_all add: algebra_simps)

lemma add_all_append: "add_all wr W (es @ fs) = andThen (add_all wr W es) (\<lambda>W'. add_all wr W' fs)"
proof (induction es arbitrary: W)
  case (Cons e es)
  then show ?case by (cases "add wr W e"; cases "snd (add wr W e)") auto
qed simp

definition encodable :: "cpio_entry \<Rightarrow> bool" where
  "encodable e = (e_Name e \<noteq> '''' \<and> length (e_Name e) + 1 < 2 ^ 32 \<and>
     length (e_Data e) < 2 ^ 32 \<and> e_FileSize e = word_of_nat (length (e_Data e)))"

definition view :: "cpio_entry \<Rightarrow> parsedEntry" where
  "view e = \<lparr>p_Name = e_Name e, p_Mode = e_Mode e, p_FileSize = e_FileSize e,
     p_RDevMajor = e_RDevMajor e, p_RDevMinor = e_RDevMinor e, p_Data = e_Data e\<rparr>"

section \<open>The contract of the underlying writer\<close>

text \<open>
  An \<^verbatim>\<open>io.Writer\<close> that reports no error has appended exactly the bytes given to it to
  what was written before; a total one never reports an error.
\<close>

locale io_sink =
  fixes wr :: "'s sink" and content :: "'s \<Rightarrow> bytes"
  assumes write_ok: "wr s b = (s', None) \<Longrightarrow> content s' = content s @ b"
begin

lemma pad4_ok: "pad4 wr s n = (s', None) \<Longrightarrow> content s' = content s @ zeros (padding n)"
  by (auto simp: pad4_def zeros_def write_ok split: if_splits)

lemma writeBytes_ok: "writeBytes wr s b = (s', None) \<Longrightarrow> content s' = content s @ b"
  by (auto simp: writeBytes_def write_ok split: if_splits)

lemma writeString_ok: "writeString wr s b = (s', None) \<Longrightarrow> content s' = content s @ b"
  by (auto simp: writeString_def write_ok)

lemma add_ok:
  assumes "add wr W e = (W', None)"
  shows "content (wr_w W') = content (wr_w W) @ encode_entry (wr_nextIno W) e
       \<and> wr_nextIno W' = wr_nextIno W + 1 \<and> wr_closed W' = wr_closed W"
  using assms unfolding add_def
  by (auto simp: andThen_None encode_entry_def zeros_def dest!: pad4_ok writeBytes_ok writeString_ok
      split: if_splits prod.splits option.splits)

lemma add_all_ok:
  assumes "add_all wr W es = (W', None)"
  shows "content (wr_w W') = content (wr_w W) @ encode_all (wr_nextIno W) es
       \<and> wr_nextIno W' = wr_nextIno W + of_nat (length es) \<and> wr_closed W' = wr_closed W"
  using assms
proof (induction es arbitrary: W)
  case (Cons e es)
  then obtain W1 where W1: "add wr W e = (W1, None)" "add_all wr W1 es = (W', None)"
    by (auto simp: andThen_None)
  from add_ok [OF W1(1)] Cons.IH [OF W1(2)] show ?case by (simp add: algebra_simps)
qed simp

lemma archive_ok:
  assumes "add_all wr W es = (W1, None)" and "CloseWriter wr W1 = (W2, None)" and "\<not> wr_closed W"
  shows "content (wr_w W2) = content (wr_w W) @ encode_all (wr_nextIno W) (es @ [trailer_entry])"
proof -
  from add_all_ok [OF assms(1)] assms(3) have "\<not> wr_closed W1" by simp
  with assms(2) have "add_all wr (W1\<lparr>wr_closed := True\<rparr>) [trailer_entry] = (W2, None)"
    by (simp add: CloseWriter_def)
  from add_all_ok [OF this] add_all_ok [OF assms(1)] show ?thesis
    by (simp add: encode_all_append)
qed

end

locale total_sink = io_sink +
  assumes write_total: "\<exists>s'. wr s b = (s', None)"
begin

lemma pad4_total: "\<exists>s'. pad4 wr s n = (s', None)"
  by (simp add: pad4_def write_total)

lemma writeBytes_total: "\<exists>s'. writeBytes wr s b = (s', None)"
  by (simp add: writeBytes_def write_total)

lemma writeString_total: "\<exists>s'. writeString wr s b = (s', None)"
  by (simp add: writeString_def write_total)

lemma add_total:
  assumes "e_Name e \<noteq> ''''" and "wr_closed W \<Longrightarrow> e_Name e = trailer"
  shows "\<exists>W'. add wr W e = (W', None)"
proof -
  obtain s1 where 1: "writeString wr (wr_w W) (header (wr_nextIno W) e) = (s1, None)"
    using writeString_total by blast
  obtain s2 where 2: "writeString wr s1 (e_Name e) = (s2, None)"
    using writeString_total by blast
  obtain s3 where 3: "writeBytes wr s2 [CHR 0x00] = (s3, None)"
    using writeBytes_total by blast
  obtain s4 where 4: "pad4 wr s3 (110 + length (e_Name e) + 1) = (s4, None)"
    using pad4_total by blast
  obtain s5 where 5: "writeBytes wr s4 (e_Data e) = (s5, None)"
    using writeBytes_total by blast
  obtain s6 where 6: "pad4 wr s5 (length (e_Data e)) = (s6, None)"
    using pad4_total by blast
  show ?thesis using assms 1 2 3 4 5 6 by (auto simp: add_def)
qed

lemma archive_total:
  assumes "\<forall>e\<in>set es. e_Name e \<noteq> ''''" and "\<not> wr_closed W"
  shows "\<exists>W1 W2. add_all wr W es = (W1, None) \<and> CloseWriter wr W1 = (W2, None)"
proof -
  have "\<exists>W1. add_all wr W es = (W1, None)"
    using assms
  proof (induction es arbitrary: W)
    case (Cons e es)
    then obtain W1 where W1: "add wr W e = (W1, None)" using add_total by fastforce
    from add_ok [OF this] Cons.prems Cons.IH [of W1] W1 show ?case by auto
  qed simp
  then obtain W1 where W1: "add_all wr W es = (W1, None)" by blast
  have "e_Name trailer_entry = trailer" "trailer \<noteq> ''''"
    by (simp_all add: trailer_entry_def trailer_def)
  then have "\<exists>W2. CloseWriter wr W1 = (W2, None)"
    using add_total [of trailer_entry "W1\<lparr>wr_closed := True\<rparr>"] by (simp add: CloseWriter_def)
  with W1 show ?thesis by blast
qed

end

text \<open>\<^verbatim>\<open>bytes.Buffer\<close>: its state is its content and its \<^verbatim>\<open>Write\<close> never fails.\<close>

definition buffer_write :: "bytes sink" where
  "buffer_write s b = (s @ b, None)"

interpretation buffer: total_sink buffer_write "\<lambda>s. s"
  by unfold_locales (auto simp: buffer_write_def)

section \<open>Reading back what was written\<close>

lemma slice_append: "length a = m \<Longrightarrow> m \<le> i \<Longrightarrow> slice i j (a @ b) = slice (i - m) (j - m) b"
  by (auto simp: slice_def)

lemma slice_prefix: "length a = j \<Longrightarrow> slice 0 j (a @ b) = a"
  by (auto simp: slice_def)

lemma slice_concat:
  assumes "\<forall>x\<in>set xs. length x = n" and "k < length xs"
  shows "slice (n * k) (n * k + n) (concat xs) = xs ! k"
  using assms
proof (induction xs arbitrary: k)
  case (Cons x xs)
  then show ?case
    by (cases k) (auto simp: slice_prefix slice_append [where m = n] add.commute)
qed simp

lemma header_field:
  assumes "length (e_Name e) + 1 < 2 ^ 32" and "k < 13"
  shows "slice (6 + 8 * k) (14 + 8 * k) (header ino e) =
     hex08 ([unat ino, unat (e_Mode e), unat (e_UID e), unat (e_GID e), unat (e_NLink e),
        unat (e_MTime e), unat (e_FileSize e), unat (e_DevMajor e), unat (e_DevMinor e),
        unat (e_RDevMajor e), unat (e_RDevMinor e), length (e_Name e) + 1, 0] ! k)"
proof -
  let ?ns = "[unat ino, unat (e_Mode e), unat (e_UID e), unat (e_GID e), unat (e_NLink e),
        unat (e_MTime e), unat (e_FileSize e), unat (e_DevMajor e), unat (e_DevMinor e),
        unat (e_RDevMajor e), unat (e_RDevMinor e), length (e_Name e) + 1, 0]"
  have w: "unat w < 2 ^ 32" for w :: "32 word"
    using unat32_less [of w] by simp
  have "\<forall>x\<in>set (map hex08 ?ns). length x = 8"
    using w assms(1) by (auto intro!: length_hex08)
  moreover have "k < length (map hex08 ?ns)" using assms(2) by simp
  ultimately have "slice (8 * k) (8 * k + 8) (concat (map hex08 ?ns)) = map hex08 ?ns ! k"
    by (rule slice_concat)
  moreover have "slice (6 + 8 * k) (14 + 8 * k) (newcMagic @ concat (map hex08 ?ns))
      = slice (8 * k) (8 * k + 8) (concat (map hex08 ?ns))"
    by (subst slice_append [where m = 6]) (auto simp: newcMagic_def add.commute)
  ultimately show ?thesis using assms(2) unfolding header_def by (simp only: nth_map length_map list.size)
qed

lemma length_header:
  assumes "length (e_Name e) + 1 < 2 ^ 32"
  shows "length (header ino e) = 110"
proof -
  have w: "length (hex08 (unat w)) = 8" for w :: "32 word"
    using unat32_less [of w] by (intro length_hex08) simp
  show ?thesis using w assms length_hex08 [of "length (e_Name e) + 1"] length_hex08 [of 0]
    by (simp add: header_def newcMagic_def)
qed

lemma parseHex_hex08: "n < 2 ^ 32 \<Longrightarrow> parseHex (hex08 n) = Inr (word_of_nat n)"
  by (simp add: parseHex_def ParseUint_hex08)

lemma parseHeader_header:
  assumes "length (e_Name e) + 1 < 2 ^ 32"
  shows "parseHeader (header ino e) = Inr \<lparr>h_mode = e_Mode e, h_fileSize = e_FileSize e,
     h_rdevMajor = e_RDevMajor e, h_rdevMinor = e_RDevMinor e, h_nameSize = word_of_nat (length (e_Name e) + 1)\<rparr>"
proof -
  have w: "parseHex (hex08 (unat w)) = Inr w" for w :: "32 word"
    using unat32_less [of w] by (simp add: parseHex_hex08)
  have m: "slice 0 6 (header ino e) = newcMagic"
    unfolding header_def by (rule slice_prefix) (simp add: newcMagic_def)
  have f1: "slice 14 22 (header ino e) = hex08 (unat (e_Mode e))"
    using header_field [OF assms, where k = 1 and ino = ino] by simp
  have f6: "slice 54 62 (header ino e) = hex08 (unat (e_FileSize e))"
    using header_field [OF assms, where k = 6 and ino = ino] by simp
  have f9: "slice 78 86 (header ino e) = hex08 (unat (e_RDevMajor e))"
    using header_field [OF assms, where k = 9 and ino = ino] by simp
  have f10: "slice 86 94 (header ino e) = hex08 (unat (e_RDevMinor e))"
    using header_field [OF assms, where k = 10 and ino = ino] by simp
  have f11: "slice 94 102 (header ino e) = hex08 (length (e_Name e) + 1)"
    using header_field [OF assms, where k = 11 and ino = ino] by simp
  from m show ?thesis
    by (simp only: parseHeader_def f1 f6 f9 f10 f11 w parseHex_hex08 [OF assms] bindR.simps if_False simp_thms)
qed

lemma padding_dvd: "4 dvd n + padding n"
proof -
  have "(n + padding n) mod 4 = (n mod 4 + (4 - n mod 4)) mod 4"
    unfolding padding_def by (simp only: mod_add_right_eq mod_add_left_eq)
  also have "\<dots> = 0" by simp
  finally show ?thesis by (simp add: dvd_eq_mod_eq_0)
qed

lemma align4_padding: "align4 n = n + padding n"
  by (simp add: align4_def padding_def)

lemma padding_shift: "4 dvd m \<Longrightarrow> padding (m + n) = padding n"
  by (auto simp: padding_def dvd_def)

lemma length_encode_entry:
  assumes "length (e_Name e) + 1 < 2 ^ 32"
  shows "length (encode_entry ino e) = 110 + length (e_Name e) + 1 + padding (110 + length (e_Name e) + 1)
     + length (e_Data e) + padding (length (e_Data e))"
  by (simp add: encode_entry_def length_header [OF assms] zeros_def)

lemma length_encode_entry_dvd:
  assumes "length (e_Name e) + 1 < 2 ^ 32"
  shows "4 dvd length (encode_entry ino e)"
  unfolding length_encode_entry [OF assms]
  using dvd_add [OF padding_dvd [of "110 + length (e_Name e) + 1"] padding_dvd [of "length (e_Data e)"]]
  by (simp add: add_ac)

lemma parseEntry_encode:
  assumes e: "encodable e" and pre: "4 dvd length pre"
  shows "parseEntry (pre @ encode_entry ino e @ rest) (length pre) =
     Inr (view e, length pre + length (encode_entry ino e))"
proof -
  let ?n = "length (e_Name e)" and ?d = "length (e_Data e)" and ?p = "length pre"
  let ?data = "pre @ encode_entry ino e @ rest"
  from e have n: "?n + 1 < 2 ^ 32" and d: "?d < 2 ^ 32" and fs: "e_FileSize e = word_of_nat ?d"
    by (simp_all add: encodable_def)
  have ufs: "unat (e_FileSize e) = ?d" using d fs by (simp add: unat32_of_nat)
  have uns: "unat (word_of_nat (?n + 1) :: 32 word) = ?n + 1" using n by (rule unat32_of_nat)
  define z1 where "z1 = zeros (padding (110 + ?n + 1))"
  define z2 where "z2 = zeros (padding ?d)"
  have data: "?data = pre @ header ino e @ (e_Name e @ zeros 1) @ z1 @ e_Data e @ z2 @ rest"
    by (simp add: encode_entry_def z1_def z2_def)
  have lh: "length (header ino e) = 110" using n by (rule length_header)
  have lz: "length z1 = padding (110 + ?n + 1)" "length z2 = padding ?d"
    by (simp_all add: z1_def z2_def zeros_def)
  have sh: "slice ?p (?p + 110) ?data = header ino e"
    unfolding data by (simp add: slice_append [where m = ?p] slice_prefix lh)
  have off2: "align4 (?p + 110 + (?n + 1)) = ?p + 110 + (?n + 1) + padding (110 + ?n + 1)"
    using padding_shift [OF pre, of "110 + ?n + 1"] by (simp add: align4_padding add_ac)
  define off2 where "off2 = ?p + 110 + (?n + 1) + padding (110 + ?n + 1)"
  have "4 dvd off2"
    unfolding off2_def using dvd_add [OF pre padding_dvd [of "110 + ?n + 1"]] by (simp add: add_ac)
  then have off3: "align4 (off2 + ?d) = off2 + ?d + padding ?d"
    by (simp add: align4_padding padding_shift)
  have sn: "slice (?p + 110) (?p + 110 + (?n + 1)) ?data = e_Name e @ zeros 1"
    unfolding data by (simp add: slice_append [where m = ?p] slice_append [where m = 110] lh slice_def zeros_def)
  have sd: "slice off2 (off2 + ?d) ?data = e_Data e"
    unfolding data off2_def using lh lz
    by (simp add: slice_def zeros_def)
  have len: "length ?data = off2 + ?d + padding ?d + length rest"
    by (simp add: length_encode_entry [OF n] off2_def)
  have "parseBody ?data (?p + 110) \<lparr>h_mode = e_Mode e, h_fileSize = e_FileSize e,
     h_rdevMajor = e_RDevMajor e, h_rdevMinor = e_RDevMinor e, h_nameSize = word_of_nat (?n + 1)\<rparr>
     = Inr (view e, off2 + ?d + padding ?d)"
    unfolding parseBody_def Let_def parsedHeader.simps uns ufs off2 off2_def [symmetric] off3 sn sd len
    by (simp add: view_def zeros_def off2_def)
  moreover have "off2 + ?d + padding ?d = ?p + length (encode_entry ino e)"
    by (simp add: length_encode_entry [OF n] off2_def)
  moreover have "\<not> length ?data < ?p + 110" unfolding len off2_def by simp
  ultimately show ?thesis
    by (simp only: parseEntry_def sh parseHeader_header [OF n] bindR.simps if_False)
qed

lemma parseFrom_encode_all:
  assumes "\<forall>e\<in>set es. encodable e \<and> e_Name e \<noteq> trailer" and "encodable t" and "e_Name t = trailer"
    and "4 dvd length pre"
  shows "parseFrom (pre @ encode_all ino (es @ [t])) (length pre) = Inr (map view (es @ [t]))"
  using assms
proof (induction es arbitrary: pre ino)
  case Nil
  then show ?case
    using parseEntry_encode [of t pre ino "[]"] by (subst parseFrom.simps) (simp add: view_def)
next
  case (Cons e es)
  have e: "encodable e" "e_Name e \<noteq> trailer" using Cons.prems(1) by auto
  have "4 dvd length (pre @ encode_entry ino e)"
    using Cons.prems(4) length_encode_entry_dvd [of e ino] e(1) by (simp add: encodable_def)
  with Cons have "parseFrom ((pre @ encode_entry ino e) @ encode_all (ino + 1) (es @ [t]))
       (length (pre @ encode_entry ino e)) = Inr (map view (es @ [t]))"
    by (intro Cons.IH) auto
  with e parseEntry_encode [OF e(1) Cons.prems(4), of ino "encode_all (ino + 1) (es @ [t])"]
  show ?case by (subst parseFrom.simps) (simp add: view_def)
qed


lemma encodable_trailer: "encodable trailer_entry" "e_Name trailer_entry = trailer"
  by (simp_all add: encodable_def trailer_entry_def trailer_def zero_entry_def)

lemma parseArchive_encode_all:
  assumes "\<forall>e\<in>set es. encodable e \<and> e_Name e \<noteq> trailer"
  shows "parseArchive (encode_all 1 (es @ [trailer_entry])) = Inr (map view es @ [view trailer_entry])"
  using parseFrom_encode_all [OF assms encodable_trailer, of "[]" 1] by (simp add: parseArchive_def)

text \<open>
  C1. Round trip: whatever list of entries with non-empty names other than the trailer's
  and with sizes that fit their 32-bit fields is added to a writer over a buffer, every
  addition and the closing succeed and the archive reads back as exactly those entries,
  in order, and the trailer.
\<close>

theorem archive_roundtrip:
  assumes "\<forall>e\<in>set es. encodable e \<and> e_Name e \<noteq> trailer"
  shows "\<exists>W1 W2. add_all buffer_write (NewWriter []) es = (W1, None) \<and> CloseWriter buffer_write W1 = (W2, None)
     \<and> parseArchive (wr_w W2) = Inr (map view es @ [view trailer_entry])"
proof -
  have n: "\<forall>e\<in>set es. e_Name e \<noteq> []" and o: "\<not> wr_closed (NewWriter [])"
    using assms by (auto simp: encodable_def NewWriter_def)
  obtain W1 W2 where W: "add_all buffer_write (NewWriter []) es = (W1, None)" "CloseWriter buffer_write W1 = (W2, None)"
    using buffer.archive_total [OF n o] by blast
  from buffer.archive_ok [OF W o] parseArchive_encode_all [OF assms] W show ?thesis
    by (simp add: NewWriter_def)
qed

lemma e_Name_entries [simp]:
  "e_Name (dir_entry n p t) = n" "e_Name (file_entry n p t b) = n" "e_Name (char_entry n p t ma mi) = n"
  by (simp_all add: dir_entry_def file_entry_def char_entry_def)

lemma encodable_dir: "name \<noteq> [] \<Longrightarrow> length name + 1 < 2 ^ 32 \<Longrightarrow> encodable (dir_entry name perm t)"
  by (simp add: encodable_def dir_entry_def zero_entry_def)

lemma encodable_file: "name \<noteq> [] \<Longrightarrow> length name + 1 < 2 ^ 32 \<Longrightarrow> length data < 2 ^ 32 \<Longrightarrow>
   encodable (file_entry name perm t data)"
  by (simp add: encodable_def file_entry_def zero_entry_def)

lemma encodable_char: "name \<noteq> [] \<Longrightarrow> length name + 1 < 2 ^ 32 \<Longrightarrow> encodable (char_entry name perm t a b)"
  by (simp add: encodable_def char_entry_def zero_entry_def)

theorem archive_roundtrip_witness:
  "\<exists>W1 W2. add_all buffer_write (NewWriter []) [dir_entry ''dev'' 0x1ED 7, file_entry ''init'' 0x1ED 7 ''hello''] = (W1, None)
     \<and> CloseWriter buffer_write W1 = (W2, None)
     \<and> parseArchive (wr_w W2) = Inr (map view [dir_entry ''dev'' 0x1ED 7, file_entry ''init'' 0x1ED 7 ''hello''] @ [view trailer_entry])"
  by (rule archive_roundtrip) (simp add: encodable_dir encodable_file trailer_def)

text \<open>
  The header is 110 bytes, and its field number \<open>k\<close> after the magic reads back as the
  \<open>k\<close>-th of inode, mode, owner, group, links, time, size, device and name length, at the
  offset the format gives it.
\<close>

theorem header_layout:
  assumes "length (e_Name e) + 1 < 2 ^ 32" and "k < 13"
  shows "length (header ino e) = 110 \<and> slice 0 6 (header ino e) = newcMagic \<and>
     ParseUint 16 32 (slice (6 + 8 * k) (14 + 8 * k) (header ino e)) =
     Some ([unat ino, unat (e_Mode e), unat (e_UID e), unat (e_GID e), unat (e_NLink e),
        unat (e_MTime e), unat (e_FileSize e), unat (e_DevMajor e), unat (e_DevMinor e),
        unat (e_RDevMajor e), unat (e_RDevMinor e), length (e_Name e) + 1, 0] ! k)"
proof -
  have "\<forall>n\<in>set [unat ino, unat (e_Mode e), unat (e_UID e), unat (e_GID e), unat (e_NLink e),
        unat (e_MTime e), unat (e_FileSize e), unat (e_DevMajor e), unat (e_DevMinor e),
        unat (e_RDevMajor e), unat (e_RDevMinor e), length (e_Name e) + 1, 0]. n < 2 ^ 32"
    using assms(1) unat32_less by simp
  then have "[unat ino, unat (e_Mode e), unat (e_UID e), unat (e_GID e), unat (e_NLink e),
        unat (e_MTime e), unat (e_FileSize e), unat (e_DevMajor e), unat (e_DevMinor e),
        unat (e_RDevMajor e), unat (e_RDevMinor e), length (e_Name e) + 1, 0] ! k < 2 ^ 32"
    using assms(2) by (auto intro: nth_mem simp del: set_simps)
  moreover have "slice 0 6 (header ino e) = newcMagic"
    unfolding header_def by (rule slice_prefix) (simp add: newcMagic_def)
  ultimately show ?thesis
    by (simp only: header_field [OF assms] length_header [OF assms(1)] ParseUint_hex08 simp_thms)
qed

theorem header_layout_witness:
  "ParseUint 16 32 (slice 54 62 (header 1 (file_entry ''init'' 0x1ED 7 ''hello''))) = Some 5"
  using header_layout [of "file_entry ''init'' 0x1ED 7 ''hello''" 6 1] by (simp add: file_entry_def zero_entry_def)

context io_sink
begin

lemma add_aligned:
  assumes "add wr W e = (W', None)" and "length (e_Name e) + 1 < 2 ^ 32" and "4 dvd length (content (wr_w W))"
  shows "4 dvd length (content (wr_w W'))"
  using add_ok [OF assms(1)] length_encode_entry_dvd [OF assms(2)] assms(3) by simp

end

text \<open>
  Alignment: an addition that succeeds leaves the archive at a multiple of four bytes
  when it started at one, so every header of an archive is aligned.
\<close>

theorem add_keeps_alignment:
  assumes "add buffer_write W e = (W', None)" and "length (e_Name e) + 1 < 2 ^ 32" and "4 dvd length (wr_w W)"
  shows "4 dvd length (wr_w W')"
  using assms by (rule buffer.add_aligned)

theorem add_keeps_alignment_witness:
  "\<exists>W'. add buffer_write (NewWriter []) (dir_entry ''dev'' 0x1ED 7) = (W', None) \<and> 4 dvd length (wr_w W')"
proof -
  obtain W' where "add buffer_write (NewWriter []) (dir_entry ''dev'' 0x1ED 7) = (W', None)"
    using buffer.add_total [of "dir_entry ''dev'' 0x1ED 7" "NewWriter []"] by (auto simp: NewWriter_def)
  moreover from this have "4 dvd length (wr_w W')"
    by (rule add_keeps_alignment) (simp_all add: NewWriter_def)
  ultimately show ?thesis by blast
qed

text \<open>
  Error paths of \<^verbatim>\<open>add\<close> for every sink: a closed writer refuses any entry but the
  trailer and an empty name is refused, in both cases without writing; and an error, the
  sink's included, leaves the inode counter and the closed flag as they were.
\<close>

theorem add_errors:
  "(wr_closed W \<and> e_Name e \<noteq> trailer \<longrightarrow> add write W e = (W, Some (errorf ''writer closed'')))
   \<and> (\<not> wr_closed W \<and> e_Name e = '''' \<longrightarrow> add write W e = (W, Some (errorf ''entry name must not be empty'')))
   \<and> (\<forall>W' er. add write W e = (W', Some er) \<longrightarrow>
        wr_nextIno W' = wr_nextIno W \<and> wr_closed W' = wr_closed W)"
  by (auto simp: add_def split: if_splits prod.splits option.splits)

theorem add_errors_witness:
  "add buffer_write ((NewWriter [])\<lparr>wr_closed := True\<rparr>) (dir_entry ''dev'' 0x1ED 7)
     = ((NewWriter [])\<lparr>wr_closed := True\<rparr>, Some (errorf ''writer closed''))"
  using add_errors [of "(NewWriter [])\<lparr>wr_closed := True\<rparr>" "dir_entry ''dev'' 0x1ED 7" buffer_write]
  by (simp add: trailer_def)

text \<open>
  \<^verbatim>\<open>Close\<close> takes effect once: after a first call, whatever it returned, a second one
  writes nothing and reports no error. This includes a first call whose trailer could not
  be written.
\<close>

theorem Close_once:
  assumes "CloseWriter write W = (W', r)"
  shows "CloseWriter write W' = (W', None)"
proof -
  have "wr_closed W'"
    using assms by (auto simp: CloseWriter_def add_def split: if_splits prod.splits option.splits)
  then show ?thesis by (simp add: CloseWriter_def)
qed

theorem Close_once_witness:
  "\<exists>W'. CloseWriter (\<lambda>s b. (s, Some (errorf ''disk full''))) (NewWriter ()) = (W', Some (errorf ''disk full''))
     \<and> CloseWriter (\<lambda>s b. (s, Some (errorf ''disk full''))) W' = (W', None)"
proof -
  let ?W = "(NewWriter ())\<lparr>wr_closed := True\<rparr>"
  have c: "CloseWriter (\<lambda>s b. (s, Some (errorf ''disk full''))) (NewWriter ()) = (?W, Some (errorf ''disk full''))"
    by (simp add: CloseWriter_def NewWriter_def add_def writeString_def trailer_entry_def trailer_def)
  from Close_once [OF c] c show ?thesis by blast
qed

end
