(* ===== verification/Mkinitramfs.thy ===== *)
theory Mkinitramfs
  imports Initramfs
begin

text \<open>
  The command \<^verbatim>\<open>cmd/mkinitramfs\<close>: the guest-path specifications, the files read from the
  host, the parent directories and the archive.

  The host is a parameter: its file reads, the zstd decoder (a third-party package), the
  gzip stream and the calls that create the output. Times are Unix seconds, all the
  archive keeps of them. \<^verbatim>\<open>main\<close>, which parses the flags, is in \<open>HostCommands\<close>.
\<close>

section \<open>Specifications and host files\<close>

record archiveFile =
  af_Path :: string
  af_Data :: bytes
  af_ModTime :: int
  af_Mode :: file_mode

record host_info =
  hi_ModTime :: int
  hi_Mode :: file_mode

record ('f, 'z) host =
  h_ReadFile :: "string \<Rightarrow> bytes result"
  h_Stat :: "string \<Rightarrow> host_info result"
  h_ZstdNewReader :: "unit result"
  h_ZstdDecodeAll :: "bytes \<Rightarrow> bytes result"
  h_MkdirAll :: "string \<Rightarrow> file_mode \<Rightarrow> go_error option"
  h_Create :: "string \<Rightarrow> 'f result"
  h_gzip :: "'f \<Rightarrow> 'z"
  h_gzip_Write :: "'z sink"
  h_gzip_Close :: "'z \<Rightarrow> 'z \<times> go_error option"

text \<open>The three flag types collect their values in order.\<close>

type_synonym string_flags = "string list"

definition flags_String :: "string_flags \<Rightarrow> string" where
  "flags_String m = Join '','' m"

definition flags_Set :: "string_flags \<Rightarrow> string \<Rightarrow> string_flags" where
  "flags_Set m v = m @ [v]"

definition parseModuleSpec :: "string \<Rightarrow> (string \<times> string) result" where
  "parseModuleSpec spec =
     (let err = Inl (errorf (''invalid -module-map '' @ quote spec @ '', expected guestPath=hostPath''))
      in case SplitN2 (CHR ''='') spec of
           [a, b] \<Rightarrow> if a = '''' \<or> b = '''' then err else Inr (a, b)
         | _ \<Rightarrow> err)"

definition readModuleData :: "('f, 'z) host \<Rightarrow> string \<Rightarrow> bytes result" where
  "readModuleData h path =
     bindR (wrapR (''read module '' @ path @ '': '') (h_ReadFile h path)) (\<lambda>data.
       if \<not> HasSuffix path ''.zst'' then Inr data
       else bindR (wrapR ''create zstd decoder: '' (h_ZstdNewReader h)) (\<lambda>_.
            wrapR (''decompress module '' @ path @ '': '') (h_ZstdDecodeAll h data)))"

definition readModule :: "('f, 'z) host \<Rightarrow> string \<Rightarrow> archiveFile result" where
  "readModule h spec =
     bindR (parseModuleSpec spec) (\<lambda>(guestPath, hostPath).
     bindR (readModuleData h hostPath) (\<lambda>data.
     bindR (wrapR (''stat module '' @ hostPath @ '': '') (h_Stat h hostPath)) (\<lambda>info.
       Inr \<lparr>af_Path = TrimPrefix guestPath ''/'', af_Data = data,
            af_ModTime = hi_ModTime info, af_Mode = 0x1A4\<rparr>)))"

definition readFile :: "('f, 'z) host \<Rightarrow> string \<Rightarrow> archiveFile result" where
  "readFile h spec =
     bindR (parseModuleSpec spec) (\<lambda>(guestPath, hostPath).
     bindR (wrapR (''read file '' @ hostPath @ '': '') (h_ReadFile h hostPath)) (\<lambda>data.
     bindR (wrapR (''stat file '' @ hostPath @ '': '') (h_Stat h hostPath)) (\<lambda>info.
       Inr \<lparr>af_Path = TrimPrefix guestPath ''/'', af_Data = data,
            af_ModTime = hi_ModTime info, af_Mode = Perm (hi_Mode info)\<rparr>)))"

text \<open>A loop that appends one result per element and stops at the first error.\<close>

fun mapR :: "('a \<Rightarrow> 'b result) \<Rightarrow> 'a list \<Rightarrow> ('b list) result" where
  "mapR f [] = Inr []"
| "mapR f (x # xs) = bindR (f x) (\<lambda>y. bindR (mapR f xs) (\<lambda>ys. Inr (y # ys)))"

definition readExtraFiles :: "('f, 'z) host \<Rightarrow> string list \<Rightarrow> string list \<Rightarrow> (archiveFile list) result"
where
  "readExtraFiles h moduleSpecs fileSpecs =
     (if moduleSpecs = [] \<and> fileSpecs = [] then Inr []
      else bindR (mapR (readModule h) moduleSpecs) (\<lambda>ms.
           bindR (mapR (readFile h) fileSpecs) (\<lambda>fs. Inr (ms @ fs))))"

definition spec_lines :: "bytes \<Rightarrow> string list" where
  "spec_lines data =
     filter (\<lambda>t. \<not> (t = '''' \<or> HasPrefix t ''#'')) (map TrimSpace (Split (CHR 0x0A) data))"

definition expandFileSpecs :: "('f, 'z) host \<Rightarrow> string list \<Rightarrow> string list \<Rightarrow> (string list) result" where
  "expandFileSpecs h inl fileSets =
     bindR (mapR (\<lambda>path. bindR (wrapR (''read file map file '' @ path @ '': '') (h_ReadFile h path))
                         (\<lambda>data. Inr (spec_lines data))) fileSets)
       (\<lambda>lss. Inr (inl @ concat lss))"

section \<open>Directories and the archive\<close>

definition parentDirectories :: "string \<Rightarrow> string list" where
  "parentDirectories path =
     (let clean = Clean (TrimPrefix path ''/'')
      in if clean = ''.'' \<or> clean = '''' then []
         else let dir = Dir clean
         in if dir = ''.'' then []
            else let parts = Split slash dir
                 in map (\<lambda>i. PathJoin (take (Suc i) parts)) [0..<length parts])"

fun addDirs ::
  "'s sink \<Rightarrow> int \<Rightarrow> 's Writer \<times> string list \<Rightarrow> string list \<Rightarrow> ('s Writer \<times> string list) \<times> go_error option"
where
  "addDirs write t (A, seen) [] = ((A, seen), None)"
| "addDirs write t (A, seen) (d # ds) =
     (if List.member seen d then addDirs write t (A, seen) ds
      else case wrapErr (''add '' @ d @ '' directory: '') (AddDirectory write A d 0x1ED t) of
             (A', Some e) \<Rightarrow> ((A', seen), Some e)
           | (A', None) \<Rightarrow> addDirs write t (A', d # seen) ds)"

fun addExtraDirs ::
  "'s sink \<Rightarrow> 's Writer \<times> string list \<Rightarrow> archiveFile list \<Rightarrow> ('s Writer \<times> string list) \<times> go_error option"
where
  "addExtraDirs write st [] = (st, None)"
| "addExtraDirs write st (x # xs) =
     andThen (addDirs write (af_ModTime x) st (parentDirectories (af_Path x)))
       (\<lambda>st'. addExtraDirs write st' xs)"

definition addExtraDirectories ::
  "'s sink \<Rightarrow> 's Writer \<Rightarrow> archiveFile list \<Rightarrow> 's Writer \<times> go_error option" where
  "addExtraDirectories write A extras =
     (case addExtraDirs write (A, [''dev'', ''proc'', ''sys'']) extras of ((A', seen), r) \<Rightarrow> (A', r))"

fun addExtraFiles :: "'s sink \<Rightarrow> 's Writer \<Rightarrow> archiveFile list \<Rightarrow> 's Writer \<times> go_error option" where
  "addExtraFiles write A [] = (A, None)"
| "addExtraFiles write A (x # xs) =
     andThen (wrapErr (''add '' @ af_Path x @ '': '')
               (AddFile write A (af_Path x) (af_Mode x) (af_ModTime x) (af_Data x)))
       (\<lambda>A'. addExtraFiles write A' xs)"

definition writeEntries ::
  "'s sink \<Rightarrow> 's Writer \<Rightarrow> int \<Rightarrow> bytes \<Rightarrow> archiveFile list \<Rightarrow> 's Writer \<times> go_error option" where
  "writeEntries write A modTime initData extras =
     andThen (wrapErr ''add dev directory: '' (AddDirectory write A ''dev'' 0x1ED modTime)) (\<lambda>A.
     andThen (wrapErr ''add proc directory: '' (AddDirectory write A ''proc'' 0x1ED modTime)) (\<lambda>A.
     andThen (wrapErr ''add sys directory: '' (AddDirectory write A ''sys'' 0x1ED modTime)) (\<lambda>A.
     andThen (addExtraDirectories write A extras) (\<lambda>A.
     andThen (wrapErr ''add /dev/console: '' (AddCharDevice write A ''dev/console'' 0x180 modTime 5 1)) (\<lambda>A.
     andThen (wrapErr ''add /dev/null: '' (AddCharDevice write A ''dev/null'' 0x1B6 modTime 1 3)) (\<lambda>A.
     andThen (wrapErr ''add /init: '' (AddFile write A ''init'' 0x1ED modTime initData)) (\<lambda>A.
     andThen (addExtraFiles write A extras) (\<lambda>A.
     wrapErr ''close archive: '' (CloseWriter write A)))))))))"

text \<open>
  \<^verbatim>\<open>gzip.NewWriterLevel\<close> fails only on a level outside \<open>-2\<close> to \<open>9\<close>;
  \<^verbatim>\<open>gzip.BestCompression\<close> is 9. The result pairs the gzip stream with the error.
\<close>

definition NewWriterLevel :: "('f \<Rightarrow> 'z) \<Rightarrow> 'f \<Rightarrow> int \<Rightarrow> 'z result" where
  "NewWriterLevel gz w level =
     (if level < -2 \<or> level > 9 then Inl (errorf ''gzip: invalid compression level'') else Inr (gz w))"

definition writeArchive ::
  "('f, 'z) host \<Rightarrow> 'f \<Rightarrow> int \<Rightarrow> bytes \<Rightarrow> archiveFile list \<Rightarrow> 'z option \<times> go_error option" where
  "writeArchive h w modTime initData extras =
     (case NewWriterLevel (h_gzip h) w 9 of
        Inl e \<Rightarrow> (None, Some (wrap ''create gzip writer: '' e))
      | Inr zw \<Rightarrow>
          (case writeEntries (h_gzip_Write h) (NewWriter zw) modTime initData extras of
             (A, Some e) \<Rightarrow> (Some (wr_w A), Some e)
           | (A, None) \<Rightarrow>
               (case wrapErr ''close gzip stream: '' (h_gzip_Close h (wr_w A)) of
                  (zw', r) \<Rightarrow> (Some zw', r))))"

definition run ::
  "('f, 'z) host \<Rightarrow> string \<Rightarrow> string \<Rightarrow> string_flags \<Rightarrow> string_flags \<Rightarrow> string_flags
     \<Rightarrow> ('z option \<times> go_error option)" where
  "run h initPath output modules files fileSets =
     (if initPath = '''' then (None, Some (errorf ''-init-bin is required''))
      else if output = '''' then (None, Some (errorf ''-output is required''))
      else case bindR (wrapR ''read init binary: '' (h_ReadFile h initPath)) (\<lambda>initData.
                bindR (wrapR ''stat init binary: '' (h_Stat h initPath)) (\<lambda>info.
                bindR (expandFileSpecs h files fileSets) (\<lambda>fileSpecs.
                bindR (readExtraFiles h modules fileSpecs) (\<lambda>extras.
                bindR (case h_MkdirAll h (Dir output) 0x1ED of
                         Some e \<Rightarrow> Inl (wrap ''create output directory: '' e) | None \<Rightarrow> Inr ()) (\<lambda>_.
                bindR (wrapR ''create output file: '' (h_Create h output)) (\<lambda>file.
                  Inr (initData, info, extras, file))))))) of
             Inl e \<Rightarrow> (None, Some e)
           | Inr (initData, info, extras, file) \<Rightarrow>
               writeArchive h file (hi_ModTime info) initData extras)"

text \<open>
  A guest path with more than one leading slash loses only one of them before it is split: it then has
  an empty parent, which the writer refuses.
\<close>

lemma parents_of_double_slash: "parentDirectories ''//a/b'' = ['''', ''a'']"
  by code_simp

section \<open>The archive as a value\<close>

text \<open>The directories \<^verbatim>\<open>addExtraDirectories\<close> adds, with the time of the file that needs them.\<close>

fun newDirs :: "string list \<Rightarrow> string list \<Rightarrow> string list" where
  "newDirs seen [] = []"
| "newDirs seen (d # ds) = (if List.member seen d then newDirs seen ds else d # newDirs (d # seen) ds)"

fun extraDirs :: "string list \<Rightarrow> archiveFile list \<Rightarrow> (string \<times> int) list" where
  "extraDirs seen [] = []"
| "extraDirs seen (x # xs) =
     (let ds = newDirs seen (parentDirectories (af_Path x))
      in map (\<lambda>d. (d, af_ModTime x)) ds @ extraDirs (rev ds @ seen) xs)"

definition archive_dirs :: "archiveFile list \<Rightarrow> (string \<times> int) list" where
  "archive_dirs extras = extraDirs [''dev'', ''proc'', ''sys''] extras"

definition archive_entries :: "int \<Rightarrow> bytes \<Rightarrow> archiveFile list \<Rightarrow> cpio_entry list" where
  "archive_entries modTime initData extras =
     [dir_entry ''dev'' 0x1ED modTime, dir_entry ''proc'' 0x1ED modTime, dir_entry ''sys'' 0x1ED modTime]
     @ map (\<lambda>(d, t). dir_entry d 0x1ED t) (archive_dirs extras)
     @ [char_entry ''dev/console'' 0x180 modTime 5 1, char_entry ''dev/null'' 0x1B6 modTime 1 3,
        file_entry ''init'' 0x1ED modTime initData]
     @ map (\<lambda>x. file_entry (af_Path x) (af_Mode x) (af_ModTime x) (af_Data x)) extras"

section \<open>The command writes that value\<close>

lemma addDirs_add_all:
  "addDirs wr t (A, seen) ds = ((A', seen'), None) \<longleftrightarrow>
     add_all wr A (map (\<lambda>d. dir_entry d 0x1ED t) (newDirs seen ds)) = (A', None)
     \<and> seen' = rev (newDirs seen ds) @ seen"
proof (induction ds arbitrary: A seen)
  case (Cons d ds)
  show ?case
  proof (cases "List.member seen d")
    case True
    with Cons show ?thesis by simp
  next
    case False
    obtain B r where B: "add wr A (dir_entry d 0x1ED t) = (B, r)" by fastforce
    with False Cons [of B "d # seen"] show ?thesis
      by (cases r) (auto simp: AddDirectory_def)
  qed
qed auto

lemma addExtraDirs_add_all:
  "(\<exists>seen'. addExtraDirs wr (A, seen) xs = ((A', seen'), None)) \<longleftrightarrow>
     add_all wr A (map (\<lambda>(d, t). dir_entry d 0x1ED t) (extraDirs seen xs)) = (A', None)"
proof (induction xs arbitrary: A seen)
  case (Cons x xs)
  let ?ds = "newDirs seen (parentDirectories (af_Path x))"
  have "(\<exists>seen'. addExtraDirs wr (A, seen) (x # xs) = ((A', seen'), None)) \<longleftrightarrow>
     (\<exists>B. add_all wr A (map (\<lambda>d. dir_entry d 0x1ED (af_ModTime x)) ?ds) = (B, None)
        \<and> (\<exists>seen'. addExtraDirs wr (B, rev ?ds @ seen) xs = ((A', seen'), None)))"
    by (auto simp: andThen_None addDirs_add_all)
  then show ?case unfolding Cons
    by (simp add: Let_def add_all_append andThen_None comp_def)
qed simp

lemma addExtraDirectories_add_all:
  "addExtraDirectories wr A xs = (A', None) \<longleftrightarrow>
     add_all wr A (map (\<lambda>(d, t). dir_entry d 0x1ED t) (archive_dirs xs)) = (A', None)"
  unfolding archive_dirs_def addExtraDirs_add_all [symmetric]
  by (auto simp: addExtraDirectories_def split: prod.splits)

lemma addExtraFiles_add_all:
  "addExtraFiles wr A xs = (A', None) \<longleftrightarrow>
     add_all wr A (map (\<lambda>x. file_entry (af_Path x) (af_Mode x) (af_ModTime x) (af_Data x)) xs) = (A', None)"
proof (induction xs arbitrary: A)
  case (Cons x xs)
  then show ?case by (simp add: andThen_None wrapErr_None AddFile_def)
qed simp

lemma writeEntries_add_all:
  "writeEntries wr A t d xs = (A', None) \<longleftrightarrow>
     (\<exists>B. add_all wr A (archive_entries t d xs) = (B, None) \<and> CloseWriter wr B = (A', None))"
  by (auto simp: writeEntries_def archive_entries_def andThen_None wrapErr_None add_all_append
      addExtraDirectories_add_all addExtraFiles_add_all AddDirectory_def AddCharDevice_def AddFile_def)

lemma writeArchive_ok:
  "writeArchive h w t d xs = (Some z, None) \<longleftrightarrow>
     (\<exists>B C. add_all (h_gzip_Write h) (NewWriter (h_gzip h w)) (archive_entries t d xs) = (B, None)
        \<and> CloseWriter (h_gzip_Write h) B = (C, None) \<and> h_gzip_Close h (wr_w C) = (z, None))"
proof -
  have "writeArchive h w t d xs = (Some z, None) \<longleftrightarrow>
    (\<exists>C. writeEntries (h_gzip_Write h) (NewWriter (h_gzip h w)) t d xs = (C, None)
       \<and> h_gzip_Close h (wr_w C) = (z, None))"
    by (auto simp: writeArchive_def NewWriterLevel_def wrapErr_None split: prod.splits option.splits)
  then show ?thesis by (auto simp: writeEntries_add_all)
qed

text \<open>The files an archive can hold: non-empty names and sizes that fit the 32-bit fields.\<close>

definition archivable :: "archiveFile list \<Rightarrow> bool" where
  "archivable xs = (\<forall>x\<in>set xs. af_Path x \<noteq> '''' \<and> af_Path x \<noteq> trailer \<and> length (af_Path x) + 1 < 2 ^ 32 \<and>
      length (af_Data x) < 2 ^ 32 \<and>
      (\<forall>d\<in>set (parentDirectories (af_Path x)). d \<noteq> '''' \<and> d \<noteq> trailer \<and> length d + 1 < 2 ^ 32))"

lemma set_newDirs: "set (newDirs seen ds) = set ds - set seen"
  by (induction ds arbitrary: seen) auto

lemma set_extraDirs:
  "fst ` set (extraDirs seen xs) = (\<Union>x\<in>set xs. set (parentDirectories (af_Path x))) - set seen"
  by (induction xs arbitrary: seen) (auto simp: Let_def set_newDirs image_Un image_image)

lemma archive_entries_encodable:
  assumes "archivable xs" and "length d < 2 ^ 32"
  shows "\<forall>e\<in>set (archive_entries t d xs). encodable e \<and> e_Name e \<noteq> trailer"
proof -
  have dirs: "d \<noteq> [] \<and> d \<noteq> trailer \<and> length d + 1 < 2 ^ 32" if "(d, u) \<in> set (archive_dirs xs)" for d u
  proof -
    have "d \<in> fst ` set (archive_dirs xs)" using that by force
    then obtain x where "x \<in> set xs" "d \<in> set (parentDirectories (af_Path x))"
      unfolding archive_dirs_def set_extraDirs by blast
    with assms(1) show ?thesis unfolding archivable_def by blast
  qed
  have init: "encodable (file_entry ''init'' 0x1ED t d)" using assms(2) by (intro encodable_file) auto
  have lit: "encodable (dir_entry n 0x1ED t)" if "n \<in> {''dev'', ''proc'', ''sys''}" for n
    using that by (intro encodable_dir) auto
  have dev: "encodable (char_entry ''dev/console'' 0x180 t 5 1)" "encodable (char_entry ''dev/null'' 0x1B6 t 1 3)"
    by (intro encodable_char; simp)+
  have ext: "encodable (file_entry (af_Path x) (af_Mode x) (af_ModTime x) (af_Data x)) \<and> af_Path x \<noteq> trailer"
    if "x \<in> set xs" for x
    using that assms(1) by (auto simp: archivable_def intro!: encodable_file)
  have tr: "trailer \<notin> {''dev'', ''proc'', ''sys'', ''dev/console'', ''dev/null'', ''init''}"
    by (simp add: trailer_def)
  have *: "e \<in> set (archive_entries t d xs) \<Longrightarrow> encodable e \<and> e_Name e \<noteq> trailer" for e
    using dirs ext init lit dev tr by (auto simp: archive_entries_def intro!: encodable_dir)
  then show ?thesis by blast
qed

lemma distinct_newDirs: "distinct (newDirs seen ds) \<and> set (newDirs seen ds) \<inter> set seen = {}"
  by (induction ds arbitrary: seen) (auto simp: set_newDirs)

lemma distinct_extraDirs: "distinct (map fst (extraDirs seen xs))"
proof (induction xs arbitrary: seen)
  case (Cons x xs)
  let ?ds = "newDirs seen (parentDirectories (af_Path x))"
  have "set (map fst (extraDirs (rev ?ds @ seen) xs)) \<inter> set ?ds = {}"
    using set_extraDirs [of "rev ?ds @ seen" xs] by auto
  then show ?case using Cons distinct_newDirs [of seen "parentDirectories (af_Path x)"]
    by (auto simp: Let_def comp_def)
qed simp

lemma Join_dot: "rel_parts cs \<Longrightarrow> Join ''/'' cs \<noteq> ''.''"
proof
  assume r: "rel_parts cs" and j: "Join ''/'' cs = ''.''"
  then have "cs \<noteq> []" by auto
  with r have "cs = Split slash (Join ''/'' cs)" by (subst Split_Join) (auto simp: rel_parts_def)
  with j have "cs = [''.'']" by simp
  with r show False by (simp add: rel_parts_def)
qed

lemma parentDirectories_rel:
  assumes "\<not> HasPrefix (TrimPrefix path ''/'') ''/''"
  defines "ds \<equiv> butlast (clean_parts (TrimPrefix path ''/''))"
  shows "parentDirectories path = map (\<lambda>i. Join ''/'' (take (Suc i) ds)) [0..<length ds]"
proof -
  let ?p = "TrimPrefix path ''/''" and ?cs = "clean_parts (TrimPrefix path ''/'')"
  have r: "rel_parts ?cs" using assms(1) by (rule rel_parts_clean)
  show ?thesis
  proof (cases "?cs = []")
    case True
    then have "Clean ?p = ''.''" using assms(1) by (simp add: Clean_def)
    with True show ?thesis by (simp add: parentDirectories_def ds_def)
  next
    case False
    have c: "Clean ?p = Join ''/'' ?cs" using assms(1) Join_eq_Nil [OF r] False by (simp add: Clean_def Let_def)
    have cs: "?cs = ds @ [last ?cs]" using False by (simp add: ds_def)
    have rd: "rel_parts ds" using r by (simp add: ds_def rel_parts_butlast)
    have dir: "Dir (Clean ?p) = (if ds = [] then ''.'' else Join ''/'' ds)"
      using Dir_Join [of ds "last ?cs"] cs c r by simp
    show ?thesis
    proof (cases "ds = []")
      case True
      with dir show ?thesis by (simp add: parentDirectories_def Let_def)
    next
      case ds: False
      have sp: "Split slash (Join ''/'' ds) = ds" using rd ds by (intro Split_Join) (auto simp: rel_parts_def)
      have "PathJoin (take (Suc i) ds) = Join ''/'' (take (Suc i) ds)" for i
        using ds rd by (intro PathJoin_rel rel_parts_take) auto
      with dir sp ds Join_dot [OF r] Join_dot [OF rd] c False Join_eq_Nil [OF r] show ?thesis
        by (simp add: parentDirectories_def Let_def)
    qed
  qed
qed

section \<open>Parents come first\<close>

definition entry_parent :: "string \<Rightarrow> string" where
  "entry_parent n = Dir (Clean (TrimPrefix n ''/''))"

fun parents_before :: "string list \<Rightarrow> string list \<Rightarrow> bool" where
  "parents_before seen [] = True"
| "parents_before seen (n # ns) =
     ((entry_parent n = ''.'' \<or> List.member seen (entry_parent n)) \<and> parents_before (n # seen) ns)"

lemma parents_before_append:
  "parents_before S (a @ b) \<longleftrightarrow> parents_before S a \<and> parents_before (rev a @ S) b"
  by (induction a arbitrary: S) auto

lemma parents_before_mono: "set S \<subseteq> set T \<Longrightarrow> parents_before S a \<Longrightarrow> parents_before T a"
proof (induction a arbitrary: S T)
  case (Cons n a)
  have "parents_before (n # T) a"
    using Cons.prems by (intro Cons.IH [of "n # S" "n # T"]) auto
  with Cons.prems show ?case by auto
qed simp

lemma parents_before_newDirs:
  "set S \<subseteq> set seen \<Longrightarrow> parents_before S ds \<Longrightarrow> parents_before seen (newDirs seen ds)"
proof (induction ds arbitrary: S seen)
  case (Cons d ds)
  show ?case
  proof (cases "d \<in> set seen")
    case True
    have "parents_before seen (newDirs seen ds)"
      using Cons.prems True by (intro Cons.IH [of "d # S" seen]) auto
    with True show ?thesis by simp
  next
    case False
    have "parents_before (d # seen) (newDirs (d # seen) ds)"
      using Cons.prems by (intro Cons.IH [of "d # S" "d # seen"]) auto
    with False Cons.prems show ?thesis by auto
  qed
qed simp

lemma entry_parent_Join:
  assumes "rel_parts (ds @ [d])"
  shows "entry_parent (Join ''/'' (ds @ [d])) = (if ds = [] then ''.'' else Join ''/'' ds)"
proof -
  have "TrimPrefix (Join ''/'' (ds @ [d])) ''/'' = Join ''/'' (ds @ [d])"
    using HasPrefix_Join_rel [OF assms] by (simp add: TrimPrefix_def)
  then show ?thesis using Clean_Join [OF assms] Dir_Join [OF assms] by (simp add: entry_parent_def)
qed

lemma parents_before_prefixes:
  assumes "rel_parts cs" and "n \<le> length cs"
  shows "parents_before [] (map (\<lambda>i. Join ''/'' (take (Suc i) cs)) [0..<n])"
  using assms(2)
proof (induction n)
  case (Suc n)
  have "rel_parts (take n cs @ [cs ! n])"
    using rel_parts_take [OF assms(1), of "Suc n"] Suc.prems by (simp add: take_Suc_conv_app_nth)
  from entry_parent_Join [OF this] Suc.prems
  have p: "entry_parent (Join ''/'' (take (Suc n) cs)) = (if n = 0 then ''.'' else Join ''/'' (take n cs))"
    by (auto simp: take_Suc_conv_app_nth)
  have "n \<noteq> 0 \<Longrightarrow> Join ''/'' (take n cs) \<in> (\<lambda>i. Join ''/'' (take (Suc i) cs)) ` {0..<n}"
    by (rule image_eqI [of _ _ "n - 1"]) auto
  with Suc p show ?case by (auto simp: parents_before_append)
qed simp

lemma parents_before_parentDirectories:
  assumes "\<not> HasPrefix (TrimPrefix path ''/'') ''/''"
  shows "parents_before [] (parentDirectories path)"
  unfolding parentDirectories_rel [OF assms]
  by (intro parents_before_prefixes rel_parts_butlast rel_parts_clean assms) simp

lemma entry_parent_in_parentDirectories:
  assumes "\<not> HasPrefix (TrimPrefix path ''/'') ''/''"
  shows "entry_parent path = ''.'' \<or> entry_parent path \<in> set (parentDirectories path)"
proof -
  let ?p = "TrimPrefix path ''/''"
  let ?cs = "clean_parts ?p"
  have r: "rel_parts ?cs" using assms by (rule rel_parts_clean)
  show ?thesis
  proof (cases "?cs = []")
    case True
    then have "Clean ?p = ''.''" using assms by (simp add: Clean_def)
    moreover have "Dir ''.'' = ''.''" by (rule Dir_single) simp
    ultimately show ?thesis by (simp add: entry_parent_def)
  next
    case False
    let ?ds = "butlast ?cs"
    have cs: "?cs = ?ds @ [last ?cs]" using False by simp
    have "Clean ?p = Join ''/'' ?cs" using assms Join_eq_Nil [OF r] False by (simp add: Clean_def Let_def)
    then have e: "entry_parent path = (if ?ds = [] then ''.'' else Join ''/'' ?ds)"
      using Dir_Join [of ?ds "last ?cs"] cs r by (simp add: entry_parent_def)
    have last: "xs \<noteq> [] \<Longrightarrow> Join ''/'' xs \<in> (\<lambda>i. Join ''/'' (take (Suc i) xs)) ` {0..<length xs}" for xs
      by (rule image_eqI [of _ _ "length xs - 1"]) auto
    from e last [of ?ds] show ?thesis unfolding parentDirectories_rel [OF assms] set_map set_upt by presburger
  qed
qed

lemma parents_before_extraDirs:
  assumes "\<forall>x\<in>set xs. \<not> HasPrefix (TrimPrefix (af_Path x) ''/'') ''/''"
  shows "parents_before seen (map fst (extraDirs seen xs))"
  using assms
proof (induction xs arbitrary: seen)
  case (Cons x xs)
  have "parents_before seen (newDirs seen (parentDirectories (af_Path x)))"
    using Cons.prems by (intro parents_before_newDirs [of "[]"] parents_before_parentDirectories) auto
  with Cons show ?case by (simp add: Let_def parents_before_append comp_def)
qed simp

lemma parents_before_all: "\<forall>n\<in>set ns. entry_parent n = ''.'' \<or> entry_parent n \<in> set S \<Longrightarrow> parents_before S ns"
proof (induction ns arbitrary: S)
  case (Cons n ns)
  have "parents_before (n # S) ns" using Cons.prems by (intro Cons.IH [of "n # S"]) auto
  with Cons.prems show ?case by auto
qed simp

lemma entry_parent_fixed:
  "entry_parent ''dev'' = ''.''" "entry_parent ''proc'' = ''.''" "entry_parent ''sys'' = ''.''"
  "entry_parent ''init'' = ''.''" "entry_parent ''dev/console'' = ''dev''" "entry_parent ''dev/null'' = ''dev''"
  by code_simp+


lemma writeArchive_parses:
  assumes sink: "io_sink (h_gzip_Write h) content" and empty: "content (h_gzip h w) = []"
    and close: "\<forall>z z'. h_gzip_Close h z = (z', None) \<longrightarrow> content z' = content z"
    and xs: "archivable xs" and d: "length d < 2 ^ 32"
    and ok: "writeArchive h w t d xs = (Some z, None)"
  shows "parseArchive (content z) = Inr (map view (archive_entries t d xs) @ [view trailer_entry])"
proof -
  from ok obtain B C where
      B: "add_all (h_gzip_Write h) (NewWriter (h_gzip h w)) (archive_entries t d xs) = (B, None)"
    and C: "CloseWriter (h_gzip_Write h) B = (C, None)" and z: "h_gzip_Close h (wr_w C) = (z, None)"
    by (auto simp: writeArchive_ok)
  have "content (wr_w C) = encode_all 1 (archive_entries t d xs @ [trailer_entry])"
    using io_sink.archive_ok [OF sink B C] empty by (simp add: NewWriter_def)
  with z close have "content z = encode_all 1 (archive_entries t d xs @ [trailer_entry])" by auto
  then show ?thesis using parseArchive_encode_all [OF archive_entries_encodable [OF xs d]] by simp
qed

lemma writeArchive_succeeds:
  assumes sink: "total_sink (h_gzip_Write h) content"
    and close: "\<forall>z. \<exists>z'. h_gzip_Close h z = (z', None)"
    and xs: "archivable xs" and d: "length d < 2 ^ 32"
  shows "\<exists>z. writeArchive h w t d xs = (Some z, None)"
proof -
  have "\<forall>e\<in>set (archive_entries t d xs). e_Name e \<noteq> []"
    using archive_entries_encodable [OF xs d] by (auto simp: encodable_def)
  moreover have "\<not> wr_closed (NewWriter (h_gzip h w))" by (simp add: NewWriter_def)
  ultimately show ?thesis
    using total_sink.archive_total [OF sink] close unfolding writeArchive_ok by metis
qed

section \<open>Reading the archive back\<close>

text \<open>
  Whatever gzip stream is used, as long as it keeps the bytes written to it, a
  \<^verbatim>\<open>writeArchive\<close> that reports no error has written an archive that reads back as the
  expected entries, in order: the three fixed directories, the parent directories of the
  extra files, the two devices, \<^verbatim>\<open>init\<close>, the extra files and the trailer.
\<close>

theorem writeArchive_contents:
  assumes "io_sink (h_gzip_Write h) content" and "content (h_gzip h w) = []"
    and "\<forall>z z'. h_gzip_Close h z = (z', None) \<longrightarrow> content z' = content z"
    and "archivable xs" and "length d < 2 ^ 32"
    and "writeArchive h w t d xs = (Some z, None)"
  shows "parseArchive (content z) = Inr (map view (archive_entries t d xs) @ [view trailer_entry])"
  using assms by (rule writeArchive_parses)

text \<open>
  On a stream that never fails, \<^verbatim>\<open>writeArchive\<close> succeeds for every list of extra files
  with non-empty paths of bounded size: it has no error of its own.
\<close>

theorem writeArchive_total:
  assumes "total_sink (h_gzip_Write h) content"
    and "\<forall>z. \<exists>z'. h_gzip_Close h z = (z', None)"
    and "archivable xs" and "length d < 2 ^ 32"
  shows "\<exists>z. writeArchive h w t d xs = (Some z, None)"
  using assms by (rule writeArchive_succeeds)

text \<open>A host whose files are a map and whose gzip stream is a buffer.\<close>

definition buffer_host :: "(string \<rightharpoonup> bytes) \<Rightarrow> (unit, bytes) host" where
  "buffer_host fs = \<lparr>h_ReadFile = (\<lambda>p. case fs p of None \<Rightarrow> Inl (errorf ''no such file'') | Some b \<Rightarrow> Inr b),
     h_Stat = (\<lambda>p. case fs p of None \<Rightarrow> Inl (errorf ''no such file'') | Some b \<Rightarrow> Inr \<lparr>hi_ModTime = 7, hi_Mode = 0x1ED\<rparr>),
     h_ZstdNewReader = Inr (), h_ZstdDecodeAll = (\<lambda>b. Inr b), h_MkdirAll = (\<lambda>p m. None),
     h_Create = (\<lambda>p. Inr ()), h_gzip = (\<lambda>_. []), h_gzip_Write = buffer_write, h_gzip_Close = (\<lambda>z. (z, None))\<rparr>"

definition sample_file :: archiveFile where
  "sample_file = \<lparr>af_Path = ''lib/modules/a.ko'', af_Data = ''ELF'', af_ModTime = 7, af_Mode = 0x1A4\<rparr>"

lemma sample_dirs: "parentDirectories ''lib/modules/a.ko'' = [''lib'', ''lib/modules'']"
  by code_simp

lemma archivable_sample: "archivable [sample_file]"
  by (simp add: archivable_def sample_file_def sample_dirs trailer_def)

lemma buffer_host_succeeds:
  "archivable xs \<Longrightarrow> length d < 2 ^ 32 \<Longrightarrow> \<exists>z. writeArchive (buffer_host fs) () t d xs = (Some z, None)"
  by (rule writeArchive_succeeds [where content = "\<lambda>s. s"])
     (simp_all add: buffer_host_def buffer.total_sink_axioms)

theorem writeArchive_total_witness:
  "\<exists>z. writeArchive (buffer_host Map.empty) () 7 ''init'' [sample_file] = (Some z, None)"
  by (rule writeArchive_total [where content = "\<lambda>s. s"])
     (simp_all add: buffer_host_def buffer.total_sink_axioms archivable_sample)

theorem writeArchive_contents_witness:
  "\<exists>z. writeArchive (buffer_host Map.empty) () 7 ''init'' [sample_file] = (Some z, None) \<and>
     parseArchive z = Inr (map view (archive_entries 7 ''init'' [sample_file]) @ [view trailer_entry])"
proof -
  obtain z where z: "writeArchive (buffer_host Map.empty) () 7 ''init'' [sample_file] = (Some z, None)"
    using buffer_host_succeeds [OF archivable_sample, of "''init''"] by auto
  show ?thesis
    using writeArchive_contents [where content = "\<lambda>s. s", OF _ _ _ archivable_sample _ z] z
    by (auto simp: buffer_host_def buffer.io_sink_axioms)
qed


text \<open>
  \<^verbatim>\<open>parseModuleSpec\<close> accepts exactly the texts \<^verbatim>\<open>guest=host\<close> with both sides non-empty,
  split at the first equals sign, and returns the two sides.
\<close>

theorem parseModuleSpec_iff:
  "parseModuleSpec spec = Inr (g, p) \<longleftrightarrow>
     spec = g @ ''='' @ p \<and> CHR ''='' \<notin> set g \<and> g \<noteq> '''' \<and> p \<noteq> ''''"
proof (cases rule: SplitN2_cases [of "CHR ''=''" spec])
  case one
  then show ?thesis by (auto simp: parseModuleSpec_def)
next
  case (two a b)
  have "a @ CHR ''='' # b = g @ CHR ''='' # p \<Longrightarrow> CHR ''='' \<notin> set g \<Longrightarrow> a = g \<and> b = p"
    using SplitN2_append [OF two(2), of b] SplitN2_append [of "CHR ''=''" g p] by (metis list.inject)
  moreover have "parseModuleSpec spec = Inr (g, p) \<longleftrightarrow> a \<noteq> [] \<and> b \<noteq> [] \<and> a = g \<and> b = p"
    unfolding parseModuleSpec_def two(3) Let_def by simp
  ultimately show ?thesis using two(1,2) by (simp only: append_Cons append_Nil) blast
qed

lemma mapR_Inr: "mapR f xs = Inr ys \<longleftrightarrow> list_all2 (\<lambda>x y. f x = Inr y) xs ys"
  by (induction xs arbitrary: ys) (auto simp: bindR_Inr list_all2_Cons1)

lemma readFile_Inr:
  "readFile h s = Inr x \<Longrightarrow> parseModuleSpec s = Inr (g, p) \<Longrightarrow>
     af_Path x = TrimPrefix g ''/'' \<and> h_ReadFile h p = Inr (af_Data x)"
  by (auto simp: readFile_def bindR_Inr)

lemma readExtraFiles_file:
  assumes "readExtraFiles h ms fs = Inr xs" and "s \<in> set fs"
  shows "\<exists>x\<in>set xs. readFile h s = Inr x"
proof -
  from assms obtain ys zs where xs: "xs = ys @ zs" and "mapR (readFile h) fs = Inr zs"
    by (auto simp: readExtraFiles_def bindR_Inr split: if_splits)
  then have "list_all2 (\<lambda>s x. readFile h s = Inr x) fs zs" by (simp add: mapR_Inr)
  with assms(2) xs show ?thesis by (fastforce simp: list_all2_conv_all_nth in_set_conv_nth)
qed

lemma readModule_Inr:
  "readModule h s = Inr x \<Longrightarrow> parseModuleSpec s = Inr (g, p) \<Longrightarrow>
     af_Path x = TrimPrefix g ''/'' \<and> readModuleData h p = Inr (af_Data x)"
  by (auto simp: readModule_def bindR_Inr)

lemma readExtraFiles_module:
  assumes "readExtraFiles h ms fs = Inr xs" and "s \<in> set ms"
  shows "\<exists>x\<in>set xs. readModule h s = Inr x"
proof -
  from assms obtain ys zs where xs: "xs = ys @ zs" and "mapR (readModule h) ms = Inr ys"
    by (auto simp: readExtraFiles_def bindR_Inr split: if_splits)
  then have "list_all2 (\<lambda>s x. readModule h s = Inr x) ms ys" by (simp add: mapR_Inr)
  with assms(2) xs show ?thesis by (fastforce simp: list_all2_conv_all_nth in_set_conv_nth)
qed

lemma expandFileSpecs_inline: "expandFileSpecs h inl sets = Inr specs \<Longrightarrow> set inl \<subseteq> set specs"
  by (auto simp: expandFileSpecs_def bindR_Inr)

lemma run_ok:
  assumes "run h ip out ms fs sets = (Some z, None)"
  shows "\<exists>d (info :: host_info) specs xs f. h_ReadFile h ip = Inr d \<and> expandFileSpecs h fs sets = Inr specs
    \<and> readExtraFiles h ms specs = Inr xs \<and> writeArchive h f (hi_ModTime info) d xs = (Some z, None)"
  using assms unfolding run_def
  by (clarsimp simp: bindR_Inr split: if_splits sum.splits option.splits) blast

lemma readFile_in_archive:
  "x \<in> set xs \<Longrightarrow> \<exists>e\<in>set (map view (archive_entries t d xs)). p_Name e = af_Path x \<and> p_Data e = af_Data x"
proof (rule bexI [of _ "view (file_entry (af_Path x) (af_Mode x) (af_ModTime x) (af_Data x))"])
  show "p_Name (view (file_entry (af_Path x) (af_Mode x) (af_ModTime x) (af_Data x))) = af_Path x \<and>
      p_Data (view (file_entry (af_Path x) (af_Mode x) (af_ModTime x) (af_Data x))) = af_Data x"
    by (simp add: view_def file_entry_def)
qed (auto simp: archive_entries_def)

lemma init_in_archive: "\<exists>e\<in>set (map view (archive_entries t d xs)). p_Name e = ''init'' \<and> p_Data e = d"
proof (rule bexI [of _ "view (file_entry ''init'' 0x1ED t d)"])
  show "p_Name (view (file_entry ''init'' 0x1ED t d)) = ''init'' \<and> p_Data (view (file_entry ''init'' 0x1ED t d)) = d"
    by (simp add: view_def file_entry_def)
qed (auto simp: archive_entries_def)

lemma run_archives:
  assumes sink: "io_sink (h_gzip_Write h) content" and empty: "\<forall>w. content (h_gzip h w) = []"
    and close: "\<forall>z z'. h_gzip_Close h z = (z', None) \<longrightarrow> content z' = content z"
    and specs: "expandFileSpecs h fs sets = Inr specs" and xs: "readExtraFiles h ms specs = Inr xs" "archivable xs"
    and d: "h_ReadFile h ip = Inr d" "length d < 2 ^ 32"
    and ok: "run h ip out ms fs sets = (Some z, None)"
  shows "\<exists>t. parseArchive (content z) = Inr (map view (archive_entries t d xs) @ [view trailer_entry])"
proof -
  from run_ok [OF ok] specs xs(1) d(1) obtain info :: host_info and f
    where w: "writeArchive h f (hi_ModTime info) d xs = (Some z, None)" by auto
  from writeArchive_parses [OF sink _ close xs(2) d(2) w] empty show ?thesis by blast
qed

lemma run_None: "run h ip out ms fs sets = (r, None) \<Longrightarrow> \<exists>z. r = Some z"
  by (auto simp: run_def writeArchive_def NewWriterLevel_def split: if_splits sum.splits prod.splits option.splits)

end
