(* ===== verification/Sys.thy ===== *)
theory Sys
  imports Prelude
begin

text \<open>
  The operating system as the guest runtime sees it. Every call the program makes to the
  kernel, to a device or to a network library is an event; the world is the list of events
  so far, oldest first. What a call returns is given by an oracle, a function of the events
  before it and of its arguments, so that any behaviour of the environment is an oracle and
  theorems that quantify over it hold for all of them. An operation is a function from the
  world to its result and the world after it.

  The file system, the clock and the libraries (\<^verbatim>\<open>netlink\<close>, \<^verbatim>\<open>dhcpv4\<close>) are not code of the
  repository: they are the fields of the records \<open>os\<close> and \<open>netlib\<close>.
\<close>

section \<open>Events\<close>

type_synonym ip = bytes
type_synonym ipmask = bytes
type_synonym hwaddr = bytes

record DHCPv4 =
  dh_OpCode :: nat
  dh_HWType :: nat
  dh_ClientHWAddr :: hwaddr
  dh_HopCount :: nat
  dh_TransactionID :: bytes
  dh_NumSeconds :: nat
  dh_Flags :: nat
  dh_ClientIPAddr :: ip
  dh_YourIPAddr :: ip
  dh_ServerIPAddr :: ip
  dh_GatewayIPAddr :: ip
  dh_Options :: "(nat \<times> bytes) list"

datatype syscall =
    MkdirAll string file_mode
  | Mount string string string nat string
  | Stat string
  | Chmod string file_mode
  | ReadFile string
  | WriteFile string bytes file_mode
  | Remove string
  | CreateTemp string string
  | TempChmod string file_mode
  | TempWrite string bytes
  | TempSync string
  | TempClose string
  | Rename string string
  | OpenFile string
  | SyncFile string
  | CloseFile string
  | FinitModule string string nat
  | Now
  | Sleep int
  | LinkList
  | LinkSetUp string
  | LinkByName string
  | NewRawUDPConn string nat
  | NewWithConn string hwaddr int int
  | SendAndRead DHCPv4
  | CloseClient
  | AddrList string
  | RouteList string
  | AddrReplace string string
  | RouteReplace nat ip
  | KeygenNew string
  | ServeHTTP string

type_synonym world = "syscall list"
type_synonym 'a io = "world \<Rightarrow> 'a \<times> world"

section \<open>Oracles\<close>

record fstat =
  st_dir :: bool
  st_device :: bool
  st_size :: int

record os =
  os_MkdirAll :: "world \<Rightarrow> string \<Rightarrow> file_mode \<Rightarrow> go_error option"
  os_Mount :: "world \<Rightarrow> string \<Rightarrow> string \<Rightarrow> string \<Rightarrow> nat \<Rightarrow> string \<Rightarrow> go_error option"
  os_Stat :: "world \<Rightarrow> string \<Rightarrow> fstat result"
  os_Chmod :: "world \<Rightarrow> string \<Rightarrow> file_mode \<Rightarrow> go_error option"
  os_ReadFile :: "world \<Rightarrow> string \<Rightarrow> bytes result"
  os_WriteFile :: "world \<Rightarrow> string \<Rightarrow> bytes \<Rightarrow> file_mode \<Rightarrow> go_error option"
  os_Open :: "world \<Rightarrow> string \<Rightarrow> go_error option"
  os_FinitModule :: "world \<Rightarrow> string \<Rightarrow> string \<Rightarrow> nat \<Rightarrow> go_error option"
  os_Now :: "world \<Rightarrow> int"
  os_ParseDuration :: "string \<Rightarrow> int option"

text \<open>
  The calls: the oracle's answer and the event recorded. \<^verbatim>\<open>time.ParseDuration\<close> is an
  oracle because its fractions are computed in floating point.
\<close>

definition mkdirAll :: "os \<Rightarrow> string \<Rightarrow> file_mode \<Rightarrow> (go_error option) io" where
  "mkdirAll os p m w = (os_MkdirAll os w p m, w @ [MkdirAll p m])"

definition mount :: "os \<Rightarrow> string \<Rightarrow> string \<Rightarrow> string \<Rightarrow> nat \<Rightarrow> string \<Rightarrow> (go_error option) io" where
  "mount os src tgt fs fl d w = (os_Mount os w src tgt fs fl d, w @ [Mount src tgt fs fl d])"

definition stat :: "os \<Rightarrow> string \<Rightarrow> (fstat result) io" where
  "stat os p w = (os_Stat os w p, w @ [Stat p])"

definition chmod :: "os \<Rightarrow> string \<Rightarrow> file_mode \<Rightarrow> (go_error option) io" where
  "chmod os p m w = (os_Chmod os w p m, w @ [Chmod p m])"

definition readFile :: "os \<Rightarrow> string \<Rightarrow> (bytes result) io" where
  "readFile os p w = (os_ReadFile os w p, w @ [ReadFile p])"

definition writeFile :: "os \<Rightarrow> string \<Rightarrow> bytes \<Rightarrow> file_mode \<Rightarrow> (go_error option) io" where
  "writeFile os p b m w = (os_WriteFile os w p b m, w @ [WriteFile p b m])"

definition openFile :: "os \<Rightarrow> string \<Rightarrow> (go_error option) io" where
  "openFile os p w = (os_Open os w p, w @ [OpenFile p])"

definition closeFile :: "string \<Rightarrow> unit io" where
  "closeFile p w = ((), w @ [CloseFile p])"

definition finitModule :: "os \<Rightarrow> string \<Rightarrow> string \<Rightarrow> nat \<Rightarrow> (go_error option) io" where
  "finitModule os p a f w = (os_FinitModule os w p a f, w @ [FinitModule p a f])"

definition now :: "os \<Rightarrow> int io" where
  "now os w = (os_Now os w, w @ [Now])"

definition sleep :: "int \<Rightarrow> unit io" where
  "sleep d w = ((), w @ [Sleep d])"

lemmas call_defs = mkdirAll_def mount_def stat_def chmod_def readFile_def writeFile_def
  openFile_def closeFile_def finitModule_def now_def sleep_def

section \<open>What a call leaves behind\<close>

text \<open>An operation only adds events: the world after it extends the world before it.\<close>

definition extends :: "world \<Rightarrow> world \<Rightarrow> bool" where
  "extends w w' = prefix w w'"

lemma extends_refl [simp, intro]: "extends w w"
  by (simp add: extends_def)

lemma extends_append [simp, intro]: "extends w (w @ es)"
  by (simp add: extends_def)

lemma extends_trans [trans]: "extends a b \<Longrightarrow> extends b c \<Longrightarrow> extends a c"
  by (auto simp: extends_def)

text \<open>
  The clock: it never runs backwards, and \<^verbatim>\<open>time.Sleep(d)\<close> lets at least \<open>d\<close> pass.
  Loops with a deadline end because of the second.
\<close>

definition clock_ok :: "os \<Rightarrow> bool" where
  "clock_ok os = ((\<forall>w e. os_Now os w \<le> os_Now os (w @ [e])) \<and>
     (\<forall>w d. os_Now os w + d \<le> os_Now os (w @ [Sleep d])))"

lemma clock_mono: "clock_ok os \<Longrightarrow> extends w w' \<Longrightarrow> os_Now os w \<le> os_Now os w'"
proof -
  assume c: "clock_ok os" and "extends w w'"
  then obtain es where "w' = w @ es" by (auto simp: extends_def prefix_def)
  moreover have "os_Now os w \<le> os_Now os (w @ es)"
  proof (induction es rule: rev_induct)
    case (snoc e es)
    have "os_Now os (w @ es) \<le> os_Now os ((w @ es) @ [e])" using c unfolding clock_ok_def by blast
    with snoc show ?case by simp
  qed simp
  ultimately show ?thesis by simp
qed

lemma clock_sleep: "clock_ok os \<Longrightarrow> os_Now os w + d \<le> os_Now os (w @ [Sleep d])"
  by (simp add: clock_ok_def)

section \<open>A concrete machine\<close>

text \<open>
  An instance of the oracles for concrete runs: time advances by the sleeps, every call
  succeeds and every path is a device.
\<close>

definition tick :: "syscall \<Rightarrow> int" where
  "tick e = (case e of Sleep d \<Rightarrow> max d 0 | _ \<Rightarrow> 0)"

definition good_os :: os where
  "good_os = \<lparr>os_MkdirAll = \<lambda>_ _ _. None, os_Mount = \<lambda>_ _ _ _ _ _. None,
     os_Stat = \<lambda>_ _. Inr \<lparr>st_dir = False, st_device = True, st_size = 0\<rparr>,
     os_Chmod = \<lambda>_ _ _. None, os_ReadFile = \<lambda>_ _. Inr [], os_WriteFile = \<lambda>_ _ _ _. None,
     os_Open = \<lambda>_ _. None, os_FinitModule = \<lambda>_ _ _ _. None,
     os_Now = \<lambda>w. sum_list (map tick w), os_ParseDuration = \<lambda>_. None\<rparr>"

lemma good_os_clock: "clock_ok good_os"
  by (simp add: clock_ok_def good_os_def tick_def split: syscall.split)

end
