(* ===== verification/Sqlite.thy ===== *)
theory Sqlite
  imports Sys
begin

text \<open>
  The third-party database engine and the text form of times, as the two stores use them:
  records of functions over a state of the database that is left open. A row is the id and the four
  text columns of the message board; \<^verbatim>\<open>Exec\<close> returns an error, or what
  \<^verbatim>\<open>LastInsertId\<close> returns. What the stores rely on of the engine is stated with them.
\<close>

type_synonym row = "int \<times> string \<times> string \<times> string \<times> string"

record 'd sqlite_lib =
  sq_Open :: "'d \<Rightarrow> string \<Rightarrow> go_error option \<times> 'd"
  sq_Close :: "'d \<Rightarrow> go_error option \<times> 'd"
  sq_Exec :: "'d \<Rightarrow> string \<Rightarrow> string list \<Rightarrow> (int result) result \<times> 'd"
  sq_Query :: "'d \<Rightarrow> string \<Rightarrow> ((row result) list \<times> go_error option) result"
  sq_QueryInt :: "'d \<Rightarrow> string \<Rightarrow> int result"

record time_lib =
  tm_Format :: "int \<Rightarrow> string"
  tm_Parse :: "string \<Rightarrow> int result"

definition LF :: string where "LF = [CHR 0x0A]"

definition TAB :: string where "TAB = [CHR 0x09]"

end
