(* ===== verification/LogStore.thy ===== *)
theory LogStore
  imports Sqlite
begin

text \<open>
  The package \<^verbatim>\<open>internal/logstore\<close> and \<^verbatim>\<open>run\<close> of \<^verbatim>\<open>cmd/importqemulogs\<close>: log lines in a SQLite
  table. A pointer to the store is an option, \<^verbatim>\<open>nil\<close> being \<^const>\<open>None\<close>. The JSON codec is a
  parameter. Methods hold their mutexes for their whole body, so they are atomic here.
\<close>

section \<open>Data\<close>

datatype json = JNull | JBool bool | JNumber string | JString string | JArray "json list"
  | JObject "(string \<times> json) list"

record json_lib =
  js_Unmarshal :: "string \<Rightarrow> ((string \<rightharpoonup> json) option) result"
  js_Marshal :: "(string \<rightharpoonup> json) \<Rightarrow> string result"

record log_Store =
  lg_path :: string
  lg_lastError :: string

record log_Snapshot =
  sn_Path :: string
  sn_Exists :: bool
  sn_Rows :: int
  sn_LastError :: string

record log_entry =
  le_Timestamp :: string
  le_Source :: string
  le_Level :: string
  le_Component :: string
  le_Message :: string
  le_PayloadJSON :: string

record log_writer =
  wr_source :: string
  wr_buf :: bytes

text \<open>The libraries a store uses, and the state it works on.\<close>

record 'd log_env =
  le_os :: os
  le_sq :: "'d sqlite_lib"
  le_tm :: time_lib
  le_js :: json_lib

type_synonym 'd log_state = "world \<times> 'd \<times> log_Store option"

definition countLogsSQL :: string where
  "countLogsSQL = ''SELECT COUNT('' @ ''*'' @ '') FROM logs''"

definition insertLogSQL :: string where
  "insertLogSQL = LF @ ''INSERT INTO logs(ts_rfc3339, source, level, component, message, payload_json)'' @ LF @
     ''VALUES(?, ?, ?, ?, ?, ?)'' @ LF"

definition log_statements :: "string list" where
  "log_statements =
     [''PRAGMA busy_timeout = 5000;'', ''PRAGMA foreign_keys = ON;'', ''PRAGMA journal_mode = WAL;'',
      LF @ ''CREATE TABLE IF NOT EXISTS logs ('' @ LF @
        TAB @ ''id INTEGER PRIMARY KEY AUTOINCREMENT,'' @ LF @
        TAB @ ''ts_rfc3339 TEXT NOT NULL,'' @ LF @ TAB @ ''source TEXT NOT NULL,'' @ LF @
        TAB @ ''level TEXT NOT NULL,'' @ LF @ TAB @ ''component TEXT NOT NULL DEFAULT '' @ [CHR 0x27, CHR 0x27] @ '','' @ LF @
        TAB @ ''message TEXT NOT NULL,'' @ LF @ TAB @ ''payload_json TEXT NOT NULL DEFAULT '' @ [CHR 0x27] @ ''{}'' @ [CHR 0x27] @ LF @
        '');'' @ LF,
      ''CREATE INDEX IF NOT EXISTS idx_logs_ts ON logs(id DESC);'']"

section \<open>Operations\<close>

fun execLogStatements :: "'d sqlite_lib \<Rightarrow> string list \<Rightarrow> 'd \<Rightarrow> go_error option \<times> 'd" where
  "execLogStatements sq [] d = (None, d)"
| "execLogStatements sq (st # sts) d =
     (case sq_Exec sq d st [] of
        (Inl e, d) \<Rightarrow> (Some (wrap ''initialize log store: '' e), d)
      | (Inr _, d) \<Rightarrow> execLogStatements sq sts d)"

definition initLog :: "'d sqlite_lib \<Rightarrow> log_Store option \<Rightarrow> 'd \<Rightarrow> go_error option \<times> 'd" where
  "initLog sq s d = (case s of None \<Rightarrow> (None, d) | Some _ \<Rightarrow> execLogStatements sq log_statements d)"

definition log_dsn :: "string \<Rightarrow> string" where
  "log_dsn path = ''file:'' @ path @ ''?_journal_mode=WAL&_busy_timeout=5000&_foreign_keys=on''"

definition OpenLog :: "'d log_env \<Rightarrow> string \<Rightarrow> world \<times> 'd \<Rightarrow> log_Store result \<times> world \<times> 'd" where
  "OpenLog env path s =
     (case s of (w, d) \<Rightarrow>
        if TrimSpace path = '''' then (Inl (errorf ''log store path is empty''), w, d)
        else (case mkdirAll (le_os env) (Dir path) 0x1ED w of
                (Some e, w) \<Rightarrow> (Inl (wrap ''create log db dir: '' e), w, d)
              | (None, w) \<Rightarrow>
                  (case sq_Open (le_sq env) d (log_dsn path) of
                     (Some e, d) \<Rightarrow> (Inl (wrap ''open log store: '' e), w, d)
                   | (None, d) \<Rightarrow>
                       (let store = \<lparr>lg_path = path, lg_lastError = ''''\<rparr>
                        in case initLog (le_sq env) (Some store) d of
                             (Some e, d) \<Rightarrow> (Inl e, w, snd (sq_Close (le_sq env) d))
                           | (None, d) \<Rightarrow> (Inr store, w, d)))))"

definition CloseLog :: "'d sqlite_lib \<Rightarrow> log_Store option \<Rightarrow> 'd \<Rightarrow> go_error option \<times> 'd" where
  "CloseLog sq s d = (case s of None \<Rightarrow> (None, d) | Some _ \<Rightarrow> sq_Close sq d)"

definition LogWriter :: "string \<Rightarrow> log_writer" where
  "LogWriter source = \<lparr>wr_source = TrimSpace source, wr_buf = []\<rparr>"

text \<open>\<^const>\<open>None\<close> is the panic on a nil store: the fields are read before the nil check.\<close>

definition Snapshot :: "'d log_env \<Rightarrow> 'd log_state \<Rightarrow> ((log_Snapshot \<times> go_error option) \<times> 'd log_state) option" where
  "Snapshot env st =
     (case st of
        (w, d, None) \<Rightarrow> None
      | (w, d, Some s) \<Rightarrow>
          (let snapshot = \<lparr>sn_Path = lg_path s, sn_Exists = False, sn_Rows = 0, sn_LastError = lg_lastError s\<rparr>
           in case stat (le_os env) (lg_path s) w of (i, w) \<Rightarrow>
             (let snapshot = (case i of Inl _ \<Rightarrow> snapshot
                 | Inr info \<Rightarrow> if \<not> st_dir info then snapshot\<lparr>sn_Exists := True\<rparr> else snapshot)
              in case sq_QueryInt (le_sq env) d countLogsSQL of
                   Inl e \<Rightarrow> Some ((snapshot, Some (wrap ''count log rows: '' e)), w, d, Some s)
                 | Inr n \<Rightarrow> Some ((snapshot\<lparr>sn_Rows := n\<rparr>, None), w, d, Some s))))"

definition parseJSON :: "json_lib \<Rightarrow> string \<Rightarrow> (string \<rightharpoonup> json) option" where
  "parseJSON js raw = (case js_Unmarshal js raw of Inl _ \<Rightarrow> None | Inr payload \<Rightarrow> payload)"

text \<open>\<^verbatim>\<open>v, ok := decoded[key].(string); ok && strings.TrimSpace(v) != ""\<close>, trimmed.\<close>

definition stringField :: "(string \<rightharpoonup> json) \<Rightarrow> string \<Rightarrow> string option" where
  "stringField m key =
     (case m key of Some (JString v) \<Rightarrow> if TrimSpace v \<noteq> '''' then Some (TrimSpace v) else None | _ \<Rightarrow> None)"

definition withFields :: "(string \<rightharpoonup> json) \<Rightarrow> log_entry \<Rightarrow> log_entry" where
  "withFields decoded result =
     (let result = (case stringField decoded ''level'' of None \<Rightarrow> result | Some v \<Rightarrow> result\<lparr>le_Level := v\<rparr>);
          result = (case stringField decoded ''component'' of None \<Rightarrow> result | Some v \<Rightarrow> result\<lparr>le_Component := v\<rparr>);
          result = (case stringField decoded ''message'' of None \<Rightarrow> result | Some v \<Rightarrow> result\<lparr>le_Message := v\<rparr>);
          result = (case stringField decoded ''time'' of None \<Rightarrow> result | Some v \<Rightarrow> result\<lparr>le_Timestamp := v\<rparr>)
      in result)"

definition emptyPayload :: string where
  "emptyPayload = [CHR ''{'', CHR 0x22] @ ''raw'' @ [CHR 0x22, CHR '':'', CHR 0x22, CHR 0x22, CHR ''}'']"

definition parseLine :: "'d log_env \<Rightarrow> string \<Rightarrow> string \<Rightarrow> log_entry io" where
  "parseLine env source raw w =
     (let source = (if source = '''' then ''guest'' else source)
      in case now (le_os env) w of (t, w) \<Rightarrow>
        (let result = \<lparr>le_Timestamp = tm_Format (le_tm env) t, le_Source = source, le_Level = ''info'',
               le_Component = '''', le_Message = raw, le_PayloadJSON = emptyPayload\<rparr>;
             (payload, result) =
               (case parseJSON (le_js env) raw of
                  None \<Rightarrow> ([''raw'' \<mapsto> JString raw], result)
                | Some decoded \<Rightarrow> (decoded, withFields decoded result));
             result = (case js_Marshal (le_js env) payload of Inl _ \<Rightarrow> result | Inr m \<Rightarrow> result\<lparr>le_PayloadJSON := m\<rparr>)
         in (result, w)))"

definition entry_args :: "log_entry \<Rightarrow> string list" where
  "entry_args e = [le_Timestamp e, le_Source e, le_Level e, le_Component e, le_Message e, le_PayloadJSON e]"

definition Insert :: "'d log_env \<Rightarrow> string \<Rightarrow> string \<Rightarrow> 'd log_state \<Rightarrow> go_error option \<times> 'd log_state" where
  "Insert env source raw st =
     (case st of
        (w, d, None) \<Rightarrow> (None, st)
      | (w, d, Some s) \<Rightarrow>
          (let raw = TrimSpace raw
           in if raw = '''' then (None, st)
              else (case parseLine env (TrimSpace source) raw w of (entry, w) \<Rightarrow>
                (case sq_Exec (le_sq env) d insertLogSQL (entry_args entry) of
                   (Inl e, d) \<Rightarrow> (Some e, w, d, Some (s\<lparr>lg_lastError := err_text e\<rparr>))
                 | (Inr _, d) \<Rightarrow> (None, w, d, Some (s\<lparr>lg_lastError := ''''\<rparr>))))))"

fun IndexByte :: "bytes \<Rightarrow> char \<Rightarrow> nat option" where
  "IndexByte [] c = None"
| "IndexByte (b # bs) c = (if b = c then Some 0 else map_option Suc (IndexByte bs c))"

lemma IndexByte_Some: "IndexByte bs c = Some i \<Longrightarrow> i < length bs \<and> bs ! i = c \<and> c \<notin> set (take i bs)"
  by (induction bs arbitrary: i) (auto split: if_splits)

function drain :: "(string \<Rightarrow> 's \<Rightarrow> 's) \<Rightarrow> bytes \<Rightarrow> 's \<Rightarrow> bytes \<times> 's" where
  "drain ins buf s =
     (case IndexByte buf (CHR 0x0A) of
        None \<Rightarrow> (buf, s)
      | Some idx \<Rightarrow> drain ins (drop (idx + 1) buf) (ins (TrimSpace (take idx buf)) s))"
  by auto
termination
  by (relation "measure (\<lambda>(_, buf, _). length buf)") (auto dest!: IndexByte_Some)

declare drain.simps [simp del]

text \<open>A writer is nil or belongs to a store; errors of \<^verbatim>\<open>Insert\<close> are dropped.\<close>

definition insertLine :: "'d log_env \<Rightarrow> string \<Rightarrow> string \<Rightarrow> 'd log_state \<Rightarrow> 'd log_state" where
  "insertLine env source line st = snd (Insert env source line st)"

definition WriteLog ::
  "'d log_env \<Rightarrow> bytes \<Rightarrow> log_writer option \<Rightarrow> 'd log_state \<Rightarrow> (nat \<times> go_error option) \<times> log_writer option \<times> 'd log_state" where
  "WriteLog env p wr st =
     (case (wr, st) of
        (Some v, (w, d, Some s)) \<Rightarrow>
          (case drain (insertLine env (wr_source v)) (wr_buf v @ p) st of (rest, st) \<Rightarrow>
             ((length p, None), Some (v\<lparr>wr_buf := rest\<rparr>), st))
      | _ \<Rightarrow> ((length p, None), wr, st))"

section \<open>The import command\<close>

text \<open>
  \<^verbatim>\<open>bufio.Scanner\<close> with \<^verbatim>\<open>ScanLines\<close>: the lines of what was read, without line end, a last line
  without one included; a line of 64 KiB or more ends the scan with an error.
\<close>

definition maxTokenSize :: nat where "maxTokenSize = 64 * 1024"

definition dropCR :: "bytes \<Rightarrow> bytes" where
  "dropCR l = (if l \<noteq> [] \<and> last l = CHR 0x0D then butlast l else l)"

definition ErrTooLong :: go_error where
  "ErrTooLong = errorf ''bufio.Scanner: token too long''"

fun scanTokens :: "go_error option \<Rightarrow> bytes list \<Rightarrow> bytes list \<times> go_error option" where
  "scanTokens err [] = ([], err)"
| "scanTokens err [l] =
     (if l = [] then ([], err) else if maxTokenSize \<le> length l then ([], Some ErrTooLong) else ([dropCR l], err))"
| "scanTokens err (l # ls) =
     (if maxTokenSize \<le> length l then ([], Some ErrTooLong)
      else case scanTokens err ls of (ts, e) \<Rightarrow> (dropCR l # ts, e))"

definition scanLines :: "bytes \<times> go_error option \<Rightarrow> bytes list \<times> go_error option" where
  "scanLines input = scanTokens (snd input) (Split (CHR 0x0A) (fst input))"

fun importLines ::
  "'d log_env \<Rightarrow> string \<Rightarrow> bytes list \<Rightarrow> go_error option \<Rightarrow> 'd log_state \<Rightarrow> go_error option \<times> 'd log_state" where
  "importLines env source [] err st = (map_option (wrap ''scan input log: '') err, st)"
| "importLines env source (t # ts) err st =
     (let line = TrimSpace t
      in if line = '''' then importLines env source ts err st
         else case Insert env source line st of
                (Some e, st) \<Rightarrow> (Some (wrap ''insert log line: '' e), st)
              | (None, st) \<Rightarrow> importLines env source ts err st)"

text \<open>\<open>contents\<close> is what the input file yields: the bytes read, and the error that ended the reading if any.\<close>

definition importqemulogs_run ::
  "'d log_env \<Rightarrow> (world \<Rightarrow> string \<Rightarrow> bytes \<times> go_error option) \<Rightarrow> string \<Rightarrow> string \<Rightarrow> string \<Rightarrow>
   world \<times> 'd \<Rightarrow> go_error option \<times> world \<times> 'd" where
  "importqemulogs_run env contents inputPath dbPath source s =
     (case s of (w, d) \<Rightarrow>
        if TrimSpace inputPath = '''' then (Some (errorf ''-input is required''), w, d)
        else if TrimSpace dbPath = '''' then (Some (errorf ''-db is required''), w, d)
        else (case openFile (le_os env) inputPath w of
                (Some e, w) \<Rightarrow> (Some (wrap (''open input log '' @ inputPath @ '': '') e), w, d)
              | (None, w) \<Rightarrow>
                  (case OpenLog env dbPath (w, d) of
                     (Inl e, w, d) \<Rightarrow>
                       (case closeFile inputPath w of (_, w) \<Rightarrow>
                         (Some (wrap (''open output db '' @ dbPath @ '': '') e), w, d))
                   | (Inr store, w, d) \<Rightarrow>
                       (case scanLines (contents w inputPath) of (ts, err) \<Rightarrow>
                         (case importLines env source ts err (w, d, Some store) of (r, w, d, s) \<Rightarrow>
                           (case closeFile inputPath w of (_, w) \<Rightarrow>
                             (r, w, snd (CloseLog (le_sq env) s d))))))))"

section \<open>Lines\<close>

lemma IndexByte_None: "IndexByte bs c = None \<longleftrightarrow> c \<notin> set bs"
  by (induction bs) auto

lemma Split_IndexByte:
  assumes "IndexByte bs c = Some i"
  shows "Split c bs = take i bs # Split c (drop (i + 1) bs)"
proof -
  have "bs = take i bs @ c # drop (i + 1) bs" using IndexByte_Some [OF assms] id_take_nth_drop [of i bs] by simp
  then show ?thesis using Split_append [of c "take i bs" "drop (i + 1) bs"] IndexByte_Some [OF assms] by simp
qed

lemma Split_join: "Split c (a @ b) = butlast (Split c a) @ [last (Split c a) @ hd (Split c b)] @ tl (Split c b)"
proof (induction a)
  case Nil
  then show ?case by simp
next
  case (Cons x a)
  then show ?case by (cases "Split c a") (auto split: list.splits if_splits)
qed

lemma last_Split_free: "c \<notin> set (last (Split c s))"
  by (rule Split_parts_free [of _ c s]) simp

text \<open>The loop of \<^verbatim>\<open>Write\<close> against its specification: split the buffer, keep the last part.\<close>

lemma drain_Split:
  "drain ins buf s = (last (Split (CHR 0x0A) buf), fold (\<lambda>l. ins (TrimSpace l)) (butlast (Split (CHR 0x0A) buf)) s)"
proof (induction ins buf s rule: drain.induct)
  case (1 ins buf s)
  show ?case
  proof (cases "IndexByte buf (CHR 0x0A)")
    case None
    then have "CHR 0x0A \<notin> set buf" by (simp add: IndexByte_None)
    with None show ?thesis by (simp add: drain.simps [of ins buf s] Split_free)
  next
    case (Some i)
    then show ?thesis using 1 [OF Some] by (simp add: drain.simps [of ins buf s] Split_IndexByte [OF Some])
  qed
qed

text \<open>
  What the line buffer relies on of the place it inserts into: blank lines are ignored and
  surrounding space does not matter.
\<close>

locale line_sink =
  fixes ins :: "string \<Rightarrow> 's \<Rightarrow> 's"
  assumes ins_blank: "TrimSpace l = '''' \<Longrightarrow> ins l s = s"
    and ins_trim: "ins (TrimSpace l) s = ins l s"
begin

lemma fold_ins: "fold (\<lambda>l. ins (TrimSpace l)) ls s = fold ins (filter (\<lambda>l. TrimSpace l \<noteq> '''') ls) s"
  by (induction ls arbitrary: s) (auto simp: ins_trim ins_blank)

lemma drain_lines:
  "drain ins buf s = (last (Split (CHR 0x0A) buf),
     fold ins (filter (\<lambda>l. TrimSpace l \<noteq> '''') (butlast (Split (CHR 0x0A) buf))) s)"
  by (simp add: drain_Split fold_ins)

lemma drain_append:
  assumes "drain ins a s = (rest, t)"
  shows "drain ins (a @ b) s = drain ins (rest @ b) t"
proof -
  let ?S = "Split (CHR 0x0A)"
  have r: "rest = last (?S a)" "t = fold (\<lambda>l. ins (TrimSpace l)) (butlast (?S a)) s"
    using assms by (simp_all add: drain_Split)
  have "?S rest = [rest]" using last_Split_free by (simp add: r(1) Split_free)
  then have "?S (rest @ b) = (rest @ hd (?S b)) # tl (?S b)" by (simp add: Split_join)
  moreover have "?S (a @ b) = butlast (?S a) @ (rest @ hd (?S b)) # tl (?S b)" by (simp add: Split_join r(1))
  ultimately show ?thesis by (simp add: drain_Split r(2) butlast_append)
qed

end

interpretation store_lines: line_sink "insertLine env source"
  by unfold_locales (auto simp: insertLine_def Insert_def Let_def split: prod.splits option.splits)

section \<open>Write\<close>

fun writes :: "'d log_env \<Rightarrow> bytes list \<Rightarrow> log_writer option \<Rightarrow> 'd log_state \<Rightarrow> log_writer option \<times> 'd log_state" where
  "writes env [] wr st = (wr, st)"
| "writes env (p # ps) wr st = (case WriteLog env p wr st of (_, wr, st) \<Rightarrow> writes env ps wr st)"

lemma insertLine_store: "snd (snd st) \<noteq> None \<Longrightarrow> snd (snd (insertLine env source l st)) \<noteq> None"
  by (auto simp: insertLine_def Insert_def Let_def split: prod.splits option.splits sum.splits)

lemma fold_insertLine_store: "snd (snd st) \<noteq> None \<Longrightarrow> snd (snd (fold (insertLine env source) ls st)) \<noteq> None"
proof (induction ls arbitrary: st)
  case (Cons l ls)
  from Cons.IH [OF insertLine_store [OF Cons.prems]] show ?case by (simp del: not_None_eq)
qed simp

lemma WriteLog_drain:
  "snd (snd st) \<noteq> None \<Longrightarrow> WriteLog env p (Some v) st =
     (case drain (insertLine env (wr_source v)) (wr_buf v @ p) st of (rest, st) \<Rightarrow>
        ((length p, None), Some (v\<lparr>wr_buf := rest\<rparr>), st))"
  by (auto simp: WriteLog_def split: prod.splits option.splits)

lemma writes_drain:
  assumes "snd (snd st) \<noteq> None" "CHR 0x0A \<notin> set (wr_buf v)"
  shows "writes env ps (Some v) st =
     (case drain (insertLine env (wr_source v)) (wr_buf v @ concat ps) st of (rest, st) \<Rightarrow> (Some (v\<lparr>wr_buf := rest\<rparr>), st))"
  using assms
proof (induction ps arbitrary: v st)
  case Nil
  then show ?case by (simp add: drain_Split Split_free)
next
  case (Cons p ps)
  obtain rest t where d: "drain (insertLine env (wr_source v)) (wr_buf v @ p) st = (rest, t)" by (metis surj_pair)
  then have r: "rest = last (Split (CHR 0x0A) (wr_buf v @ p))"
    and t: "t = fold (insertLine env (wr_source v)) (filter (\<lambda>l. TrimSpace l \<noteq> '''') (butlast (Split (CHR 0x0A) (wr_buf v @ p)))) st"
    by (simp_all add: store_lines.drain_lines)
  have "snd (snd t) \<noteq> None" unfolding t using Cons.prems(1) by (rule fold_insertLine_store)
  moreover have "CHR 0x0A \<notin> set rest" unfolding r by (rule last_Split_free)
  ultimately have "writes env ps (Some (v\<lparr>wr_buf := rest\<rparr>)) t =
      (case drain (insertLine env (wr_source v)) (rest @ concat ps) t of (rest, st) \<Rightarrow> (Some (v\<lparr>wr_buf := rest\<rparr>), st))"
    using Cons.IH [of t "v\<lparr>wr_buf := rest\<rparr>"] by simp
  then show ?case
    using store_lines.drain_append [OF d, of "concat ps"] Cons.prems(1) by (simp add: WriteLog_drain d)
qed

text \<open>
  C23. The log writer does not depend on how its input is cut into writes: whatever the
  chunks, the store receives exactly the complete lines of their concatenation that are not
  blank, once each and in order, and the part after the last line end stays in the buffer.
\<close>

theorem writes_chunks:
  assumes "CHR 0x0A \<notin> set (wr_buf v)"
  shows "writes env ps (Some v) (w, d, Some s) =
     (Some (v\<lparr>wr_buf := last (Split (CHR 0x0A) (wr_buf v @ concat ps))\<rparr>),
      fold (insertLine env (wr_source v))
        (filter (\<lambda>l. TrimSpace l \<noteq> '''') (butlast (Split (CHR 0x0A) (wr_buf v @ concat ps)))) (w, d, Some s))"
  using writes_drain [of "(w, d, Some s)" v env ps] assms by (simp add: store_lines.drain_lines)

section \<open>Rows\<close>

text \<open>
  What the log store relies on of SQLite: \<open>tbl d\<close> are the rows of \<^verbatim>\<open>logs\<close>; an insert fails and
  keeps them or adds its row; opening, closing and the statements of \<^verbatim>\<open>init\<close> keep them.
\<close>

definition log_laws :: "'d sqlite_lib \<Rightarrow> ('d \<Rightarrow> string list list) \<Rightarrow> bool" where
  "log_laws sq tbl =
     ((\<forall>d e. tbl (snd (sq_Exec sq d insertLogSQL (entry_args e))) =
         (case fst (sq_Exec sq d insertLogSQL (entry_args e)) of Inl _ \<Rightarrow> tbl d | Inr _ \<Rightarrow> tbl d @ [entry_args e])) \<and>
      (\<forall>d p. tbl (snd (sq_Open sq d p)) = tbl d) \<and> (\<forall>d. tbl (snd (sq_Close sq d)) = tbl d) \<and>
      (\<forall>d st. st \<in> set log_statements \<longrightarrow> tbl (snd (sq_Exec sq d st [])) = tbl d))"

lemma stringField_nonblank: "stringField m k = Some v \<Longrightarrow> v \<noteq> '''' \<and> TrimSpace v = v"
  by (auto simp: stringField_def split: option.splits json.splits if_splits)

definition entry_ok :: "log_entry \<Rightarrow> bool" where
  "entry_ok e = ((le_Source e \<noteq> '''' \<and> TrimSpace (le_Source e) = le_Source e) \<and>
     (le_Level e \<noteq> '''' \<and> TrimSpace (le_Level e) = le_Level e) \<and>
     (le_Message e \<noteq> '''' \<and> TrimSpace (le_Message e) = le_Message e) \<and> TrimSpace (le_Component e) = le_Component e)"

lemma trimmed_words: "TrimSpace ''guest'' = ''guest''" "TrimSpace ''info'' = ''info''"
  by code_simp+

lemma entry_ok_field:
  assumes "entry_ok r"
  shows "entry_ok (case stringField m k of None \<Rightarrow> r | Some v \<Rightarrow> r\<lparr>le_Level := v\<rparr>)"
    "entry_ok (case stringField m k of None \<Rightarrow> r | Some v \<Rightarrow> r\<lparr>le_Component := v\<rparr>)"
    "entry_ok (case stringField m k of None \<Rightarrow> r | Some v \<Rightarrow> r\<lparr>le_Message := v\<rparr>)"
    "entry_ok (case stringField m k of None \<Rightarrow> r | Some v \<Rightarrow> r\<lparr>le_Timestamp := v\<rparr>)"
  using assms stringField_nonblank [of m k] by (auto simp: entry_ok_def split: option.split)

lemma withFields_ok: "entry_ok r \<Longrightarrow> entry_ok (withFields m r)"
  unfolding withFields_def Let_def by (intro entry_ok_field)

lemma parseLine_ok:
  assumes "raw \<noteq> ''''" "TrimSpace raw = raw" "TrimSpace source = source"
  shows "entry_ok (fst (parseLine env source raw w)) \<and> snd (parseLine env source raw w) = w @ [Now]"
proof -
  let ?r = "\<lparr>le_Timestamp = tm_Format (le_tm env) (os_Now (le_os env) w), le_Source = (if source = '''' then ''guest'' else source),
    le_Level = ''info'', le_Component = '''', le_Message = raw, le_PayloadJSON = emptyPayload\<rparr>"
  have r: "entry_ok ?r" using assms trimmed_words by (auto simp: entry_ok_def)
  have p: "entry_ok (e\<lparr>le_PayloadJSON := x\<rparr>) = entry_ok e" for e x by (simp add: entry_ok_def)
  show ?thesis
  proof (cases "parseJSON (le_js env) raw")
    case None
    then show ?thesis using assms trimmed_words
      by (simp add: parseLine_def Let_def entry_ok_def now_def split: sum.split)
  next
    case (Some m)
    with withFields_ok [OF r, of m] p show ?thesis
      by (cases "source = ''''") (simp_all add: parseLine_def Let_def now_def split: sum.split)
  qed
qed

lemma Insert_row:
  assumes "log_laws (le_sq env) tbl" "TrimSpace raw \<noteq> ''''" "Insert env source raw (w, d, Some s) = (r, w', d', s')"
  shows "\<exists>e s2. e = fst (parseLine env (TrimSpace source) (TrimSpace raw) w) \<and> s' = Some s2 \<and> w' = w @ [Now] \<and>
     (case r of None \<Rightarrow> tbl d' = tbl d @ [entry_args e] \<and> lg_lastError s2 = ''''
              | Some err \<Rightarrow> tbl d' = tbl d \<and> lg_lastError s2 = err_text err)"
proof -
  obtain e w2 where p: "parseLine env (TrimSpace source) (TrimSpace raw) w = (e, w2)" by fastforce
  have w2: "w2 = w @ [Now]" using parseLine_ok [of "TrimSpace raw" "TrimSpace source" env w] assms(2) p by simp
  obtain q d2 where x: "sq_Exec (le_sq env) d insertLogSQL (entry_args e) = (q, d2)" by fastforce
  have t: "tbl d2 = (case q of Inl _ \<Rightarrow> tbl d | Inr _ \<Rightarrow> tbl d @ [entry_args e])"
    using assms(1) x unfolding log_laws_def by (metis fst_conv snd_conv)
  with assms(2,3) p x w2 show ?thesis by (cases q) (auto simp: Insert_def Let_def)
qed


definition parsed_as :: "'d log_env \<Rightarrow> string \<Rightarrow> bytes \<Rightarrow> string list \<Rightarrow> bool" where
  "parsed_as env source line row = (\<exists>w. row = entry_args (fst (parseLine env (TrimSpace source) (TrimSpace line) w)))"

lemma importLines_rows:
  assumes "log_laws (le_sq env) tbl" "importLines env source ts err (w, d, Some s) = (r, w', d', s')"
  shows "\<exists>rows n. tbl d' = tbl d @ rows \<and> s' \<noteq> None \<and>
     list_all2 (parsed_as env source) (take n (filter (\<lambda>l. TrimSpace l \<noteq> '''') ts)) rows \<and>
     (r = None \<longrightarrow> err = None \<and> n = length (filter (\<lambda>l. TrimSpace l \<noteq> '''') ts))"
  using assms(2)
proof (induction ts arbitrary: w d s)
  case Nil
  then show ?case by (intro exI [of _ "[]"] exI [of _ 0]) (auto split: option.splits)
next
  case (Cons t ts)
  show ?case
  proof (cases "TrimSpace t = ''''")
    case True
    with Cons show ?thesis by simp
  next
    case nb: False
    obtain q w2 d2 s2 where i: "Insert env source (TrimSpace t) (w, d, Some s) = (q, w2, d2, s2)" by (metis prod.exhaust)
    from Insert_row [OF assms(1) _ i] nb obtain e s3 where
      e: "e = fst (parseLine env (TrimSpace source) (TrimSpace t) w)" "s2 = Some s3"
        "case q of None \<Rightarrow> tbl d2 = tbl d @ [entry_args e] \<and> lg_lastError s3 = ''''
           | Some err \<Rightarrow> tbl d2 = tbl d \<and> lg_lastError s3 = err_text err" by auto
    have pa: "parsed_as env source t (entry_args e)" unfolding parsed_as_def e(1) by blast
    show ?thesis
    proof (cases q)
      case (Some x)
      with Cons.prems nb i e show ?thesis by (intro exI [of _ "[]"] exI [of _ 0]) auto
    next
      case None
      with Cons.prems nb i e(2) have "importLines env source ts err (w2, d2, Some s3) = (r, w', d', s')" by simp
      from Cons.IH [OF this] obtain rows n where
        "tbl d' = tbl d2 @ rows" "s' \<noteq> None" "list_all2 (parsed_as env source) (take n (filter (\<lambda>l. TrimSpace l \<noteq> '''') ts)) rows"
        "r = None \<longrightarrow> err = None \<and> n = length (filter (\<lambda>l. TrimSpace l \<noteq> '''') ts)" by blast
      with None e(3) pa nb show ?thesis
        by (intro exI [of _ "entry_args e # rows"] exI [of _ "Suc n"]) auto
    qed
  qed
qed

lemma execLogStatements_keeps:
  "log_laws sq tbl \<Longrightarrow> set sts \<subseteq> set log_statements \<Longrightarrow> tbl (snd (execLogStatements sq sts d)) = tbl d"
proof (induction sts arbitrary: d)
  case (Cons st sts)
  obtain q d2 where x: "sq_Exec sq d st [] = (q, d2)" by fastforce
  have "tbl d2 = tbl d" using Cons.prems x unfolding log_laws_def by (metis list.set_intros(1) snd_conv subsetD)
  with Cons x show ?case by (auto split: sum.splits)
qed simp

lemma OpenLog_keeps:
  assumes "log_laws (le_sq env) tbl" "OpenLog env path (w, d) = (r, w', d')"
  shows "tbl d' = tbl d"
proof -
  obtain q d1 where o: "sq_Open (le_sq env) d (log_dsn path) = (q, d1)" by fastforce
  obtain e d2 where x: "execLogStatements (le_sq env) log_statements d1 = (e, d2)" by fastforce
  have "tbl d1 = tbl d" using assms(1) o unfolding log_laws_def by (metis snd_conv)
  moreover have "tbl d2 = tbl d1" using execLogStatements_keeps [OF assms(1), of log_statements d1] x by simp
  moreover have "tbl (snd (sq_Close (le_sq env) d2)) = tbl d2" using assms(1) unfolding log_laws_def by blast
  ultimately show ?thesis
    using assms(2) o x by (auto simp: OpenLog_def initLog_def Let_def split: if_splits prod.splits option.splits)
qed

lemma import_run_rows:
  assumes "log_laws (le_sq env) tbl"
    and "importqemulogs_run env contents inputPath dbPath source (w, d) = (r, w', d')"
  shows "\<exists>rows ts err u. tbl d' = tbl d @ rows \<and> scanLines (contents u inputPath) = (ts, err) \<and>
     (\<exists>n. list_all2 (parsed_as env source) (take n (filter (\<lambda>l. TrimSpace l \<noteq> '''') ts)) rows \<and>
        (r = None \<longrightarrow> err = None \<and> n = length (filter (\<lambda>l. TrimSpace l \<noteq> '''') ts)))"
proof -
  have none: ?thesis if "tbl d' = tbl d" "r \<noteq> None"
  proof -
    obtain ts err where "scanLines (contents w inputPath) = (ts, err)" by fastforce
    with that show ?thesis
      by (intro exI [of _ "[]"] exI [of _ ts] exI [of _ err] exI [of _ w] conjI exI [of _ 0]) auto
  qed
  consider (early) "tbl d' = tbl d" "r \<noteq> None"
    | (opened) store w1 d1 where "OpenLog env dbPath (w @ [OpenFile inputPath], d) = (Inr store, w1, d1)"
        "\<exists>ts err w2 d2 s2. scanLines (contents w1 inputPath) = (ts, err) \<and>
           importLines env source ts err (w1, d1, Some store) = (r, w2, d2, s2) \<and> d' = snd (CloseLog (le_sq env) s2 d2)"
    using assms OpenLog_keeps [OF assms(1), of dbPath "w @ [OpenFile inputPath]" d]
    by (auto simp: importqemulogs_run_def call_defs split: if_splits option.splits prod.splits sum.splits)
  then show ?thesis
  proof cases
    case early
    then show ?thesis by (rule none)
  next
    case opened
    then obtain ts err w2 d2 s2 where s: "scanLines (contents w1 inputPath) = (ts, err)"
        "importLines env source ts err (w1, d1, Some store) = (r, w2, d2, s2)" "d' = snd (CloseLog (le_sq env) s2 d2)" by blast
    have "tbl d1 = tbl d" using OpenLog_keeps [OF assms(1) opened(1)] .
    moreover have "tbl d' = tbl d2" using assms(1) s(3) unfolding log_laws_def CloseLog_def by (cases s2) auto
    ultimately show ?thesis using importLines_rows [OF assms(1) s(2)] s(1) by metis
  qed
qed

section \<open>Instances\<close>

text \<open>A table of rows as the engine, and a codec that decodes nothing.\<close>

definition list_sql :: "(string list list) sqlite_lib" where
  "list_sql = \<lparr>sq_Open = \<lambda>d _. (None, d), sq_Close = \<lambda>d. (None, d),
     sq_Exec = \<lambda>d st args. (Inr (Inr 0), if args = [] then d else d @ [args]),
     sq_Query = \<lambda>d _. Inr ([], None), sq_QueryInt = \<lambda>d _. Inr (int (length d))\<rparr>"

definition list_env :: "(string list list) log_env" where
  "list_env = \<lparr>le_os = good_os, le_sq = list_sql, le_tm = \<lparr>tm_Format = \<lambda>_. ''t'', tm_Parse = \<lambda>_. Inr 0\<rparr>,
     le_js = \<lparr>js_Unmarshal = \<lambda>_. Inl (errorf ''json''), js_Marshal = \<lambda>_. Inr ''{}''\<rparr>\<rparr>"

lemma list_laws: "log_laws (le_sq list_env) (\<lambda>d. d)"
  by (simp add: log_laws_def list_env_def list_sql_def entry_args_def)

definition store1 :: log_Store where
  "store1 = \<lparr>lg_path = ''l.db'', lg_lastError = ''old''\<rparr>"

theorem writes_chunks_witness:
  "writes list_env [''a'', ''b'' @ [CHR 0x0A, CHR 0x0A], ''c''] (Some (LogWriter ''g'')) ([], [], Some store1) =
     (Some ((LogWriter ''g'')\<lparr>wr_buf := ''c''\<rparr>), insertLine list_env (wr_source (LogWriter ''g'')) ''ab'' ([], [], Some store1))"
proof -
  have "TrimSpace ''ab'' \<noteq> ''''" by code_simp
  then show ?thesis
    using writes_chunks [of "LogWriter ''g''" list_env "[''a'', ''b'' @ [CHR 0x0A, CHR 0x0A], ''c'']" "[]" "[]" store1]
    by (simp add: LogWriter_def)
qed


end
