(* ===== verification/HostCommands.thy ===== *)
theory HostCommands
  imports Cmdline Mkinitramfs LogStore
begin

text \<open>
  The \<^verbatim>\<open>main\<close> functions of the two host tools, \<^verbatim>\<open>cmd/mkinitramfs\<close> and \<^verbatim>\<open>cmd/importqemulogs\<close>: the flags
  they declare, what they print and the status they exit with. The usage text is a parameter.
\<close>

section \<open>mkinitramfs\<close>

record mkinit_vars =
  mk_initPath :: string
  mk_output :: string
  mk_modules :: string_flags
  mk_files :: string_flags
  mk_fileSets :: string_flags

definition mkinit_vars0 :: mkinit_vars where
  "mkinit_vars0 = \<lparr>mk_initPath = '''', mk_output = '''', mk_modules = [], mk_files = [], mk_fileSets = []\<rparr>"

definition mkinit_flags :: "mkinit_vars flag_set" where
  "mkinit_flags =
     [''init-bin'' \<mapsto> \<lambda>v s. s\<lparr>mk_initPath := v\<rparr>,
      ''output'' \<mapsto> \<lambda>v s. s\<lparr>mk_output := v\<rparr>,
      ''module-map'' \<mapsto> \<lambda>v s. s\<lparr>mk_modules := flags_Set (mk_modules s) v\<rparr>,
      ''file-map'' \<mapsto> \<lambda>v s. s\<lparr>mk_files := flags_Set (mk_files s) v\<rparr>,
      ''file-map-file'' \<mapsto> \<lambda>v s. s\<lparr>mk_fileSets := flags_Set (mk_fileSets s) v\<rparr>]"

text \<open>The status, what is printed to standard error, and what \<^verbatim>\<open>run\<close> wrote.\<close>

definition mkinitramfs_main :: "('f, 'z) host \<Rightarrow> string \<Rightarrow> string list \<Rightarrow> nat \<times> string \<times> 'z option" where
  "mkinitramfs_main h usage args =
     (case parseFlags mkinit_flags args mkinit_vars0 of
        Inl e \<Rightarrow> (flag_exit e, flag_message usage e, None)
      | Inr (v, _) \<Rightarrow>
          (case run h (mk_initPath v) (mk_output v) (mk_modules v) (mk_files v) (mk_fileSets v) of
             (z, Some e) \<Rightarrow> (1, ''mkinitramfs: '' @ err_text e @ [CHR 0x0A], z)
           | (z, None) \<Rightarrow> (0, '''', z)))"

section \<open>importqemulogs\<close>

record import_vars =
  im_inputPath :: string
  im_dbPath :: string
  im_source :: string

definition import_vars0 :: import_vars where
  "import_vars0 = \<lparr>im_inputPath = '''', im_dbPath = '''', im_source = ''qemu-host''\<rparr>"

definition import_flags :: "import_vars flag_set" where
  "import_flags =
     [''input'' \<mapsto> \<lambda>v s. s\<lparr>im_inputPath := v\<rparr>,
      ''db'' \<mapsto> \<lambda>v s. s\<lparr>im_dbPath := v\<rparr>,
      ''source'' \<mapsto> \<lambda>v s. s\<lparr>im_source := v\<rparr>]"

definition importqemulogs_main ::
  "'d log_env \<Rightarrow> (world \<Rightarrow> string \<Rightarrow> bytes \<times> go_error option) \<Rightarrow> string \<Rightarrow> string list \<Rightarrow>
   world \<times> 'd \<Rightarrow> (nat \<times> string) \<times> world \<times> 'd" where
  "importqemulogs_main env contents usage args s =
     (case parseFlags import_flags args import_vars0 of
        Inl e \<Rightarrow> ((flag_exit e, flag_message usage e), s)
      | Inr (v, _) \<Rightarrow>
          (case importqemulogs_run env contents (im_inputPath v) (im_dbPath v) (im_source v) s of
             (Some e, s) \<Rightarrow> ((1, ''importqemulogs: '' @ err_text e @ [CHR 0x0A]), s)
           | (None, s) \<Rightarrow> ((0, ''''), s)))"

section \<open>The flags of the commands\<close>

lemma mkinit_names:
  "dom mkinit_flags = {''init-bin'', ''output'', ''module-map'', ''file-map'', ''file-map-file''}"
  by (auto simp: mkinit_flags_def)

lemma import_names: "dom import_flags = {''input'', ''db'', ''source''}"
  by (auto simp: import_flags_def)

interpretation mkinit: flag_names mkinit_flags
  by unfold_locales (auto simp: mkinit_names plain_name_def)

interpretation import: flag_names import_flags
  by unfold_locales (auto simp: import_names plain_name_def)

text \<open>What the settings of a command line, in order, leave in the variables.\<close>

definition values_of :: "string \<Rightarrow> (string \<times> string) list \<Rightarrow> string list" where
  "values_of n ss = map snd (filter (\<lambda>s. fst s = n) ss)"

definition last_value :: "string \<Rightarrow> string \<Rightarrow> (string \<times> string) list \<Rightarrow> string" where
  "last_value n def ss = (if values_of n ss = [] then def else last (values_of n ss))"

lemma values_of_simps [simp]:
  "values_of n [] = []" "values_of n ((m, v) # ss) = (if m = n then v # values_of n ss else values_of n ss)"
  by (simp_all add: values_of_def)

lemma in_values_of: "v \<in> set (values_of n ss) \<longleftrightarrow> (n, v) \<in> set ss"
  by (force simp: values_of_def)

lemma last_value_Cons: "last_value n def ((m, v) # ss) = (if m = n then last_value n v ss else last_value n def ss)"
  by (simp add: last_value_def)

lemma last_value_Nil [simp]: "last_value n def [] = def"
  by (simp add: last_value_def)

lemma mkinit_settings:
  assumes "fst ` set ss \<subseteq> dom mkinit_flags"
  shows "put_settings mkinit_flags ss s =
    \<lparr>mk_initPath = last_value ''init-bin'' (mk_initPath s) ss, mk_output = last_value ''output'' (mk_output s) ss,
     mk_modules = mk_modules s @ values_of ''module-map'' ss, mk_files = mk_files s @ values_of ''file-map'' ss,
     mk_fileSets = mk_fileSets s @ values_of ''file-map-file'' ss\<rparr>"
  using assms
proof (induction ss arbitrary: s)
  case (Cons x ss)
  obtain n v where x: "x = (n, v)" by fastforce
  from Cons.prems have "n \<in> dom mkinit_flags" by (auto simp: x)
  then show ?case unfolding mkinit_names using Cons
    by (auto simp: x mkinit_flags_def flags_Set_def last_value_Cons)
qed simp

lemma import_settings:
  assumes "fst ` set ss \<subseteq> dom import_flags"
  shows "put_settings import_flags ss s =
    \<lparr>im_inputPath = last_value ''input'' (im_inputPath s) ss, im_dbPath = last_value ''db'' (im_dbPath s) ss,
     im_source = last_value ''source'' (im_source s) ss\<rparr>"
  using assms
proof (induction ss arbitrary: s)
  case (Cons x ss)
  obtain n v where x: "x = (n, v)" by fastforce
  from Cons.prems have "n \<in> dom import_flags" by (auto simp: x)
  then show ?case unfolding import_names using Cons
    by (auto simp: x import_flags_def last_value_Cons)
qed simp

lemma spelled_names: "spelled names args ss rest \<Longrightarrow> fst ` set ss \<subseteq> names"
  by (induction rule: spelled.induct) auto

section \<open>Properties\<close>

lemma mkinit_vars_of:
  assumes "spelled (dom mkinit_flags) args ss rest"
  shows "put_settings mkinit_flags ss mkinit_vars0 =
    \<lparr>mk_initPath = last_value ''init-bin'' '''' ss, mk_output = last_value ''output'' '''' ss,
     mk_modules = values_of ''module-map'' ss, mk_files = values_of ''file-map'' ss,
     mk_fileSets = values_of ''file-map-file'' ss\<rparr>"
  using mkinit_settings [OF spelled_names [OF assms]] by (simp add: mkinit_vars0_def)

lemma mkinit_parse:
  assumes "spelled (dom mkinit_flags) args ss rest"
  shows "parseFlags mkinit_flags args mkinit_vars0 =
    Inr (\<lparr>mk_initPath = last_value ''init-bin'' '''' ss, mk_output = last_value ''output'' '''' ss,
          mk_modules = values_of ''module-map'' ss, mk_files = values_of ''file-map'' ss,
          mk_fileSets = values_of ''file-map-file'' ss\<rparr>, rest)"
  using mkinit.parse_spelled [OF assms] mkinit_vars_of [OF assms] by simp

lemma import_parse:
  assumes "spelled (dom import_flags) args ss rest"
  shows "parseFlags import_flags args import_vars0 =
    Inr (\<lparr>im_inputPath = last_value ''input'' '''' ss, im_dbPath = last_value ''db'' '''' ss,
          im_source = last_value ''source'' ''qemu-host'' ss\<rparr>, rest)"
  using import.parse_spelled [OF assms] import_settings [OF spelled_names [OF assms]]
  by (simp add: import_vars0_def)

text \<open>
  C2. From the command line to the image: when \<^verbatim>\<open>mkinitramfs\<close> exits with status 0 on a command line
  that spells a list of settings, it has written an archive that holds, as \<^verbatim>\<open>init\<close>, the bytes of the
  last \<^verbatim>\<open>-init-bin\<close>, the bytes of the host file of every file specification, given by \<^verbatim>\<open>-file-map\<close> or in
  a \<^verbatim>\<open>-file-map-file\<close>, and of every \<^verbatim>\<open>-module-map\<close> the module, decompressed where it has to be.
\<close>

theorem mkinitramfs_image:
  assumes sink: "io_sink (h_gzip_Write h) content" and empty: "\<forall>w. content (h_gzip h w) = []"
    and close: "\<forall>z z'. h_gzip_Close h z = (z', None) \<longrightarrow> content z' = content z"
    and cmd: "spelled (dom mkinit_flags) args ss rest"
    and specs: "expandFileSpecs h (values_of ''file-map'' ss) (values_of ''file-map-file'' ss) = Inr specs"
    and xs: "readExtraFiles h (values_of ''module-map'' ss) specs = Inr xs" "archivable xs"
    and d: "h_ReadFile h (last_value ''init-bin'' '''' ss) = Inr d" "length d < 2 ^ 32"
    and main: "mkinitramfs_main h usage args = (0, err, out)"
  shows "\<exists>z es. out = Some z \<and> parseArchive (content z) = Inr es \<and>
     (\<exists>e\<in>set es. p_Name e = ''init'' \<and> p_Data e = d) \<and>
     (\<forall>spec g p. (''file-map'', spec) \<in> set ss \<or> spec \<in> set specs \<longrightarrow> parseModuleSpec spec = Inr (g, p) \<longrightarrow>
        (\<exists>e\<in>set es. p_Name e = TrimPrefix g ''/'' \<and> h_ReadFile h p = Inr (p_Data e))) \<and>
     (\<forall>spec g p. (''module-map'', spec) \<in> set ss \<longrightarrow> parseModuleSpec spec = Inr (g, p) \<longrightarrow>
        (\<exists>e\<in>set es. p_Name e = TrimPrefix g ''/'' \<and> readModuleData h p = Inr (p_Data e)))"
proof -
  from main have r: "run h (last_value ''init-bin'' '''' ss) (last_value ''output'' '''' ss) (values_of ''module-map'' ss)
      (values_of ''file-map'' ss) (values_of ''file-map-file'' ss) = (out, None)"
    by (auto simp: mkinitramfs_main_def mkinit_parse [OF cmd] split: prod.splits option.splits)
  then obtain z where z: "out = Some z" using run_None by blast
  obtain t where t: "parseArchive (content z) = Inr (map view (archive_entries t d xs) @ [view trailer_entry])"
    using run_archives [OF sink empty close specs xs d r [unfolded z]] by blast
  let ?es = "map view (archive_entries t d xs) @ [view trailer_entry]"
  have files: "\<exists>e\<in>set ?es. p_Name e = TrimPrefix g ''/'' \<and> h_ReadFile h p = Inr (p_Data e)"
    if "(''file-map'', spec) \<in> set ss \<or> spec \<in> set specs" "parseModuleSpec spec = Inr (g, p)" for spec g p
  proof -
    have "spec \<in> set specs" using that(1) expandFileSpecs_inline [OF specs] by (auto simp: in_values_of)
    then obtain x where "x \<in> set xs" "Mkinitramfs.readFile h spec = Inr x" using readExtraFiles_file [OF xs(1)] by blast
    with readFile_Inr [OF this(2) that(2)] readFile_in_archive [of x xs t d] show ?thesis by fastforce
  qed
  have modules: "\<exists>e\<in>set ?es. p_Name e = TrimPrefix g ''/'' \<and> readModuleData h p = Inr (p_Data e)"
    if "(''module-map'', spec) \<in> set ss" "parseModuleSpec spec = Inr (g, p)" for spec g p
  proof -
    have "spec \<in> set (values_of ''module-map'' ss)" using that(1) by (simp add: in_values_of)
    then obtain x where "x \<in> set xs" "readModule h spec = Inr x" using readExtraFiles_module [OF xs(1)] by blast
    with readModule_Inr [OF this(2) that(2)] readFile_in_archive [of x xs t d] show ?thesis by fastforce
  qed
  have "\<exists>e\<in>set ?es. p_Name e = ''init'' \<and> p_Data e = d" using init_in_archive [of t d xs] by auto
  with z t files modules show ?thesis by blast
qed

text \<open>
  C27. The command lines \<^verbatim>\<open>mkinitramfs\<close> understands are exactly those the grammar spells, and the variables
  then hold the last value of \<^verbatim>\<open>-init-bin\<close> and of \<^verbatim>\<open>-output\<close> and all values of the three repeatable flags
  in the order given; on every other command line nothing runs and the status is 2, or 0 when help was asked for.
\<close>

theorem mkinitramfs_command_line:
  "(parseFlags mkinit_flags args mkinit_vars0 = Inr (v, rest) \<longleftrightarrow>
     (\<exists>ss. spelled {''init-bin'', ''output'', ''module-map'', ''file-map'', ''file-map-file''} args ss rest \<and>
        v = \<lparr>mk_initPath = last_value ''init-bin'' '''' ss, mk_output = last_value ''output'' '''' ss,
             mk_modules = values_of ''module-map'' ss, mk_files = values_of ''file-map'' ss,
             mk_fileSets = values_of ''file-map-file'' ss\<rparr>)) \<and>
   ((\<nexists>ss rest. spelled {''init-bin'', ''output'', ''module-map'', ''file-map'', ''file-map-file''} args ss rest) \<longrightarrow>
     (\<exists>err. mkinitramfs_main h usage args = (2, err, None) \<or> mkinitramfs_main h usage args = (0, usage, None)))"
proof -
  let ?N = "{''init-bin'', ''output'', ''module-map'', ''file-map'', ''file-map-file''}"
  have "\<exists>err. mkinitramfs_main h usage args = (2, err, None) \<or> mkinitramfs_main h usage args = (0, usage, None)"
    if "\<nexists>ss rest. spelled ?N args ss rest"
  proof (cases "parseFlags mkinit_flags args mkinit_vars0")
    case (Inl e)
    then show ?thesis by (cases e) (simp_all add: mkinitramfs_main_def flag_exit_def flag_message_def)
  next
    case (Inr r)
    then show ?thesis using that mkinit.parse_iff [of args mkinit_vars0 "fst r" "snd r"] unfolding mkinit_names by auto
  qed
  moreover have "parseFlags mkinit_flags args mkinit_vars0 = Inr (v, rest) \<longleftrightarrow>
     (\<exists>ss. spelled ?N args ss rest \<and>
        v = \<lparr>mk_initPath = last_value ''init-bin'' '''' ss, mk_output = last_value ''output'' '''' ss,
             mk_modules = values_of ''module-map'' ss, mk_files = values_of ''file-map'' ss,
             mk_fileSets = values_of ''file-map-file'' ss\<rparr>)"
    unfolding mkinit.parse_iff mkinit_names using mkinit_vars_of by (auto simp: mkinit_names)
  ultimately show ?thesis by blast
qed

text \<open>
  C25. When \<^verbatim>\<open>importqemulogs\<close> exits with status 0 on a command line that spells a list of settings, it has stored
  one row for every line of the file named by the last \<^verbatim>\<open>-input\<close> that is not blank, in order, parsed from
  that line, with the last \<^verbatim>\<open>-source\<close>, or \<^verbatim>\<open>qemu-host\<close>, as its source. With any other status the rows
  stored are those of a prefix of the lines. No row that was there before is touched.
\<close>

theorem importqemulogs_imports:
  assumes "log_laws (le_sq env) tbl" and "spelled (dom import_flags) args ss rest"
    and "importqemulogs_main env contents usage args (w, d) = ((status, err), w', d')"
  shows "\<exists>rows ts e u n. tbl d' = tbl d @ rows \<and> scanLines (contents u (last_value ''input'' '''' ss)) = (ts, e) \<and>
     list_all2 (parsed_as env (last_value ''source'' ''qemu-host'' ss)) (take n (filter (\<lambda>l. TrimSpace l \<noteq> '''') ts)) rows \<and>
     (status = 0 \<and> err = '''' \<and> e = None \<and> n = length (filter (\<lambda>l. TrimSpace l \<noteq> '''') ts) \<or> status = 1 \<and> err \<noteq> '''')"
proof -
  obtain r w2 d2 where r: "importqemulogs_run env contents (last_value ''input'' '''' ss) (last_value ''db'' '''' ss)
      (last_value ''source'' ''qemu-host'' ss) (w, d) = (r, w2, d2)" by (metis prod.exhaust)
  with assms(3) have m: "w' = w2" "d' = d2"
    "status = 0 \<and> err = '''' \<and> r = None \<or> status = 1 \<and> err \<noteq> '''' \<and> r \<noteq> None"
    by (auto simp: importqemulogs_main_def import_parse [OF assms(2)] split: option.splits)
  from import_run_rows [OF assms(1) r] obtain rows ts e u n where
    "tbl d2 = tbl d @ rows" "scanLines (contents u (last_value ''input'' '''' ss)) = (ts, e)"
    "list_all2 (parsed_as env (last_value ''source'' ''qemu-host'' ss)) (take n (filter (\<lambda>l. TrimSpace l \<noteq> '''') ts)) rows"
    "r = None \<longrightarrow> e = None \<and> n = length (filter (\<lambda>l. TrimSpace l \<noteq> '''') ts)" by blast
  with m show ?thesis by blast
qed

section \<open>Instances\<close>

theorem mkinitramfs_image_witness:
  "\<exists>z es. mkinitramfs_main (buffer_host [''init.bin'' \<mapsto> ''I'', ''h'' \<mapsto> ''H'']) ''usage''
       [''-init-bin'', ''init.bin'', ''-output=out'', ''--file-map'', ''/etc/h=h''] = (0, '''', Some z) \<and>
     parseArchive z = Inr es \<and> (\<exists>e\<in>set es. p_Name e = ''init'' \<and> p_Data e = ''I'') \<and>
     (\<exists>e\<in>set es. p_Name e = ''etc/h'' \<and> p_Data e = ''H'')"
proof -
  let ?h = "buffer_host [''init.bin'' \<mapsto> ''I'', ''h'' \<mapsto> ''H'']"
  let ?args = "[''-init-bin'', ''init.bin'', ''-output=out'', ''--file-map'', ''/etc/h=h'']"
  let ?ss = "[(''init-bin'', ''init.bin''), (''output'', ''out''), (''file-map'', ''/etc/h=h'')]"
  let ?x = "\<lparr>af_Path = ''etc/h'', af_Data = ''H'', af_ModTime = 7, af_Mode = 0x1ED\<rparr>"
  have cmd: "spelled (dom mkinit_flags) ?args ?ss []"
    using separate [of "''-''" "''init-bin''" "dom mkinit_flags" _ _ _ "''init.bin''", OF _ _
        joined [of "''-''" "''output''" _ _ _ _ "''out''", OF _ _
          separate [of "''--''" "''file-map''" _ _ _ _ "''/etc/h=h''", OF _ _ stop [of "[]"]]]]
    by (simp add: mkinit_names)
  have sp: "expandFileSpecs ?h [''/etc/h=h''] [] = Inr [''/etc/h=h'']" by (simp add: expandFileSpecs_def)
  have pm: "parseModuleSpec ''/etc/h=h'' = Inr (''/etc/h'', ''h'')" by code_simp
  have tp: "TrimPrefix ''/etc/h'' ''/'' = ''etc/h''" by code_simp
  then have xs: "readExtraFiles ?h [] [''/etc/h=h''] = Inr [?x]"
    by (simp add: readExtraFiles_def Mkinitramfs.readFile_def pm buffer_host_def wrapR_def Perm_def)
  have pd: "parentDirectories ''etc/h'' = [''etc'']" by code_simp
  have a: "archivable [?x]" by (simp add: archivable_def pd trailer_def)
  obtain z where "writeArchive ?h () 7 ''I'' [?x] = (Some z, None)"
    using buffer_host_succeeds [OF a, of "''I''"] by auto
  then have "run ?h ''init.bin'' ''out'' [] [''/etc/h=h''] [] = (Some z, None)"
    by (simp add: run_def sp xs) (simp add: buffer_host_def wrapR_def)
  then have main: "mkinitramfs_main ?h ''usage'' ?args = (0, '''', Some z)"
    unfolding mkinitramfs_main_def mkinit_parse [OF cmd] by (simp add: last_value_Cons)
  have f: "h_ReadFile ?h ''h'' = Inr ''H''" by (simp add: buffer_host_def)
  have "\<exists>y es. Some z = Some y \<and> parseArchive y = Inr es \<and>
     (\<exists>e\<in>set es. p_Name e = ''init'' \<and> p_Data e = ''I'') \<and>
     (\<forall>spec g p. (''file-map'', spec) \<in> set ?ss \<or> spec \<in> set [''/etc/h=h''] \<longrightarrow> parseModuleSpec spec = Inr (g, p) \<longrightarrow>
        (\<exists>e\<in>set es. p_Name e = TrimPrefix g ''/'' \<and> h_ReadFile ?h p = Inr (p_Data e))) \<and>
     (\<forall>spec g p. (''module-map'', spec) \<in> set ?ss \<longrightarrow> parseModuleSpec spec = Inr (g, p) \<longrightarrow>
        (\<exists>e\<in>set es. p_Name e = TrimPrefix g ''/'' \<and> readModuleData ?h p = Inr (p_Data e)))"
    by (rule mkinitramfs_image [where content = "\<lambda>s. s", OF _ _ _ cmd _ _ a _ _ main])
       (simp_all add: last_value_Cons sp xs, simp_all add: buffer_host_def buffer.io_sink_axioms)
  with pm tp f main show ?thesis by fastforce
qed

theorem mkinitramfs_command_line_witness:
  "\<exists>err. mkinitramfs_main (buffer_host Map.empty) ''usage'' [''-output''] = (2, err, None) \<or>
     mkinitramfs_main (buffer_host Map.empty) ''usage'' [''-output''] = (0, ''usage'', None)"
proof -
  have "\<not> spelled {''init-bin'', ''output'', ''module-map'', ''file-map'', ''file-map-file''} [''-output''] ss rest" for ss rest
    by (auto elim: spelled.cases simp: is_flag_def)
  then show ?thesis
    using mkinitramfs_command_line [of "[''-output'']" undefined undefined "buffer_host Map.empty" "''usage''"] by blast
qed

theorem importqemulogs_imports_witness:
  "\<exists>status err w' rows. importqemulogs_main list_env (\<lambda>_ _. (''x'' @ [CHR 0x0A], None)) ''usage''
      [''-input'', ''i'', ''-db=d''] ([], [[''old'']]) = ((status, err), w', [[''old'']] @ rows)"
proof -
  let ?c = "\<lambda>_ _. (''x'' @ [CHR 0x0A], None)"
  have cmd: "spelled (dom import_flags) [''-input'', ''i'', ''-db=d''] [(''input'', ''i''), (''db'', ''d'')] []"
    using separate [of "''-''" "''input''" "dom import_flags" _ _ _ "''i''", OF _ _
        joined [of "''-''" "''db''" _ _ _ _ "''d''", OF _ _ stop [of "[]"]]]
    by (simp add: import_names)
  obtain status err w' d' where
    i: "importqemulogs_main list_env ?c ''usage'' [''-input'', ''i'', ''-db=d''] ([], [[''old'']]) = ((status, err), w', d')"
    by (metis prod.exhaust)
  from importqemulogs_imports [OF list_laws cmd i] obtain rows where "d' = [[''old'']] @ rows" by blast
  with i show ?thesis by blast
qed

end
