(* ===== verification/BBSStore.thy ===== *)
theory BBSStore
  imports Sqlite "HOL-Library.Multiset"
begin

text \<open>
  The package \<^verbatim>\<open>internal/bbsstore\<close>: messages in a SQLite table. The database engine is the
  record \<open>sqlite_lib\<close> of Sqlite over an arbitrary state of the database; the locale \<open>sqlite\<close> states
  what the store relies on for the statements it executes, and the locale \<open>message_store\<close> is
  the Go interface \<^verbatim>\<open>Store\<close> that the applications use. Times are nanoseconds since the
  epoch; their RFC 3339 text is a parameter with its round trip.
\<close>

section \<open>Data\<close>

definition databaseName :: string where "databaseName = ''bbs.db''"

record Message =
  msg_ID :: int
  msg_Author :: string
  msg_Subject :: string
  msg_Body :: string
  msg_CreatedAt :: int

record CreateMessageParams =
  cm_Author :: string
  cm_Subject :: string
  cm_Body :: string

record Store =
  st_root :: string
  st_dbPath :: string

definition listSQL :: string where
  "listSQL = LF @ ''SELECT id, author, subject, body, created_at'' @ LF @ ''FROM messages'' @ LF @ ''ORDER BY id DESC'' @ LF"

definition insertSQL :: string where
  "insertSQL = LF @ ''INSERT INTO messages(author, subject, body, created_at)'' @ LF @ ''VALUES(?, ?, ?, ?)'' @ LF"

definition countSQL :: string where
  "countSQL = ''SELECT COUNT('' @ ''*'' @ '') FROM messages''"

definition statements :: "string list" where
  "statements =
     [''PRAGMA busy_timeout = 5000;'', ''PRAGMA foreign_keys = ON;'',
      ''PRAGMA journal_mode = DELETE;'', ''PRAGMA synchronous = NORMAL;'',
      LF @ ''CREATE TABLE IF NOT EXISTS messages ('' @ LF @
        TAB @ ''id INTEGER PRIMARY KEY AUTOINCREMENT,'' @ LF @
        TAB @ ''author TEXT NOT NULL,'' @ LF @ TAB @ ''subject TEXT NOT NULL,'' @ LF @
        TAB @ ''body TEXT NOT NULL,'' @ LF @ TAB @ ''created_at TEXT NOT NULL'' @ LF @ '');'' @ LF,
      ''CREATE INDEX IF NOT EXISTS idx_messages_created_at ON messages(created_at DESC);'']"

definition welcome_params :: CreateMessageParams where
  "welcome_params = \<lparr>cm_Author = ''system'', cm_Subject = ''Welcome to qemu-go-init BBS'',
     cm_Body = ''This is a tiny shared-state BBS. Post from the host CLI or over SSH and the same SQLite database should back both views.''\<rparr>"

section \<open>Operations\<close>

fun scanRows :: "time_lib \<Rightarrow> (row result) list \<Rightarrow> (Message list) result" where
  "scanRows tm [] = Inr []"
| "scanRows tm (Inl e # rs) = Inl (wrap ''scan message: '' e)"
| "scanRows tm (Inr (i, a, s, b, c) # rs) =
     (case tm_Parse tm c of
        Inl e \<Rightarrow> Inl (wrap (''parse created_at '' @ quote c @ '': '') e)
      | Inr t \<Rightarrow>
          (case scanRows tm rs of
             Inl e \<Rightarrow> Inl e
           | Inr ms \<Rightarrow> Inr (\<lparr>msg_ID = i, msg_Author = a, msg_Subject = s, msg_Body = b, msg_CreatedAt = t\<rparr> # ms)))"

definition ListMessages :: "'d sqlite_lib \<Rightarrow> time_lib \<Rightarrow> 'd \<Rightarrow> (Message list) result" where
  "ListMessages sq tm d =
     (case sq_Query sq d listSQL of
        Inl e \<Rightarrow> Inl (wrap ''list messages: '' e)
      | Inr (rows, err) \<Rightarrow>
          (case scanRows tm rows of
             Inl e \<Rightarrow> Inl e
           | Inr ms \<Rightarrow> (case err of Some e \<Rightarrow> Inl (wrap ''iterate messages: '' e) | None \<Rightarrow> Inr ms)))"

definition CreateMessage ::
  "os \<Rightarrow> 'd sqlite_lib \<Rightarrow> time_lib \<Rightarrow> CreateMessageParams \<Rightarrow> world \<times> 'd \<Rightarrow> Message result \<times> world \<times> 'd" where
  "CreateMessage os sq tm params s =
     (case s of (w, d) \<Rightarrow>
        (let author = TrimSpace (cm_Author params); subject = TrimSpace (cm_Subject params);
             body = TrimSpace (cm_Body params); author = (if author = '''' then ''anonymous'' else author)
         in if subject = '''' then (Inl (errorf ''subject is required''), w, d)
            else if body = '''' then (Inl (errorf ''body is required''), w, d)
            else case now os w of (t, w) \<Rightarrow>
              (let message = \<lparr>msg_ID = 0, msg_Author = author, msg_Subject = subject, msg_Body = body, msg_CreatedAt = t\<rparr>
               in case sq_Exec sq d insertSQL [msg_Author message, msg_Subject message, msg_Body message,
                         tm_Format tm (msg_CreatedAt message)] of
                    (Inl e, d) \<Rightarrow> (Inl (wrap ''insert message: '' e), w, d)
                  | (Inr (Inl e), d) \<Rightarrow> (Inl (wrap ''read inserted id: '' e), w, d)
                  | (Inr (Inr i), d) \<Rightarrow> (Inr (message\<lparr>msg_ID := i\<rparr>), w, d))))"

definition CountMessages :: "'d sqlite_lib \<Rightarrow> 'd \<Rightarrow> int result" where
  "CountMessages sq d = wrapR ''count messages: '' (sq_QueryInt sq d countSQL)"

fun execAll :: "'d sqlite_lib \<Rightarrow> string list \<Rightarrow> 'd \<Rightarrow> go_error option \<times> 'd" where
  "execAll sq [] d = (None, d)"
| "execAll sq (st # sts) d =
     (case sq_Exec sq d st [] of
        (Inl e, d) \<Rightarrow> (Some (wrap ''initialize bbs store: '' e), d)
      | (Inr _, d) \<Rightarrow> execAll sq sts d)"

definition init ::
  "os \<Rightarrow> 'd sqlite_lib \<Rightarrow> time_lib \<Rightarrow> world \<times> 'd \<Rightarrow> go_error option \<times> world \<times> 'd" where
  "init os sq tm s =
     (case s of (w, d) \<Rightarrow>
        (case execAll sq statements d of
           (Some e, d) \<Rightarrow> (Some e, w, d)
         | (None, d) \<Rightarrow>
             (case CountMessages sq d of
                Inl e \<Rightarrow> (Some e, w, d)
              | Inr cnt \<Rightarrow>
                  if 0 < cnt then (None, w, d)
                  else (case CreateMessage os sq tm welcome_params (w, d) of
                          (Inl e, s) \<Rightarrow> (Some e, s)
                        | (Inr _, s) \<Rightarrow> (None, s)))))"

definition Open ::
  "os \<Rightarrow> 'd sqlite_lib \<Rightarrow> time_lib \<Rightarrow> string \<Rightarrow> world \<times> 'd \<Rightarrow> Store result \<times> world \<times> 'd" where
  "Open os sq tm root s =
     (case s of (w, d) \<Rightarrow>
        (case mkdirAll os root 0x1ED w of
           (Some e, w) \<Rightarrow> (Inl (wrap (''create bbs root '' @ root @ '': '') e), w, d)
         | (None, w) \<Rightarrow>
             (let dbPath = PathJoin [root, databaseName]
              in case sq_Open sq d dbPath of
                   (Some e, d) \<Rightarrow> (Inl (wrap (''open sqlite db '' @ dbPath @ '': '') e), w, d)
                 | (None, d) \<Rightarrow>
                     (case init os sq tm (w, d) of
                        (Some e, w, d) \<Rightarrow> (Inl e, w, snd (sq_Close sq d))
                      | (None, w, d) \<Rightarrow> (Inr \<lparr>st_root = root, st_dbPath = dbPath\<rparr>, w, d)))))"

definition Root :: "Store \<Rightarrow> string" where "Root s = st_root s"

definition DBPath :: "Store \<Rightarrow> string" where "DBPath s = st_dbPath s"

definition CloseStore :: "'d sqlite_lib \<Rightarrow> Store option \<Rightarrow> 'd \<Rightarrow> go_error option \<times> 'd" where
  "CloseStore sq s d = (case s of None \<Rightarrow> (None, d) | Some _ \<Rightarrow> sq_Close sq d)"

text \<open>A sequence of requests to a store: the messages made, and the state after them.\<close>

fun creates ::
  "(CreateMessageParams \<Rightarrow> 's \<Rightarrow> Message result \<times> 's) \<Rightarrow> CreateMessageParams list \<Rightarrow> 's \<Rightarrow> Message list \<times> 's" where
  "creates create [] s = ([], s)"
| "creates create (p # ps) s =
     (case create p s of
        (Inl _, s) \<Rightarrow> creates create ps s
      | (Inr m, s) \<Rightarrow> (case creates create ps s of (ms, s) \<Rightarrow> (m # ms, s)))"

text \<open>The message a row stands for.\<close>

definition decode :: "time_lib \<Rightarrow> row \<Rightarrow> Message" where
  "decode tm x = (case x of (i, a, s, b, c) \<Rightarrow>
     \<lparr>msg_ID = i, msg_Author = a, msg_Subject = s, msg_Body = b,
      msg_CreatedAt = (case tm_Parse tm c of Inl _ \<Rightarrow> 0 | Inr t \<Rightarrow> t)\<rparr>)"

section \<open>The Go interface Store\<close>

text \<open>
  What a client of \<^verbatim>\<open>Store\<close> may rely on: \<open>msgs\<close> are the messages held, oldest first. Listing
  gives them newest first or fails; creating adds a message with a fresh id or changes
  nothing.
\<close>

locale message_store =
  fixes list_messages :: "'s \<Rightarrow> (Message list) result"
    and create :: "CreateMessageParams \<Rightarrow> 's \<Rightarrow> Message result \<times> 's"
    and msgs :: "'s \<Rightarrow> Message list"
  assumes list_ok: "list_messages s = Inr ms \<Longrightarrow> ms = rev (msgs s)"
    and create_error: "create p s = (Inl e, s') \<Longrightarrow> msgs s' = msgs s"
    and create_ok: "create p s = (Inr m, s') \<Longrightarrow> msgs s' = msgs s @ [m] \<and> (\<forall>x\<in>set (msgs s). msg_ID x < msg_ID m)"
begin

text \<open>After a sequence of requests the ids in the store are distinct and nothing is lost.\<close>

lemma creates_append: "creates create ps s = (ms, s') \<Longrightarrow> msgs s' = msgs s @ ms"
proof (induction ps arbitrary: s ms)
  case (Cons p ps)
  obtain r t where c: "create p s = (r, t)" by fastforce
  show ?case
  proof (cases r)
    case (Inl e)
    with Cons.prems c have "creates create ps t = (ms, s')" by simp
    from Cons.IH [OF this] create_error [of p s e t] c Inl show ?thesis by simp
  next
    case (Inr m)
    obtain ns u where n: "creates create ps t = (ns, u)" by fastforce
    with Cons.prems c Inr have "ms = m # ns" "u = s'" by auto
    with Cons.IH [of t ns] n create_ok [of p s m t] c Inr show ?thesis by simp
  qed
qed simp

lemma creates_distinct:
  "creates create ps s = (ms, s') \<Longrightarrow> distinct (map msg_ID (msgs s)) \<Longrightarrow> distinct (map msg_ID (msgs s'))"
proof (induction ps arbitrary: s ms)
  case (Cons p ps)
  obtain r t where c: "create p s = (r, t)" by fastforce
  show ?case
  proof (cases r)
    case (Inl e)
    with Cons.prems c have "creates create ps t = (ms, s')" by simp
    with Cons.IH [of t] create_error [of p s e t] c Inl Cons.prems(2) show ?thesis by simp
  next
    case (Inr m)
    obtain ns u where n: "creates create ps t = (ns, u)" by fastforce
    with Cons.prems c Inr have "u = s'" by auto
    have "distinct (map msg_ID (msgs t))" using create_ok [of p s m t] c Inr Cons.prems(2) by fastforce
    with Cons.IH [of t ns] n \<open>u = s'\<close> show ?thesis by simp
  qed
qed simp

end

section \<open>What the store relies on of SQLite\<close>

text \<open>
  \<open>tbl d\<close> are the rows of the table \<^verbatim>\<open>messages\<close> in the order of their primary key. The
  laws are those of the statements the store executes: the pragmas and the \<^verbatim>\<open>IF NOT EXISTS\<close>
  definitions keep the rows; an insert fails and keeps them, or adds one row under a new
  largest key (\<^verbatim>\<open>AUTOINCREMENT\<close>) and reports that key; \<^verbatim>\<open>ORDER BY id DESC\<close> returns the rows in
  descending key order; \<^verbatim>\<open>COUNT\<close> counts them. A time that was written is read back.
\<close>

locale sqlite =
  fixes sq :: "'d sqlite_lib" and tm :: time_lib and tbl :: "'d \<Rightarrow> row list"
  assumes keys_sorted: "sorted_wrt (<) (map fst (tbl d))"
    and open_keeps: "tbl (snd (sq_Open sq d path)) = tbl d"
    and close_keeps: "tbl (snd (sq_Close sq d)) = tbl d"
    and init_keeps: "st \<in> set statements \<Longrightarrow> tbl (snd (sq_Exec sq d st [])) = tbl d"
    and insert_row: "sq_Exec sq d insertSQL [a, s, b, c] = (r, d') \<Longrightarrow>
       (case r of
          Inl e \<Rightarrow> tbl d' = tbl d
        | Inr q \<Rightarrow> \<exists>i. q = Inr i \<and> tbl d' = tbl d @ [(i, a, s, b, c)])"
    and select_rows: "sq_Query sq d listSQL = Inr (rows, err) \<Longrightarrow>
       err = None \<and> (\<exists>rs. rows = map Inr rs \<and> mset rs = mset (tbl d) \<and> sorted_wrt (>) (map fst rs))"
    and count_rows: "sq_QueryInt sq d countSQL = Inr n \<Longrightarrow> n = int (length (tbl d))"
    and time_roundtrip: "tm_Parse tm (tm_Format tm t) = Inr t"
begin

lemma select_rev: 
  assumes "sq_Query sq d listSQL = Inr (rows, err)"
  shows "err = None \<and> rows = map Inr (rev (tbl d))"
proof -
  from select_rows [OF assms] obtain rs where rs: "err = None" "rows = map Inr rs" "mset rs = mset (tbl d)"
      "sorted_wrt (>) (map fst rs)" by blast
  have s: "sorted_wrt (<) (map fst (rev rs))" using rs(4) by (simp add: rev_map [symmetric] sorted_wrt_rev)
  then have "map fst (rev rs) = map fst (tbl d)"
    using keys_sorted [of d] rs(3) by (intro sorted_distinct_set_unique)
      (auto simp: strict_sorted_iff dest: mset_eq_setD)
  moreover have "inj_on fst (set (rev rs) \<union> set (tbl d))"
    using keys_sorted [of d] rs(3) by (auto simp: strict_sorted_iff distinct_map dest: mset_eq_setD)
  ultimately have "rev rs = tbl d" by (metis map_inj_on)
  with rs show ?thesis by (metis rev_swap)
qed

lemma scanRows_ok: "scanRows tm (map Inr rs) = Inr ms \<Longrightarrow> ms = map (decode tm) rs"
proof (induction rs arbitrary: ms)
  case (Cons r rs)
  then show ?case by (cases r) (auto simp: decode_def split: sum.splits)
qed simp

lemma ListMessages_ok: "ListMessages sq tm d = Inr ms \<Longrightarrow> ms = rev (map (decode tm) (tbl d))"
  using select_rev [of d] scanRows_ok
  by (auto simp: ListMessages_def rev_map split: sum.splits option.splits)

lemma CreateMessage_error:
  assumes "CreateMessage os sq tm p (w, d) = (Inl e, w', d')"
  shows "tbl d' = tbl d"
  using assms insert_row
  by (fastforce simp: CreateMessage_def Let_def now_def split: if_splits prod.splits sum.splits)

lemma CreateMessage_ok:
  assumes "CreateMessage os sq tm p (w, d) = (Inr m, w', d')"
  shows "map (decode tm) (tbl d') = map (decode tm) (tbl d) @ [m] \<and> (\<forall>x\<in>set (tbl d). fst x < msg_ID m) \<and>
     msg_CreatedAt m = os_Now os w"
proof -
  let ?a = "if TrimSpace (cm_Author p) = '''' then ''anonymous'' else TrimSpace (cm_Author p)"
  let ?c = "tm_Format tm (os_Now os w)"
  from assms obtain i where
    x: "sq_Exec sq d insertSQL [?a, TrimSpace (cm_Subject p), TrimSpace (cm_Body p), ?c] = (Inr (Inr i), d')"
    and m: "m = \<lparr>msg_ID = i, msg_Author = ?a, msg_Subject = TrimSpace (cm_Subject p),
       msg_Body = TrimSpace (cm_Body p), msg_CreatedAt = os_Now os w\<rparr>"
    by (auto simp: CreateMessage_def Let_def now_def split: if_splits prod.splits sum.splits)
  from insert_row [OF x] have t: "tbl d' = tbl d @ [(i, ?a, TrimSpace (cm_Subject p), TrimSpace (cm_Body p), ?c)]"
    by simp
  moreover have "\<forall>x\<in>set (tbl d). fst x < i"
    using keys_sorted [of d'] unfolding t by (auto simp: sorted_wrt_append)
  ultimately show ?thesis by (simp add: decode_def m time_roundtrip)
qed

lemma execAll_keeps: "set sts \<subseteq> set statements \<Longrightarrow> tbl (snd (execAll sq sts d)) = tbl d"
proof (induction sts arbitrary: d)
  case (Cons st sts)
  then show ?case using init_keeps [of st d] by (auto split: prod.splits sum.splits)
qed simp

end

sublocale sqlite \<subseteq> store: message_store "\<lambda>s. ListMessages sq tm (snd s)" "CreateMessage os sq tm"
  "\<lambda>s. map (decode tm) (tbl (snd s))"
proof
  fix s :: "world \<times> 'd" and ms
  assume "ListMessages sq tm (snd s) = Inr ms"
  then show "ms = rev (map (decode tm) (tbl (snd s)))" by (rule ListMessages_ok)
next
  fix p and s s' :: "world \<times> 'd" and e
  assume "CreateMessage os sq tm p s = (Inl e, s')"
  then show "map (decode tm) (tbl (snd s')) = map (decode tm) (tbl (snd s))"
    using CreateMessage_error [of os p "fst s" "snd s" e "fst s'" "snd s'"] by simp
next
  fix p and s s' :: "world \<times> 'd" and m
  assume "CreateMessage os sq tm p s = (Inr m, s')"
  then show "map (decode tm) (tbl (snd s')) = map (decode tm) (tbl (snd s)) @ [m] \<and>
      (\<forall>x\<in>set (map (decode tm) (tbl (snd s))). msg_ID x < msg_ID m)"
    using CreateMessage_ok [of os p "fst s" "snd s" m "fst s'" "snd s'"] by (fastforce simp: decode_def)
qed

context sqlite
begin

lemma msg_ID_decode: "msg_ID (decode tm x) = fst x"
  by (simp add: decode_def split: prod.split)

lemma history:
  assumes "creates (CreateMessage os sq tm) ps (w, d) = (ms, w', d')"
  shows "map (decode tm) (tbl d') = map (decode tm) (tbl d) @ ms"
  using store.creates_append [OF assms] by simp

lemma history_distinct:
  assumes "creates (CreateMessage os sq tm) ps (w, d) = (ms, w', d')"
  shows "distinct (map msg_ID (map (decode tm) (tbl d')))"
proof -
  have e: "map msg_ID (map (decode tm) (tbl d)) = map fst (tbl d)" by (simp add: msg_ID_decode)
  have "distinct (map msg_ID (map (decode tm) (tbl d)))"
    unfolding e using keys_sorted [of d] by (simp add: strict_sorted_iff)
  then show ?thesis using store.creates_distinct [OF assms] by simp
qed

lemma init_seeds:
  assumes "init os sq tm (w, d) = (r, w', d')"
  shows "tbl d' = tbl d \<or> tbl d = [] \<and> r = None \<and>
     (\<exists>m. map (decode tm) (tbl d') = [m] \<and> msg_Author m = ''system'' \<and> msg_Subject m = cm_Subject welcome_params)"
    and "r = None \<Longrightarrow> tbl d' \<noteq> []"
proof -
  obtain q d1 where x: "execAll sq statements d = (q, d1)" by fastforce
  have k: "tbl d1 = tbl d" using execAll_keeps [of statements d] x by simp
  have t: "TrimSpace (cm_Author welcome_params) = ''system'' \<and> TrimSpace (cm_Subject welcome_params) = cm_Subject welcome_params"
    by code_simp
  obtain cr w2 d2 where cr: "CreateMessage os sq tm welcome_params (w, d1) = (cr, w2, d2)" by (metis prod.exhaust)
  consider (keep) "tbl d' = tbl d" "r = None \<Longrightarrow> tbl d \<noteq> []"
    | (seed) m where "cr = Inr m" "d' = d2" "r = None" "tbl d = []"
  proof (cases q)
    case (Some e)
    with assms x k keep show ?thesis by (auto simp: init_def)
  next
    case None
    show ?thesis
    proof (cases "CountMessages sq d1")
      case (Inl e)
      with assms x k None keep show ?thesis by (auto simp: init_def)
    next
      case (Inr n)
      then have n: "n = int (length (tbl d))"
        using count_rows [of d1] k by (auto simp: CountMessages_def wrapR_def split: sum.splits)
      show ?thesis
      proof (cases "0 < n")
        case True
        with assms x k None Inr n keep show ?thesis by (auto simp: init_def)
      next
        case False
        then have "tbl d = []" using n by simp
        with assms x None Inr False cr keep seed CreateMessage_error [of os welcome_params w d1] k show ?thesis
          by (cases cr) (auto simp: init_def)
      qed
    qed
  qed
  note c = this
  show "tbl d' = tbl d \<or> tbl d = [] \<and> r = None \<and>
     (\<exists>m. map (decode tm) (tbl d') = [m] \<and> msg_Author m = ''system'' \<and> msg_Subject m = cm_Subject welcome_params)"
    using c
  proof cases
    case (seed m)
    then have "CreateMessage os sq tm welcome_params (w, d1) = (Inr m, w2, d')" using cr by simp
    from CreateMessage_ok [OF this] k seed this t show ?thesis
      by (auto simp: CreateMessage_def Let_def now_def split: if_splits prod.splits sum.splits)
  qed simp
  show "tbl d' \<noteq> []" if "r = None"
    using c
  proof cases
    case (seed m)
    then have "CreateMessage os sq tm welcome_params (w, d1) = (Inr m, w2, d')" using cr by simp
    from CreateMessage_ok [OF this] show ?thesis by auto
  qed (use that in simp)
qed

lemma Open_seeds:
  assumes "Open os sq tm root (w, d) = (r, w', d')"
  shows "tbl d' = tbl d \<or> tbl d = [] \<and>
     (\<exists>m. map (decode tm) (tbl d') = [m] \<and> msg_Author m = ''system'' \<and> msg_Subject m = cm_Subject welcome_params)"
    and "r = Inr st \<Longrightarrow> tbl d' \<noteq> []"
proof -
  obtain q d1 where o: "sq_Open sq d (PathJoin [root, databaseName]) = (q, d1)" by fastforce
  have k: "tbl d1 = tbl d" using open_keeps [of d "PathJoin [root, databaseName]"] o by simp
  let ?w = "w @ [MkdirAll root 0x1ED]"
  obtain e w2 d2 where i: "init os sq tm (?w, d1) = (e, w2, d2)" by (metis prod.exhaust)
  note sd = init_seeds [OF i]
  have a: "d' = d \<or> d' = d1 \<or> d' = d2 \<or> d' = snd (sq_Close sq d2)"
    using assms o i by (auto simp: Open_def call_defs Let_def split: option.splits)
  then show "tbl d' = tbl d \<or> tbl d = [] \<and>
     (\<exists>m. map (decode tm) (tbl d') = [m] \<and> msg_Author m = ''system'' \<and> msg_Subject m = cm_Subject welcome_params)"
    using sd(1) k close_keeps [of d2] by auto
  show "tbl d' \<noteq> []" if "r = Inr st"
    using that assms o i sd(2) by (auto simp: Open_def call_defs Let_def split: option.splits)
qed

end

section \<open>A reference engine\<close>

text \<open>
  The laws hold of a table kept as a list of rows: the engine below executes exactly the
  statements of the store, numbering rows from the last key on.
\<close>

definition next_key :: "row list \<Rightarrow> int" where
  "next_key d = (if d = [] then 1 else fst (last d) + 1)"

typedef keyed_table = "{d :: row list. sorted_wrt (<) (map fst d)}"
  by (intro exI [of _ "[]"]) simp

setup_lifting type_definition_keyed_table

lift_definition rows_of :: "keyed_table \<Rightarrow> row list" is "\<lambda>d. d" .

lemma last_key:
  assumes "sorted_wrt (<) (map fst d)" "x \<in> set (d :: row list)"
  shows "fst x \<le> fst (last d)"
proof -
  have "d \<noteq> []" using assms(2) by auto
  then have "d = butlast d @ [last d]" by simp
  then have "x \<in> set (butlast d) \<or> x = last d" using assms(2) by (metis Un_iff set_append set_ConsD empty_iff list.set(1))
  moreover have "sorted_wrt (<) (map fst (butlast d) @ [fst (last d)])"
    using assms(1) \<open>d = _\<close> by (metis list.simps(8,9) map_append)
  ultimately show ?thesis by (auto simp: sorted_wrt_append)
qed

lemma next_key_sorted: "sorted_wrt (<) (map fst d) \<Longrightarrow> sorted_wrt (<) (map fst (d @ [(next_key d, v)]))"
  using last_key [of d] by (fastforce simp: sorted_wrt_append next_key_def)

lift_definition add_row :: "string \<times> string \<times> string \<times> string \<Rightarrow> keyed_table \<Rightarrow> keyed_table" is
  "\<lambda>v d. d @ [(next_key d, v)]"
  by (rule next_key_sorted)

lift_definition empty_table :: keyed_table is "[]"
  by simp

definition mem_Exec :: "keyed_table \<Rightarrow> string \<Rightarrow> string list \<Rightarrow> (int result) result \<times> keyed_table" where
  "mem_Exec d st args =
     (case args of
        [a, s, b, c] \<Rightarrow> if st = insertSQL then (Inr (Inr (next_key (rows_of d))), add_row (a, s, b, c) d)
                        else (Inl (errorf ''unknown statement''), d)
      | _ \<Rightarrow> (Inr (Inr 0), d))"

definition mem_sql :: "keyed_table sqlite_lib" where
  "mem_sql = \<lparr>sq_Open = \<lambda>d _. (None, d), sq_Close = \<lambda>d. (None, d), sq_Exec = mem_Exec,
     sq_Query = \<lambda>d _. Inr (map Inr (rev (rows_of d)), None), sq_QueryInt = \<lambda>d _. Inr (int (length (rows_of d)))\<rparr>"

definition mem_time :: time_lib where
  "mem_time = \<lparr>tm_Format = Itoa,
     tm_Parse = \<lambda>s. case digits_val 10 0 (if HasPrefix s ''-'' then tl s else s) of
       None \<Rightarrow> Inl (errorf ''time'') | Some n \<Rightarrow> Inr (if HasPrefix s ''-'' then - int n else int n)\<rparr>"

lemma mem_time_roundtrip: "tm_Parse mem_time (tm_Format mem_time t) = Inr t"
proof (cases "t < 0")
  case True
  then show ?thesis by (simp add: mem_time_def Itoa_def HasPrefix_def digits_val_digits)
next
  case False
  have "\<not> HasPrefix (digits 10 (nat t)) ''-''"
    using hd_digits [of 10 "nat t"] by (cases "digits 10 (nat t)") (auto simp: HasPrefix_iff dest: digit_char_not_sign)
  with False show ?thesis by (simp add: mem_time_def Itoa_def digits_val_digits)
qed

interpretation mem: sqlite mem_sql mem_time rows_of
proof
  fix d :: keyed_table
  show "sorted_wrt (<) (map fst (rows_of d))" by transfer simp
next
  fix d :: keyed_table and st
  assume "st \<in> set statements"
  show "rows_of (snd (sq_Exec mem_sql d st [])) = rows_of d" by (simp add: mem_sql_def mem_Exec_def)
next
  fix a s b c r and d d' :: keyed_table
  assume "sq_Exec mem_sql d insertSQL [a, s, b, c] = (r, d')"
  then have "r = Inr (Inr (next_key (rows_of d)))" "d' = add_row (a, s, b, c) d" by (simp_all add: mem_sql_def mem_Exec_def)
  then show "case r of Inl e \<Rightarrow> rows_of d' = rows_of d
      | Inr q \<Rightarrow> \<exists>i. q = Inr i \<and> rows_of d' = rows_of d @ [(i, a, s, b, c)]" by (simp add: add_row.rep_eq rows_of.rep_eq)
next
  fix rows err and d :: keyed_table
  assume "sq_Query mem_sql d listSQL = Inr (rows, err)"
  then have "err = None" "rows = map Inr (rev (rows_of d))" by (auto simp: mem_sql_def)
  moreover have "sorted_wrt (>) (map fst (rev (rows_of d)))"
    by (simp add: rev_map [symmetric] sorted_wrt_rev) (transfer, simp)
  ultimately show "err = None \<and> (\<exists>rs. rows = map Inr rs \<and> mset rs = mset (rows_of d) \<and> sorted_wrt (>) (map fst rs))"
    by (metis mset_rev)
qed (simp_all add: mem_sql_def mem_time_roundtrip)

section \<open>Properties\<close>


text \<open>
  \<^verbatim>\<open>CreateMessage\<close> rejects a blank subject, then a blank body, before it touches the
  clock or the database; no failure of it changes the messages.
\<close>

theorem store_create_errors:
  assumes "sqlite sq tm tbl"
  shows "(TrimSpace (cm_Subject p) = '''' \<longrightarrow>
       CreateMessage os sq tm p (w, d) = (Inl (errorf ''subject is required''), w, d)) \<and>
     (TrimSpace (cm_Subject p) \<noteq> '''' \<and> TrimSpace (cm_Body p) = '''' \<longrightarrow>
       CreateMessage os sq tm p (w, d) = (Inl (errorf ''body is required''), w, d)) \<and>
     (\<forall>e w' d'. CreateMessage os sq tm p (w, d) = (Inl e, w', d') \<longrightarrow> tbl d' = tbl d)"
  using sqlite.CreateMessage_error [OF assms] by (auto simp: CreateMessage_def Let_def)


text \<open>
  C13. \<^verbatim>\<open>Open\<close> never changes or removes existing messages: it adds the welcome message of
  \<^verbatim>\<open>system\<close> to an empty board and nothing to any other, so opening a store again adds nothing.
  A store that opened is never empty.
\<close>

theorem store_open_seeds:
  assumes "sqlite sq tm tbl" and "Open os sq tm root (w, d) = (r, w', d')"
  shows "(tbl d' = tbl d \<or> tbl d = [] \<and> (\<exists>m. map (decode tm) (tbl d') = [m] \<and> msg_Author m = ''system'' \<and>
       msg_Subject m = cm_Subject welcome_params)) \<and>
     (\<forall>st. r = Inr st \<longrightarrow> tbl d' \<noteq> [] \<and> Root st = root \<and> DBPath st = PathJoin [root, databaseName])"
proof -
  have "r = Inr st \<Longrightarrow> Root st = root \<and> DBPath st = PathJoin [root, databaseName]" for st
    using assms(2) by (auto simp: Open_def Let_def Root_def DBPath_def split: prod.splits option.splits)
  with sqlite.Open_seeds [OF assms] show ?thesis by blast
qed

section \<open>Instances\<close>

definition post1 :: CreateMessageParams where
  "post1 = \<lparr>cm_Author = '' '', cm_Subject = ''s '', cm_Body = ''b''\<rparr>"

definition message1 :: Message where
  "message1 = \<lparr>msg_ID = 1, msg_Author = ''anonymous'', msg_Subject = ''s'', msg_Body = ''b'', msg_CreatedAt = 0\<rparr>"

definition board1 :: keyed_table where
  "board1 = add_row (''anonymous'', ''s'', ''b'', Itoa 0) empty_table"

lemma rows_board1: "rows_of empty_table = []" "rows_of board1 = [(1, ''anonymous'', ''s'', ''b'', Itoa 0)]"
  by (simp_all add: board1_def rows_of.rep_eq add_row.rep_eq empty_table.rep_eq next_key_def)

lemma now_good: "os_Now good_os [] = 0"
  by (simp add: good_os_def)

lemma post1_create: "CreateMessage good_os mem_sql mem_time post1 ([], empty_table) = (Inr message1, [Now], board1)"
proof -
  have "TrimSpace '' '' = ''''" "TrimSpace ''s '' = ''s''" "TrimSpace ''b'' = ''b''" by code_simp+
  then show ?thesis
    by (simp add: CreateMessage_def post1_def Let_def now_def now_good mem_sql_def mem_Exec_def rows_board1
        next_key_def message1_def board1_def mem_time_def)
qed

lemma boards_list: "ListMessages mem_sql mem_time empty_table = Inr []" "ListMessages mem_sql mem_time board1 = Inr [message1]"
  using mem_time_roundtrip [of 0]
  by (simp_all add: ListMessages_def mem_sql_def rows_board1 message1_def mem_time_def)


theorem store_create_errors_witness:
  "CreateMessage good_os mem_sql mem_time (post1\<lparr>cm_Subject := ''''\<rparr>) ([], board1) = (Inl (errorf ''subject is required''), [], board1)"
  using store_create_errors [OF mem.sqlite_axioms, of "post1\<lparr>cm_Subject := ''''\<rparr>"] by simp


theorem store_open_seeds_witness:
  "\<exists>r w' d'. Open good_os mem_sql mem_time ''/b'' ([], empty_table) = (r, w', d') \<and>
     (rows_of d' = [] \<or> (\<exists>m. map (decode mem_time) (rows_of d') = [m] \<and> msg_Author m = ''system''))"
proof -
  obtain r w' d' where o: "Open good_os mem_sql mem_time ''/b'' ([], empty_table) = (r, w', d')" by (metis prod.exhaust)
  from store_open_seeds [OF mem.sqlite_axioms o] o show ?thesis by (auto simp: rows_board1)
qed

end
