(* ===== verification/BBSApp.thy ===== *)
theory BBSApp
  imports BBSStore
begin

text \<open>
  The package \<^verbatim>\<open>internal/bbsapp\<close>: the Bubble Tea model of the board. Widgets and the two child
  surfaces are third-party state of a type left open, with the record \<open>ui_lib\<close> of what the
  model calls on them. A command is data; the Bubble Tea runtime, which executes commands
  concurrently and delivers their results in any order, is a step relation over the model,
  the store, the commands under way and the results not yet delivered. A
  \<^verbatim>\<open>lipgloss\<close> style is the list of its attributes; rendering and joining of blocks are the
  functions of \<open>lip_lib\<close>.
\<close>

section \<open>Data\<close>

datatype mode = modeBrowse | modeCompose | modeREPL | modeChat

datatype msg = WindowSizeMsg int int | messagesLoadedMsg "(Message list) result"
  | messageCreatedMsg "Message result" | KeyMsg string | OtherMsg nat

datatype cmd = NoCmd | Quit | loadMessagesCmd | createMessageCmd CreateMessageParams | ChildCmd nat | Batch "cmd list"

record 'u ui_lib =
  ui_NewInput :: "string \<Rightarrow> string \<Rightarrow> int \<Rightarrow> 'u"
  ui_NewArea :: "string \<Rightarrow> 'u"
  ui_Value :: "'u \<Rightarrow> string"
  ui_SetValue :: "string \<Rightarrow> 'u \<Rightarrow> 'u"
  ui_Focus :: "'u \<Rightarrow> 'u"
  ui_Blur :: "'u \<Rightarrow> 'u"
  ui_SetWidth :: "int \<Rightarrow> 'u \<Rightarrow> 'u"
  ui_SetHeight :: "int \<Rightarrow> 'u \<Rightarrow> 'u"
  ui_Update :: "msg \<Rightarrow> 'u \<Rightarrow> 'u \<times> cmd"
  ui_Init :: "'u \<Rightarrow> cmd"
  ui_View :: "'u \<Rightarrow> string"

record Options =
  op_Title :: string
  op_Subtitle :: string
  op_StateRoot :: string
  op_ChatStateRoot :: string
  op_DefaultAuthor :: string

record 'u Model =
  bm_chat :: "'u option"
  bm_chatErr :: "go_error option"
  bm_repl :: "'u option"
  bm_title :: string
  bm_subtitle :: string
  bm_stateRoot :: string
  bm_mode :: mode
  bm_messages :: "Message list"
  bm_cursor :: int
  bm_width :: int
  bm_height :: int
  bm_status :: string
  bm_lastRefreshed :: string
  bm_author :: 'u
  bm_subject :: 'u
  bm_body :: 'u
  bm_focusIndex :: nat

section \<open>Operations\<close>

definition fallback :: "string \<Rightarrow> string \<Rightarrow> string" where
  "fallback value alternate = (if TrimSpace value = '''' then alternate else value)"

definition max_int :: "int \<Rightarrow> int \<Rightarrow> int" where
  "max_int a b = (if b < a then a else b)"

definition applyFocus :: "'u ui_lib \<Rightarrow> 'u Model \<Rightarrow> 'u Model" where
  "applyFocus ui m =
     (let m = m\<lparr>bm_author := ui_Blur ui (bm_author m), bm_subject := ui_Blur ui (bm_subject m),
                bm_body := ui_Blur ui (bm_body m)\<rparr>
      in if bm_focusIndex m = 0 then m\<lparr>bm_author := ui_Focus ui (bm_author m)\<rparr>
         else if bm_focusIndex m = 1 then m\<lparr>bm_subject := ui_Focus ui (bm_subject m)\<rparr>
         else if bm_focusIndex m = 2 then m\<lparr>bm_body := ui_Focus ui (bm_body m)\<rparr>
         else m)"

definition resetComposer :: "'u ui_lib \<Rightarrow> 'u Model \<Rightarrow> 'u Model" where
  "resetComposer ui m =
     applyFocus ui (m\<lparr>bm_focusIndex := 0, bm_subject := ui_SetValue ui '''' (bm_subject m),
                      bm_body := ui_SetValue ui '''' (bm_body m)\<rparr>)"

text \<open>\<^verbatim>\<open>New\<close>, given what the constructors of the two child surfaces return.\<close>

definition New :: "'u ui_lib \<Rightarrow> 'u result \<Rightarrow> 'u result \<Rightarrow> Options \<Rightarrow> ('u Model) result" where
  "New ui replNew chatNew options =
     (let author = ui_SetValue ui (TrimSpace (op_DefaultAuthor options)) (ui_NewInput ui ''author> '' ''anonymous'' 48);
          subject = ui_NewInput ui ''subject> '' ''post subject'' 96;
          body = ui_SetHeight ui 10 (ui_Focus ui (ui_NewArea ui ''Write a message. Ctrl+S saves, Esc cancels.''))
      in case replNew of
           Inl e \<Rightarrow> Inl (wrap ''create javascript repl: '' e)
         | Inr repl \<Rightarrow>
             Inr (applyFocus ui
               \<lparr>bm_chat = (case chatNew of Inl _ \<Rightarrow> None | Inr c \<Rightarrow> Some c),
                bm_chatErr = (case chatNew of Inl e \<Rightarrow> Some e | Inr _ \<Rightarrow> None),
                bm_repl = Some repl, bm_title = fallback (op_Title options) ''qemu-go-init bbs'',
                bm_subtitle = fallback (op_Subtitle options) ''Shared-state Bubble Tea board'',
                bm_stateRoot = op_StateRoot options, bm_mode = modeBrowse, bm_messages = [], bm_cursor = 0,
                bm_width = 0, bm_height = 0, bm_status = ''Loading messages...'', bm_lastRefreshed = ''never'',
                bm_author = author, bm_subject = subject, bm_body = body, bm_focusIndex = 0\<rparr>))"

definition Init :: "'u ui_lib \<Rightarrow> 'u Model \<Rightarrow> cmd" where
  "Init ui m =
     Batch ([loadMessagesCmd] @ (case bm_repl m of None \<Rightarrow> [] | Some r \<Rightarrow> [ui_Init ui r]) @
            (case bm_chat m of None \<Rightarrow> [] | Some c \<Rightarrow> [ui_Init ui c]))"

definition updateREPLChild :: "'u ui_lib \<Rightarrow> msg \<Rightarrow> 'u Model \<Rightarrow> 'u Model \<times> cmd" where
  "updateREPLChild ui x m =
     (case bm_repl m of
        None \<Rightarrow> (m, NoCmd)
      | Some r \<Rightarrow> (case ui_Update ui x r of (r, c) \<Rightarrow> (m\<lparr>bm_repl := Some r\<rparr>, c)))"

definition updateChatChild :: "'u ui_lib \<Rightarrow> msg \<Rightarrow> 'u Model \<Rightarrow> 'u Model \<times> cmd" where
  "updateChatChild ui x m =
     (case bm_chat m of
        None \<Rightarrow> (m, NoCmd)
      | Some r \<Rightarrow> (case ui_Update ui x r of (r, c) \<Rightarrow> (m\<lparr>bm_chat := Some r\<rparr>, c)))"

definition updateComposeWidgets :: "'u ui_lib \<Rightarrow> msg \<Rightarrow> 'u Model \<Rightarrow> 'u Model \<times> cmd" where
  "updateComposeWidgets ui x m =
     (if bm_focusIndex m = 0 then (case ui_Update ui x (bm_author m) of (u, c) \<Rightarrow> (m\<lparr>bm_author := u\<rparr>, Batch [c]))
      else if bm_focusIndex m = 1 then (case ui_Update ui x (bm_subject m) of (u, c) \<Rightarrow> (m\<lparr>bm_subject := u\<rparr>, Batch [c]))
      else if bm_focusIndex m = 2 then (case ui_Update ui x (bm_body m) of (u, c) \<Rightarrow> (m\<lparr>bm_body := u\<rparr>, Batch [c]))
      else (m, Batch []))"

definition updateBrowse :: "'u ui_lib \<Rightarrow> string \<Rightarrow> 'u Model \<Rightarrow> 'u Model \<times> cmd" where
  "updateBrowse ui key m =
     (if List.member [''ctrl+c'', ''q''] key then (m, Quit)
      else if List.member [''up'', ''k''] key
      then (if 0 < bm_cursor m then m\<lparr>bm_cursor := bm_cursor m - 1\<rparr> else m, NoCmd)
      else if List.member [''down'', ''j''] key
      then (if bm_cursor m < int (length (bm_messages m)) - 1 then m\<lparr>bm_cursor := bm_cursor m + 1\<rparr> else m, NoCmd)
      else if key = ''n''
      then (applyFocus ui (m\<lparr>bm_mode := modeCompose, bm_status := ''Compose a new message''\<rparr>), NoCmd)
      else if key = ''x''
      then (m\<lparr>bm_mode := modeREPL, bm_status := ''Entered JavaScript REPL''\<rparr>, NoCmd)
      else if key = ''c''
      then (case bm_chat m of
              None \<Rightarrow> (m\<lparr>bm_status := (case bm_chatErr m of Some e \<Rightarrow> ''AI chat unavailable: '' @ err_text e
                                      | None \<Rightarrow> ''AI chat unavailable'')\<rparr>, NoCmd)
            | Some _ \<Rightarrow> (m\<lparr>bm_mode := modeChat, bm_status := ''Entered AI chat''\<rparr>, NoCmd))
      else if key = ''r'' then (m\<lparr>bm_status := ''Reloading messages...''\<rparr>, loadMessagesCmd)
      else (m, NoCmd))"

definition updateCompose :: "'u ui_lib \<Rightarrow> string \<Rightarrow> 'u Model \<Rightarrow> 'u Model \<times> cmd" where
  "updateCompose ui key m =
     (if key = ''ctrl+c'' then (m, Quit)
      else if key = ''esc''
      then (resetComposer ui (m\<lparr>bm_mode := modeBrowse, bm_status := ''Compose cancelled''\<rparr>), NoCmd)
      else if List.member [''tab'', ''shift+tab''] key
      then (applyFocus ui (if key = ''tab'' then m\<lparr>bm_focusIndex := (bm_focusIndex m + 1) mod 3\<rparr>
                           else m\<lparr>bm_focusIndex := (bm_focusIndex m + 2) mod 3\<rparr>), NoCmd)
      else if key = ''ctrl+s''
      then (m\<lparr>bm_status := ''Saving message...''\<rparr>,
            createMessageCmd \<lparr>cm_Author = ui_Value ui (bm_author m), cm_Subject = ui_Value ui (bm_subject m),
                              cm_Body = ui_Value ui (bm_body m)\<rparr>)
      else updateComposeWidgets ui (KeyMsg key) m)"

definition updateREPL :: "'u ui_lib \<Rightarrow> msg \<Rightarrow> 'u Model \<Rightarrow> 'u Model \<times> cmd" where
  "updateREPL ui x m =
     (if x = KeyMsg ''ctrl+b''
      then (m\<lparr>bm_mode := modeBrowse, bm_status := ''Returned from JavaScript REPL''\<rparr>, NoCmd)
      else updateREPLChild ui x m)"

definition updateChat :: "'u ui_lib \<Rightarrow> msg \<Rightarrow> 'u Model \<Rightarrow> 'u Model \<times> cmd" where
  "updateChat ui x m =
     (if x = KeyMsg ''ctrl+b''
      then (m\<lparr>bm_mode := modeBrowse, bm_status := ''Returned from AI chat''\<rparr>, NoCmd)
      else updateChatChild ui x m)"

text \<open>\<^verbatim>\<open>Update\<close>; \<open>ts\<close> is the text of the current time.\<close>

definition Update :: "'u ui_lib \<Rightarrow> string \<Rightarrow> msg \<Rightarrow> 'u Model \<Rightarrow> 'u Model \<times> cmd" where
  "Update ui ts x m =
     (case x of
        WindowSizeMsg width height \<Rightarrow>
          (let m = m\<lparr>bm_width := width, bm_height := height,
                 bm_body := ui_SetHeight ui (max_int 8 (height - 16)) (ui_SetWidth ui (max_int 24 (width - 12)) (bm_body m))\<rparr>
           in case updateREPLChild ui x m of (m, c1) \<Rightarrow> (case updateChatChild ui x m of (m, c2) \<Rightarrow> (m, Batch [c1, c2])))
      | messagesLoadedMsg r \<Rightarrow>
          (case r of
             Inl e \<Rightarrow> (m\<lparr>bm_status := ''reload failed: '' @ err_text e\<rparr>, NoCmd)
           | Inr ms \<Rightarrow>
               (let m = m\<lparr>bm_messages := ms\<rparr>;
                    m = (if int (length (bm_messages m)) \<le> bm_cursor m
                         then m\<lparr>bm_cursor := max_int 0 (int (length (bm_messages m)) - 1)\<rparr> else m)
                in (m\<lparr>bm_lastRefreshed := ts, bm_status := ''Loaded '' @ Itoa (int (length (bm_messages m))) @ '' messages''\<rparr>, NoCmd)))
      | messageCreatedMsg r \<Rightarrow>
          (case r of
             Inl e \<Rightarrow> (m\<lparr>bm_status := ''save failed: '' @ err_text e\<rparr>, NoCmd)
           | Inr message \<Rightarrow>
               (resetComposer ui (m\<lparr>bm_messages := message # bm_messages m, bm_cursor := 0, bm_status := ''Message posted'',
                    bm_lastRefreshed := ts, bm_mode := modeBrowse\<rparr>), NoCmd))
      | KeyMsg key \<Rightarrow>
          (if bm_mode m = modeCompose then updateCompose ui key m
           else if bm_mode m = modeREPL then updateREPL ui x m
           else if bm_mode m = modeChat then updateChat ui x m
           else updateBrowse ui key m)
      | OtherMsg _ \<Rightarrow>
          (if bm_mode m = modeCompose then updateComposeWidgets ui x m
           else if bm_mode m = modeREPL then updateREPL ui x m
           else if bm_mode m = modeChat then updateChat ui x m
           else (m, NoCmd)))"

definition selectedMessage :: "'u Model \<Rightarrow> Message option" where
  "selectedMessage m =
     (if bm_messages m = [] \<or> bm_cursor m < 0 \<or> int (length (bm_messages m)) \<le> bm_cursor m then None
      else Some (bm_messages m ! nat (bm_cursor m)))"

text \<open>\<^verbatim>\<open>Close\<close>: both children are closed, the first error is returned.\<close>

definition CloseModel :: "('u \<Rightarrow> go_error option) \<Rightarrow> ('u \<Rightarrow> go_error option) \<Rightarrow> 'u Model option \<Rightarrow> go_error option" where
  "CloseModel closeRepl closeChat model =
     (case model of None \<Rightarrow> None
      | Some m \<Rightarrow>
          (let err = (case bm_repl m of None \<Rightarrow> None | Some r \<Rightarrow> closeRepl r)
           in case bm_chat m of None \<Rightarrow> err
              | Some c \<Rightarrow> (case closeChat c of Some e \<Rightarrow> (if err = None then Some e else err) | None \<Rightarrow> err)))"

section \<open>Views\<close>

datatype attr = Bold | Foreground string | Background string | NormalBorder | RoundedBorder | BorderBottom | BorderTop
  | BorderLeft | Padding int int | PaddingAll int | PaddingLeft int | PaddingRight int | Width int

record lip_lib =
  lip_Render :: "attr list \<Rightarrow> string \<Rightarrow> string"
  lip_Vertical :: "string list \<Rightarrow> string"
  lip_Horizontal :: "string list \<Rightarrow> string"

definition bullet :: string where "bullet = [CHR 0xE2, CHR 0x80, CHR 0xA2]"

text \<open>\<open>localTime\<close> is \<^verbatim>\<open>Local().Format("2006-01-02 15:04")\<close>.\<close>

definition compactMeta :: "(int \<Rightarrow> string) \<Rightarrow> Message \<Rightarrow> string" where
  "compactMeta localTime message = msg_Author message @ '' '' @ bullet @ '' '' @ localTime (msg_CreatedAt message)"

definition headerView :: "lip_lib \<Rightarrow> 'u Model \<Rightarrow> string" where
  "headerView lip m =
     (let title = lip_Render lip [Bold, Foreground ''12''] (bm_title m);
          subtitle = lip_Render lip [Foreground ''8''] (bm_subtitle m);
          meta = lip_Render lip [Foreground ''10''] (''state root: '' @ fallback (bm_stateRoot m) ''unknown'')
      in lip_Render lip [NormalBorder, BorderBottom, Padding 0 1] (lip_Vertical lip [title, subtitle, meta]))"

fun browseRows :: "lip_lib \<Rightarrow> (int \<Rightarrow> string) \<Rightarrow> int \<Rightarrow> int \<Rightarrow> Message list \<Rightarrow> string list" where
  "browseRows lip localTime cursor i [] = []"
| "browseRows lip localTime cursor i (message # rest) =
     (let prefix = (if i = cursor then ''> '' else ''  '');
          style = (if i = cursor then [Padding 0 1, Foreground ''230'', Background ''24''] else [Padding 0 1])
      in lip_Render lip style (prefix @ msg_Subject message @ LF @ ''   '' @ compactMeta localTime message)) #
     browseRows lip localTime cursor (i + 1) rest"

text \<open>Division by three as Go has it, towards zero.\<close>

definition third :: "int \<Rightarrow> int" where
  "third n = (if n < 0 then - (- n div 3) else n div 3)"

definition browseView :: "lip_lib \<Rightarrow> (int \<Rightarrow> string) \<Rightarrow> 'u Model \<Rightarrow> string" where
  "browseView lip localTime m =
     (let listWidth = max_int 28 (third (bm_width m)); detailWidth = max_int 36 (bm_width m - listWidth - 4);
          rows = browseRows lip localTime (bm_cursor m) 0 (bm_messages m);
          rows = (if rows = [] then [''No messages yet.''] else rows);
          detail = (case selectedMessage m of
                      None \<Rightarrow> ''Select a message.''
                    | Some selected \<Rightarrow>
                        lip_Vertical lip [lip_Render lip [Bold] (msg_Subject selected),
                          lip_Render lip [Foreground ''8''] (compactMeta localTime selected), '''', msg_Body selected]);
          left = lip_Render lip [Width listWidth, PaddingRight 1] (Join LF rows);
          right = lip_Render lip [Width detailWidth, BorderLeft, PaddingLeft 1] detail
      in lip_Horizontal lip [left, right])"

definition composeView :: "lip_lib \<Rightarrow> 'u ui_lib \<Rightarrow> 'u Model \<Rightarrow> string" where
  "composeView lip ui m =
     (let hint = lip_Render lip [Foreground ''8''] ''Tab to move focus. Ctrl+S saves. Esc cancels.''
      in lip_Render lip [RoundedBorder, PaddingAll 1]
           (lip_Vertical lip [lip_Render lip [Bold] ''New message'', hint, '''', ui_View ui (bm_author m),
              ui_View ui (bm_subject m), ui_View ui (bm_body m)]))"

definition footerView :: "lip_lib \<Rightarrow> 'u Model \<Rightarrow> string" where
  "footerView lip m =
     (let keys = ''browse: j/k move, n new, x js repl, c ai chat, r reload, q quit'';
          keys = (if bm_mode m = modeCompose then ''compose: tab focus, ctrl+s save, esc cancel, ctrl+c quit'' else keys);
          keys = (if bm_mode m = modeChat then ''chat: enter send, ctrl+b return, ctrl+c quit'' else keys);
          status = lip_Render lip [Foreground ''11''] (bm_status m);
          refresh = lip_Render lip [Foreground ''8''] (''last refresh: '' @ bm_lastRefreshed m)
      in lip_Render lip [NormalBorder, BorderTop, Padding 0 1] (lip_Vertical lip [status, refresh, keys]))"

definition View :: "lip_lib \<Rightarrow> 'u ui_lib \<Rightarrow> (int \<Rightarrow> string) \<Rightarrow> 'u Model \<Rightarrow> string \<times> 'u Model" where
  "View lip ui localTime m =
     (let m = (if bm_width m = 0 then m\<lparr>bm_width := 100\<rparr> else m);
          m = (if bm_height m = 0 then m\<lparr>bm_height := 32\<rparr> else m);
          header = headerView lip m; footer = footerView lip m
      in if bm_mode m = modeCompose then (lip_Vertical lip [header, composeView lip ui m, footer], m)
         else case (bm_mode m, bm_repl m, bm_chat m) of
                (modeREPL, Some r, _) \<Rightarrow> (ui_View ui r, m)
              | (modeChat, _, Some c) \<Rightarrow> (ui_View ui c, m)
              | _ \<Rightarrow> (lip_Vertical lip [header, browseView lip localTime m, footer], m))"

section \<open>The runtime\<close>

record ('u, 's) app =
  ap_model :: "'u Model"
  ap_store :: 's
  ap_cmds :: "cmd list"
  ap_inbox :: "msg list"

fun flatten_cmd :: "cmd \<Rightarrow> cmd list" where
  "flatten_cmd NoCmd = []"
| "flatten_cmd (Batch cs) = concat (map flatten_cmd cs)"
| "flatten_cmd c = [c]"

definition exec ::
  "('s \<Rightarrow> (Message list) result) \<Rightarrow> (CreateMessageParams \<Rightarrow> 's \<Rightarrow> Message result \<times> 's) \<Rightarrow> cmd \<Rightarrow> 's \<Rightarrow> msg list \<times> 's" where
  "exec lst create c s =
     (case c of
        loadMessagesCmd \<Rightarrow> ([messagesLoadedMsg (lst s)], s)
      | createMessageCmd p \<Rightarrow> (case create p s of (r, s) \<Rightarrow> ([messageCreatedMsg r], s))
      | ChildCmd n \<Rightarrow> ([OtherMsg n], s)
      | _ \<Rightarrow> ([], s))"

definition handle :: "'u ui_lib \<Rightarrow> string \<Rightarrow> msg \<Rightarrow> ('u, 's) app \<Rightarrow> ('u, 's) app" where
  "handle ui ts x a =
     (case Update ui ts x (ap_model a) of (m, c) \<Rightarrow> a\<lparr>ap_model := m, ap_cmds := ap_cmds a @ flatten_cmd c\<rparr>)"

inductive app_step ::
  "'u ui_lib \<Rightarrow> ('s \<Rightarrow> (Message list) result) \<Rightarrow> (CreateMessageParams \<Rightarrow> 's \<Rightarrow> Message result \<times> 's) \<Rightarrow>
   ('u, 's) app \<Rightarrow> ('u, 's) app \<Rightarrow> bool"
  for ui lst create where
  user: "app_step ui lst create a (handle ui ts (KeyMsg key) a)"
| resize: "app_step ui lst create a (handle ui ts (WindowSizeMsg width height) a)"
| run: "app_step ui lst create a (a\<lparr>ap_cmds := remove1 c (ap_cmds a), ap_store := s', ap_inbox := ap_inbox a @ ms\<rparr>)"
    if "c \<in> set (ap_cmds a)" "exec lst create c (ap_store a) = (ms, s')"
| view: "app_step ui lst create a (a\<lparr>ap_model := snd (View lip ui localTime (ap_model a))\<rparr>)"
| deliver: "app_step ui lst create a (handle ui ts x (a\<lparr>ap_inbox := remove1 x (ap_inbox a)\<rparr>))" if "x \<in> set (ap_inbox a)"
| other_client: "app_step ui lst create a (a\<lparr>ap_store := snd (create p (ap_store a))\<rparr>)"

inductive_cases app_stepE: "app_step ui lst create a b"

section \<open>The invariant of the model\<close>

definition model_ok :: "'u Model \<Rightarrow> bool" where
  "model_ok m = (0 \<le> bm_cursor m \<and> (bm_cursor m < int (length (bm_messages m)) \<or> bm_cursor m = 0 \<and> bm_messages m = []) \<and>
     bm_focusIndex m < 3 \<and> (bm_mode m = modeChat \<longrightarrow> bm_chat m \<noteq> None))"

text \<open>What the widget operations leave alone.\<close>

lemma applyFocus_keeps [simp]:
  "bm_cursor (applyFocus ui m) = bm_cursor m" "bm_messages (applyFocus ui m) = bm_messages m"
  "bm_focusIndex (applyFocus ui m) = bm_focusIndex m" "bm_mode (applyFocus ui m) = bm_mode m"
  "bm_chat (applyFocus ui m) = bm_chat m" "bm_repl (applyFocus ui m) = bm_repl m"
  by (simp_all add: applyFocus_def Let_def)

lemma resetComposer_keeps [simp]:
  "bm_cursor (resetComposer ui m) = bm_cursor m" "bm_messages (resetComposer ui m) = bm_messages m"
  "bm_focusIndex (resetComposer ui m) = 0" "bm_mode (resetComposer ui m) = bm_mode m"
  "bm_chat (resetComposer ui m) = bm_chat m" "bm_repl (resetComposer ui m) = bm_repl m"
  by (simp_all add: resetComposer_def)

lemma updateREPLChild_keeps [simp]:
  "bm_cursor (fst (updateREPLChild ui x m)) = bm_cursor m" "bm_messages (fst (updateREPLChild ui x m)) = bm_messages m"
  "bm_focusIndex (fst (updateREPLChild ui x m)) = bm_focusIndex m" "bm_mode (fst (updateREPLChild ui x m)) = bm_mode m"
  "bm_chat (fst (updateREPLChild ui x m)) = bm_chat m"
  by (simp_all add: updateREPLChild_def split: option.split prod.split)

lemma updateChatChild_keeps [simp]:
  "bm_cursor (fst (updateChatChild ui x m)) = bm_cursor m" "bm_messages (fst (updateChatChild ui x m)) = bm_messages m"
  "bm_focusIndex (fst (updateChatChild ui x m)) = bm_focusIndex m" "bm_mode (fst (updateChatChild ui x m)) = bm_mode m"
  "(bm_chat (fst (updateChatChild ui x m)) = None) = (bm_chat m = None)"
  by (simp_all add: updateChatChild_def split: option.split prod.split)

lemma updateComposeWidgets_keeps [simp]:
  "bm_cursor (fst (updateComposeWidgets ui x m)) = bm_cursor m" "bm_messages (fst (updateComposeWidgets ui x m)) = bm_messages m"
  "bm_focusIndex (fst (updateComposeWidgets ui x m)) = bm_focusIndex m" "bm_mode (fst (updateComposeWidgets ui x m)) = bm_mode m"
  "bm_chat (fst (updateComposeWidgets ui x m)) = bm_chat m"
  by (simp_all add: updateComposeWidgets_def split: prod.split)

lemma updateBrowse_ok: "model_ok m \<Longrightarrow> model_ok (fst (updateBrowse ui key m))"
  by (cases "bm_chat m"; simp add: updateBrowse_def model_ok_def; linarith?)

lemma updateCompose_ok: "model_ok m \<Longrightarrow> model_ok (fst (updateCompose ui key m))"
  by (auto simp: updateCompose_def model_ok_def)

lemma updateREPL_ok: "model_ok m \<Longrightarrow> model_ok (fst (updateREPL ui x m))"
  by (simp add: updateREPL_def model_ok_def)

lemma updateChat_ok: "model_ok m \<Longrightarrow> model_ok (fst (updateChat ui x m))"
  by (simp add: updateChat_def model_ok_def del: not_None_eq)

lemma updateComposeWidgets_ok: "model_ok m \<Longrightarrow> model_ok (fst (updateComposeWidgets ui x m))"
  by (simp add: model_ok_def)

lemma children_ok:
  assumes "model_ok m"
  shows "model_ok (fst (updateChatChild ui x (fst (updateREPLChild ui x m))))"
  using assms by (simp add: model_ok_def del: not_None_eq)

lemmas update_ok = updateBrowse_ok updateCompose_ok updateREPL_ok updateChat_ok updateComposeWidgets_ok

lemma Update_ok:
  assumes "model_ok m"
  shows "model_ok (fst (Update ui ts x m))"
proof (cases x)
  case (WindowSizeMsg width height)
  let ?m = "m\<lparr>bm_width := width, bm_height := height,
     bm_body := ui_SetHeight ui (max_int 8 (height - 16)) (ui_SetWidth ui (max_int 24 (width - 12)) (bm_body m))\<rparr>"
  have "model_ok ?m" using assms by (simp add: model_ok_def)
  from children_ok [OF this, of ui x] show ?thesis
    by (simp add: Update_def WindowSizeMsg Let_def split_beta)
next
  case (messagesLoadedMsg r)
  then show ?thesis using assms by (auto simp: Update_def model_ok_def max_int_def Let_def split: sum.split)
next
  case (messageCreatedMsg r)
  then show ?thesis using assms by (simp add: Update_def model_ok_def split: sum.split)
next
  case (KeyMsg key)
  then show ?thesis using assms by (simp add: Update_def update_ok)
next
  case (OtherMsg n)
  then show ?thesis using assms by (simp add: Update_def update_ok)
qed

lemma handle_model: "ap_model (handle ui ts x a) = fst (Update ui ts x (ap_model a))"
  by (simp add: handle_def split: prod.split)

lemma handle_rest [simp]: "ap_store (handle ui ts x a) = ap_store a" "ap_inbox (handle ui ts x a) = ap_inbox a"
  by (simp_all add: handle_def split: prod.split)



lemma New_ok: "New ui r c options = Inr m \<Longrightarrow> model_ok m"
  by (auto simp: New_def Let_def model_ok_def split: sum.splits)

lemma View_keeps [simp]:
  "bm_cursor (snd (View lip ui lt m)) = bm_cursor m" "bm_messages (snd (View lip ui lt m)) = bm_messages m"
  "bm_focusIndex (snd (View lip ui lt m)) = bm_focusIndex m" "bm_mode (snd (View lip ui lt m)) = bm_mode m"
  "bm_chat (snd (View lip ui lt m)) = bm_chat m"
  by (simp_all add: View_def Let_def split: mode.split option.split)

lemma View_ok: "model_ok m \<Longrightarrow> model_ok (snd (View lip ui lt m))"
  by (simp add: model_ok_def)

lemma app_step_model_ok: "app_step ui lst create a b \<Longrightarrow> model_ok (ap_model a) \<Longrightarrow> model_ok (ap_model b)"
  by (induction rule: app_step.induct) (simp_all add: handle_model Update_ok View_ok)

text \<open>The list has one row per message, and the one under the cursor is drawn as the selected one.\<close>

lemma browseRows_nth:
  assumes "i < length ms"
  shows "browseRows lip lt cursor j ms ! i =
    (let here = (j + int i = cursor); text = msg_Subject (ms ! i) @ LF @ ''   '' @ compactMeta lt (ms ! i)
     in lip_Render lip (if here then [Padding 0 1, Foreground ''230'', Background ''24''] else [Padding 0 1])
          ((if here then ''> '' else ''  '') @ text))"
  using assms
proof (induction ms arbitrary: i j)
  case (Cons m ms)
  show ?case
  proof (cases i)
    case (Suc k)
    with Cons show ?thesis by (simp add: add.assoc)
  qed (simp add: Let_def)
qed simp

lemma browseRows_length: "length (browseRows lip lt cursor j ms) = length ms"
  by (induction ms arbitrary: j) simp_all

text \<open>
  Messages of other kinds reach the surface that is open and no other. In browse mode there is none, so what a surface's
  initial command or a running chat reports then is lost.
\<close>

lemma background_dropped: "bm_mode m = modeBrowse \<Longrightarrow> Update ui ts (OtherMsg n) m = (m, NoCmd)"
  by (simp add: Update_def)

lemma child_result_lost:
  assumes "bm_mode (ap_model a) = modeBrowse" and "ap_inbox a = [OtherMsg n]"
  shows "handle ui ts (OtherMsg n) (a\<lparr>ap_inbox := []\<rparr>) = a\<lparr>ap_inbox := []\<rparr>"
  using assms by (simp add: handle_def background_dropped)

text \<open>
  C15. In every state the board can reach, whatever the keys, the order in which commands finish
  and what the store returns, the cursor points at a message whenever there is one, the focus is on one of the
  three fields, and the chat is open only if there is a chat surface.
\<close>

theorem board_invariant:
  assumes "New ui r c options = Inr (ap_model a)" and "(app_step ui lst create)\<^sup>*\<^sup>* a b"
  shows "(selectedMessage (ap_model b) = None \<longleftrightarrow> bm_messages (ap_model b) = []) \<and> 0 \<le> bm_cursor (ap_model b) \<and>
     bm_focusIndex (ap_model b) < 3 \<and> (bm_mode (ap_model b) = modeChat \<longrightarrow> bm_chat (ap_model b) \<noteq> None)"
proof -
  have "model_ok (ap_model a)" using assms(1) by (rule New_ok)
  with assms(2) have "model_ok (ap_model b)" by (induction rule: rtranclp_induct) (auto dest: app_step_model_ok)
  then show ?thesis by (auto simp: model_ok_def selectedMessage_def)
qed

section \<open>The board and the store\<close>

text \<open>
  The board against the contract of \<^verbatim>\<open>Store\<close>: a message that is shown, or on its way to be
  shown, is one the store holds.
\<close>

fun msg_held :: "Message list \<Rightarrow> msg \<Rightarrow> bool" where
  "msg_held held (messagesLoadedMsg (Inr ms)) = (set ms \<subseteq> set held)"
| "msg_held held (messageCreatedMsg (Inr m)) = (m \<in> set held)"
| "msg_held held x = True"

definition shown_held :: "('s \<Rightarrow> Message list) \<Rightarrow> ('u, 's) app \<Rightarrow> bool" where
  "shown_held msgs a = (set (bm_messages (ap_model a)) \<subseteq> set (msgs (ap_store a)) \<and>
     (\<forall>x\<in>set (ap_inbox a). msg_held (msgs (ap_store a)) x))"

lemma msg_held_mono: "msg_held a x \<Longrightarrow> set a \<subseteq> set b \<Longrightarrow> msg_held b x"
  by (cases "(a, x)" rule: msg_held.cases) auto

lemma Update_messages:
  assumes "msg_held held x" "set (bm_messages m) \<subseteq> set held"
  shows "set (bm_messages (fst (Update ui ts x m))) \<subseteq> set held"
proof (cases x)
  case (KeyMsg key)
  have "bm_messages (fst (updateBrowse ui key m)) = bm_messages m" by (simp add: updateBrowse_def split: option.split)
  moreover have "bm_messages (fst (updateCompose ui key m)) = bm_messages m" by (simp add: updateCompose_def)
  ultimately show ?thesis using KeyMsg assms by (simp add: Update_def updateREPL_def updateChat_def)
next
  case (WindowSizeMsg width height)
  let ?m = "m\<lparr>bm_width := width, bm_height := height,
     bm_body := ui_SetHeight ui (max_int 8 (height - 16)) (ui_SetWidth ui (max_int 24 (width - 12)) (bm_body m))\<rparr>"
  have "bm_messages (fst (updateChatChild ui x (fst (updateREPLChild ui x ?m)))) = bm_messages m" by simp
  then show ?thesis using WindowSizeMsg assms by (simp add: Update_def Let_def split_beta)
next
  case (messagesLoadedMsg r)
  then show ?thesis using assms by (cases r) (auto simp: Update_def Let_def)
next
  case (messageCreatedMsg r)
  then show ?thesis using assms by (cases r) (auto simp: Update_def)
next
  case (OtherMsg n)
  then show ?thesis using assms by (simp add: Update_def updateREPL_def updateChat_def)
qed

context message_store
begin

lemma create_grows: "set (msgs s) \<subseteq> set (msgs (snd (create p s)))"
  using create_error [of p s] create_ok [of p s] by (cases "create p s"; cases "fst (create p s)") auto

lemma exec_held:
  assumes "exec list_messages create c s = (ms, s')"
  shows "set (msgs s) \<subseteq> set (msgs s') \<and> (\<forall>x\<in>set ms. msg_held (msgs s') x)"
proof (cases c)
  case loadMessagesCmd
  then show ?thesis using assms list_ok [of s] by (cases "list_messages s") (auto simp: exec_def)
next
  case (createMessageCmd p)
  obtain r t where "create p s = (r, t)" by fastforce
  with createMessageCmd assms create_ok [of p s] create_error [of p s] show ?thesis
    by (cases r) (auto simp: exec_def)
qed (use assms in \<open>auto simp: exec_def\<close>)

lemma handle_held:
  assumes "msg_held (msgs (ap_store a)) x" "shown_held msgs a"
  shows "shown_held msgs (handle ui ts x a)"
  using assms Update_messages [OF assms(1), of "ap_model a" ui ts] by (simp add: shown_held_def handle_model)

lemma app_step_held:
  assumes "app_step ui list_messages create a b" "shown_held msgs a"
  shows "shown_held msgs b"
  using assms
proof (induction rule: app_step.induct)
  case (run c a ms s')
  from exec_held [OF run(2)] run(3) show ?case
    by (auto simp: shown_held_def intro: msg_held_mono)
next
  case (deliver x a ts)
  let ?a = "a\<lparr>ap_inbox := remove1 x (ap_inbox a)\<rparr>"
  from deliver have "shown_held msgs ?a" by (auto simp: shown_held_def dest: notin_set_remove1)
  with deliver handle_held [of ?a x ui ts] show ?case by (simp add: shown_held_def)
next
  case (other_client a p)
  with create_grows [of "ap_store a" p] show ?case by (auto simp: shown_held_def intro: msg_held_mono)
next
  case (view a lip localTime)
  then show ?case by (simp add: shown_held_def)
qed (simp_all add: handle_held)

lemma app_held: "(app_step ui list_messages create)\<^sup>*\<^sup>* a b \<Longrightarrow> shown_held msgs a \<Longrightarrow> shown_held msgs b"
  by (induction rule: rtranclp_induct) (auto dest: app_step_held)

end

context sqlite
begin

lemma board_held:
  assumes "(app_step ui (\<lambda>s. ListMessages sq tm (snd s)) (CreateMessage os sq tm))\<^sup>*\<^sup>* a b"
    and "bm_messages (ap_model a) = []" "ap_inbox a = []"
  shows "set (bm_messages (ap_model b)) \<subseteq> set (map (decode tm) (tbl (snd (ap_store b))))"
  using store.app_held [OF assms(1)] assms(2,3) by (simp add: shown_held_def)

end

lemma New_empty: "New ui r c options = Inr m \<Longrightarrow> bm_messages m = []"
  by (auto simp: New_def Let_def split: sum.splits)

text \<open>
  C14. The board never shows a message the database does not hold, whatever the user types,
  in whatever order commands finish and however other sessions write to the same database.
\<close>

theorem board_no_phantom:
  assumes "sqlite sq tm tbl" and "New ui r c options = Inr (ap_model a)" and "ap_inbox a = []"
    and "(app_step ui (\<lambda>s. ListMessages sq tm (snd s)) (CreateMessage os sq tm))\<^sup>*\<^sup>* a b"
  shows "set (bm_messages (ap_model b)) \<subseteq> set (map (decode tm) (tbl (snd (ap_store b))))"
proof -
  from New_empty [OF assms(2)] sqlite.board_held [OF assms(1,4) _ assms(3)] show ?thesis by blast
qed

section \<open>The composer\<close>

definition draft :: "'u ui_lib \<Rightarrow> 'u Model \<Rightarrow> CreateMessageParams" where
  "draft ui m = \<lparr>cm_Author = ui_Value ui (bm_author m), cm_Subject = ui_Value ui (bm_subject m), cm_Body = ui_Value ui (bm_body m)\<rparr>"

lemma Update_save:
  "bm_mode m = modeCompose \<Longrightarrow> Update ui ts (KeyMsg ''ctrl+s'') m = (m\<lparr>bm_status := ''Saving message...''\<rparr>, createMessageCmd (draft ui m))"
  by (simp add: Update_def updateCompose_def draft_def)

lemma Update_esc:
  "bm_mode m = modeCompose \<Longrightarrow>
   Update ui ts (KeyMsg ''esc'') m = (resetComposer ui (m\<lparr>bm_mode := modeBrowse, bm_status := ''Compose cancelled''\<rparr>), NoCmd)"
  by (simp add: Update_def updateCompose_def)

lemma Update_reload:
  "bm_mode m = modeBrowse \<Longrightarrow> Update ui ts (KeyMsg ''r'') m = (m\<lparr>bm_status := ''Reloading messages...''\<rparr>, loadMessagesCmd)"
  by (simp add: Update_def updateBrowse_def)

lemma messages_created: "bm_messages (fst (Update ui ts (messageCreatedMsg (Inr x)) m)) = x # bm_messages m"
  by (simp add: Update_def)

lemma messages_loaded: "bm_messages (fst (Update ui ts (messagesLoadedMsg (Inr xs)) m)) = xs"
  by (simp add: Update_def Let_def)


text \<open>
  C40. The result of a save is put on top of whatever list is shown, also of one that was
  loaded after the save and already has the message: a user who saves, leaves the composer and reloads
  while the save is under way can see the message twice, although the database has it once.
\<close>

theorem board_shows_twice:
  fixes a :: "('u, 's) app"
  assumes "bm_mode (ap_model a) = modeCompose" and "create (draft ui (ap_model a)) (ap_store a) = (Inr x, s')"
    and "lst s' = Inr (x # rest)" and "ap_cmds a = []" and "ap_inbox a = []"
  shows "\<exists>b. (app_step ui lst create)\<^sup>*\<^sup>* a b \<and> ap_store b = s' \<and> bm_messages (ap_model b) = x # x # rest"
proof -
  let ?c = "createMessageCmd (draft ui (ap_model a))"
  let ?cr = "messageCreatedMsg (Inr x)" and ?ld = "messagesLoadedMsg (Inr (x # rest))"
  let ?m1 = "(ap_model a)\<lparr>bm_status := ''Saving message...''\<rparr>"
  let ?m2 = "resetComposer ui (?m1\<lparr>bm_mode := modeBrowse, bm_status := ''Compose cancelled''\<rparr>)"
  let ?m3 = "?m2\<lparr>bm_status := ''Reloading messages...''\<rparr>"
  define at :: "'u Model \<Rightarrow> cmd list \<Rightarrow> 's \<Rightarrow> msg list \<Rightarrow> ('u, 's) app" where "at m cs s inb = \<lparr>ap_model = m, ap_store = s, ap_cmds = cs, ap_inbox = inb\<rparr>" for m cs s inb
  note d = at_def handle_def
  let ?step = "app_step ui lst create"
  have a: "at (ap_model a) [] (ap_store a) [] = a" using assms(4,5) by (cases a) (simp add: at_def)
  have key: "?step (at m cs s inb) (at (fst (Update ui ts (KeyMsg k) m)) (cs @ flatten_cmd (snd (Update ui ts (KeyMsg k) m))) s inb)"
    for m cs s inb k using app_step.user [of ui lst create "at m cs s inb" ts k] by (simp add: d split_beta)
  have run: "?step (at m (c # cs) s inb) (at m cs s1 (inb @ ms))" if "exec lst create c s = (ms, s1)" for m c cs s inb ms s1
    using app_step.run [of c "at m (c # cs) s inb" lst create ms s1 ui] that by (simp add: at_def)
  have del: "?step (at m cs s inb) (at (fst (Update ui ts y m)) (cs @ flatten_cmd (snd (Update ui ts y m))) s (remove1 y inb))"
    if "y \<in> set inb" for m cs s inb y
    using app_step.deliver [of y "at m cs s inb" ui lst create ts] that by (simp add: d split_beta)
  have 1: "?step a (at ?m1 [?c] (ap_store a) [])"
    using key [of "ap_model a" "[]" "ap_store a" "[]" "''ctrl+s''"] assms(1) a by (simp add: Update_save)
  have 2: "?step (at ?m1 [?c] (ap_store a) []) (at ?m2 [?c] (ap_store a) [])"
    using key [of ?m1 "[?c]" "ap_store a" "[]" "''esc''"] assms(1) by (simp add: Update_esc)
  have 3: "?step (at ?m2 [?c] (ap_store a) []) (at ?m3 [?c, loadMessagesCmd] (ap_store a) [])"
    using key [of ?m2 "[?c]" "ap_store a" "[]" "''r''"] by (simp add: Update_reload)
  have 4: "?step (at ?m3 [?c, loadMessagesCmd] (ap_store a) []) (at ?m3 [loadMessagesCmd] s' [?cr])"
    using run [of ?c "ap_store a" "[?cr]" s' ?m3 "[loadMessagesCmd]" "[]"] assms(2) by (simp add: exec_def)
  have 5: "?step (at ?m3 [loadMessagesCmd] s' [?cr]) (at ?m3 [] s' [?cr, ?ld])"
    using run [of loadMessagesCmd s' "[?ld]" s' ?m3 "[]" "[?cr]"] assms(3) by (simp add: exec_def)
  obtain m4 cs4 where 6: "?step (at ?m3 [] s' [?cr, ?ld]) (at m4 cs4 s' [?cr])" and m4: "bm_messages m4 = x # rest"
    using del [of ?ld "[?cr, ?ld]" ?m3 "[]" s'] messages_loaded [of ui ts "x # rest" ?m3] by auto
  obtain m5 cs5 where 7: "?step (at m4 cs4 s' [?cr]) (at m5 cs5 s' [])" and m5: "bm_messages m5 = x # x # rest"
    using del [of ?cr "[?cr]" m4 cs4 s'] messages_created [of ui ts x m4] m4 by auto
  have "?step\<^sup>*\<^sup>* a (at m5 cs5 s' [])"
    using 1 2 3 4 5 6 7 by (meson converse_rtranclp_into_rtranclp rtranclp.rtrancl_refl)
  then show ?thesis using m5 by (intro exI [of _ "at m5 cs5 s' []"]) (simp add: at_def)
qed

section \<open>Instances\<close>

definition text_ui :: "string ui_lib" where
  "text_ui = \<lparr>ui_NewInput = \<lambda>_ _ _. '''', ui_NewArea = \<lambda>_. '''', ui_Value = id, ui_SetValue = \<lambda>s _. s, ui_Focus = id,
     ui_Blur = id, ui_SetWidth = \<lambda>_. id, ui_SetHeight = \<lambda>_. id,
     ui_Update = \<lambda>x u. (case x of KeyMsg k \<Rightarrow> u @ k | _ \<Rightarrow> u, NoCmd), ui_Init = \<lambda>_. NoCmd, ui_View = id\<rparr>"

definition options0 :: Options where
  "options0 = \<lparr>op_Title = '''', op_Subtitle = '' '', op_StateRoot = ''/s'', op_ChatStateRoot = '''', op_DefaultAuthor = ''root ''\<rparr>"

definition model0 :: "string Model" where
  "model0 = \<lparr>bm_chat = None, bm_chatErr = Some (errorf ''no key''), bm_repl = Some '''', bm_title = ''qemu-go-init bbs'',
     bm_subtitle = ''Shared-state Bubble Tea board'', bm_stateRoot = ''/s'', bm_mode = modeBrowse, bm_messages = [], bm_cursor = 0,
     bm_width = 0, bm_height = 0, bm_status = ''Loading messages...'', bm_lastRefreshed = ''never'',
     bm_author = ''root'', bm_subject = '''', bm_body = '''', bm_focusIndex = 0\<rparr>"

lemma New_model0: "New text_ui (Inr '''') (Inl (errorf ''no key'')) options0 = Inr model0"
proof -
  have "TrimSpace '' '' = ''''" "TrimSpace ''root '' = ''root''" "TrimSpace '''' = ''''" by code_simp+
  then show ?thesis by (simp add: New_def applyFocus_def text_ui_def options0_def model0_def fallback_def)
qed

abbreviation mem_list :: "world \<times> keyed_table \<Rightarrow> (Message list) result" where
  "mem_list s \<equiv> ListMessages mem_sql mem_time (snd s)"

definition app0 :: "(string, world \<times> keyed_table) app" where
  "app0 = \<lparr>ap_model = model0, ap_store = ([], board1), ap_cmds = [loadMessagesCmd], ap_inbox = []\<rparr>"

definition app1 :: "(string, world \<times> keyed_table) app" where
  "app1 = \<lparr>ap_model = model0\<lparr>bm_mode := modeCompose, bm_author := '' '', bm_subject := ''s '', bm_body := ''b''\<rparr>,
     ap_store = ([], empty_table), ap_cmds = [], ap_inbox = []\<rparr>"

lemma app0_loads:
  "\<exists>b. (app_step text_ui mem_list (CreateMessage good_os mem_sql mem_time))\<^sup>*\<^sup>* app0 b \<and> bm_messages (ap_model b) = [message1]"
proof -
  let ?step = "app_step text_ui mem_list (CreateMessage good_os mem_sql mem_time)"
  let ?x = "messagesLoadedMsg (Inr [message1])"
  let ?b = "app0\<lparr>ap_cmds := [], ap_inbox := [?x]\<rparr>"
  have "?step app0 ?b"
    using app_step.run [of loadMessagesCmd app0 mem_list "CreateMessage good_os mem_sql mem_time" "[?x]" "([], board1)" text_ui]
    by (simp add: exec_def app0_def boards_list)
  moreover have "?step ?b (handle text_ui '''' ?x (?b\<lparr>ap_inbox := []\<rparr>))"
    using app_step.deliver [of ?x ?b text_ui mem_list "CreateMessage good_os mem_sql mem_time" "''''"] by simp
  moreover have "bm_messages (ap_model (handle text_ui '''' ?x (?b\<lparr>ap_inbox := []\<rparr>))) = [message1]"
    by (simp add: handle_model messages_loaded)
  ultimately show ?thesis by (meson converse_rtranclp_into_rtranclp rtranclp.rtrancl_refl)
qed

lemma app1_create: "CreateMessage good_os mem_sql mem_time (draft text_ui (ap_model app1)) (ap_store app1) = (Inr message1, [Now], board1)"
proof -
  have "draft text_ui (ap_model app1) = post1" by (simp add: draft_def text_ui_def app1_def post1_def)
  then show ?thesis by (simp add: post1_create app1_def)
qed

theorem board_invariant_witness:
  "\<exists>b. (app_step text_ui mem_list (CreateMessage good_os mem_sql mem_time))\<^sup>*\<^sup>* app0 b \<and> selectedMessage (ap_model b) \<noteq> None"
proof -
  from app0_loads obtain b where b: "(app_step text_ui mem_list (CreateMessage good_os mem_sql mem_time))\<^sup>*\<^sup>* app0 b"
    "bm_messages (ap_model b) = [message1]" by blast
  have "New text_ui (Inr '''') (Inl (errorf ''no key'')) options0 = Inr (ap_model app0)" by (simp add: New_model0 app0_def)
  from board_invariant [OF this b(1)] b show ?thesis by auto
qed

theorem board_no_phantom_witness:
  "\<exists>b. (app_step text_ui mem_list (CreateMessage good_os mem_sql mem_time))\<^sup>*\<^sup>* app0 b \<and> bm_messages (ap_model b) = [message1] \<and>
     message1 \<in> set (map (decode mem_time) (rows_of (snd (ap_store b))))"
proof -
  from app0_loads obtain b where b: "(app_step text_ui mem_list (CreateMessage good_os mem_sql mem_time))\<^sup>*\<^sup>* app0 b"
    "bm_messages (ap_model b) = [message1]" by blast
  have "New text_ui (Inr '''') (Inl (errorf ''no key'')) options0 = Inr (ap_model app0)" by (simp add: New_model0 app0_def)
  from board_no_phantom [OF mem.sqlite_axioms this _ b(1)] b show ?thesis by (auto simp: app0_def)
qed


theorem board_shows_twice_witness:
  "\<exists>b. (app_step text_ui mem_list (CreateMessage good_os mem_sql mem_time))\<^sup>*\<^sup>* app1 b \<and> ap_store b = ([Now], board1) \<and>
     bm_messages (ap_model b) = [message1, message1]"
proof -
  have "bm_mode (ap_model app1) = modeCompose" "ap_cmds app1 = []" "ap_inbox app1 = []" by (simp_all add: app1_def)
  then show ?thesis
    using board_shows_twice [where a = app1 and ui = text_ui and lst = mem_list and create = "CreateMessage good_os mem_sql mem_time"
        and x = message1 and s' = "([Now], board1)" and rest = "[]"] app1_create by (simp add: boards_list)
qed

end
