(* ===== verification/AIRuntime.thy ===== *)
theory AIRuntime
  imports BBSStore
begin

text \<open>
  The settings of the AI chat: \<^verbatim>\<open>resolveRuntime\<close>, \<^verbatim>\<open>guessConfigHome\<close> and
  \<^verbatim>\<open>resolveBaseStepSettings\<close> of \<^verbatim>\<open>internal/aichat/surface.go\<close> and
  \<^verbatim>\<open>loadRuntimeDetails\<close> of \<^verbatim>\<open>internal/aichat/debug.go\<close>. The process environment is state, because
  the code sets a variable for the time of a library call; so are the open handles, because the
  code closes what it opened on its error paths. The profile library is the record
  \<open>profile_lib\<close> over settings of an open type.
\<close>

section \<open>Process state\<close>

datatype handle = Manager | Router | TurnStore | TimelineStore | Evaluator

record ai_st =
  a_world :: world
  a_env :: environ
  a_open :: "handle list"

definition opened :: "handle \<Rightarrow> ai_st \<Rightarrow> ai_st" where
  "opened h s = s\<lparr>a_open := h # a_open s\<rparr>"

definition closed :: "handle \<Rightarrow> ai_st \<Rightarrow> ai_st" where
  "closed h s = s\<lparr>a_open := remove1 h (a_open s)\<rparr>"

text \<open>\<^verbatim>\<open>os.Setenv\<close> refuses a value with a zero byte; the keys used are constants.\<close>

definition Setenv :: "string \<Rightarrow> string \<Rightarrow> ai_st \<Rightarrow> go_error option \<times> ai_st" where
  "Setenv key value s =
     (if CHR 0x00 \<in> set value then (Some (errorf ''setenv: invalid argument''), s)
      else (None, s\<lparr>a_env := (a_env s)(key \<mapsto> value)\<rparr>))"

definition Unsetenv :: "string \<Rightarrow> ai_st \<Rightarrow> ai_st" where
  "Unsetenv key s = s\<lparr>a_env := (a_env s)(key := None)\<rparr>"

definition IsAbs :: "string \<Rightarrow> bool" where
  "IsAbs p = HasPrefix p ''/''"

definition UserConfigDir :: "environ \<Rightarrow> string result" where
  "UserConfigDir env =
     (let dir = getenv env ''XDG_CONFIG_HOME''
      in if dir = ''''
         then (let home = getenv env ''HOME''
               in if home = '''' then Inl (errorf ''neither $XDG_CONFIG_HOME nor $HOME are defined'')
                  else Inr (home @ ''/.config''))
         else if \<not> IsAbs dir then Inl (errorf ''path in $XDG_CONFIG_HOME is relative'')
         else Inr dir)"

section \<open>Data\<close>

definition defaultProfileSlug :: string where "defaultProfileSlug = ''gpt-5-nano''"

definition defaultTitle :: string where "defaultTitle = ''qemu-go-init AI chat''"

record ai_Options =
  ai_Title :: string
  ai_StateRoot :: string
  ai_ChatStateRoot :: string
  ai_ConversationID :: string
  ai_ProfileSlug :: string
  ai_ProfileRegistries :: string

record profile_item =
  pi_RegistrySlug :: string
  pi_ProfileSlug :: string
  pi_DisplayName :: string
  pi_Description :: string
  pi_IsDefault :: bool
  pi_Version :: "64 word"

record ('set, 'any) resolved =
  rs_RegistrySlug :: string
  rs_ProfileSlug :: string
  rs_RuntimeKey :: string
  rs_RuntimeFingerprint :: string
  rs_SystemPrompt :: string
  rs_StepSettingsPatch :: 'any
  rs_Metadata :: 'any
  rs_EffectiveStepSettings :: "'set option"

record ('set, 'any, 'mgr) profile_lib =
  pl_CurrentUser :: "(string option) result"
  pl_BaseSettings :: "environ \<Rightarrow> 'set result"
  pl_NewManager :: "string \<Rightarrow> 'set \<Rightarrow> 'mgr result"
  pl_ListProfiles :: "'mgr \<Rightarrow> (profile_item list) result"
  pl_Switch :: "'mgr \<Rightarrow> string \<Rightarrow> (('set, 'any) resolved) result"

record ('set, 'any) runtimeDetails =
  rd_configHome :: string
  rd_profileRegistries :: string
  rd_profileSlug :: string
  rd_baseSettings :: 'set
  rd_profiles :: "profile_item list"
  rd_resolved :: "('set, 'any) resolved"

section \<open>Operations\<close>

fun firstNonEmpty :: "string list \<Rightarrow> string" where
  "firstNonEmpty [] = ''''"
| "firstNonEmpty (value # values) = (if TrimSpace value \<noteq> '''' then TrimSpace value else firstNonEmpty values)"

definition fileExists :: "os \<Rightarrow> string \<Rightarrow> ai_st \<Rightarrow> bool \<times> ai_st" where
  "fileExists os path s =
     (case stat os path (a_world s) of (r, w) \<Rightarrow>
        (case r of Inl _ \<Rightarrow> False | Inr info \<Rightarrow> \<not> st_dir info, s\<lparr>a_world := w\<rparr>))"

definition configCandidates :: "(string option) result \<Rightarrow> environ \<Rightarrow> string \<Rightarrow> string list" where
  "configCandidates currentUser env stateRoot =
     (if TrimSpace stateRoot \<noteq> '''' then [Clean (Dir (TrimSpace stateRoot))] else []) @
     (if TrimSpace (getenv env ''XDG_CONFIG_HOME'') \<noteq> '''' then [Clean (TrimSpace (getenv env ''XDG_CONFIG_HOME''))] else []) @
     (case UserConfigDir env of Inr home \<Rightarrow> if TrimSpace home \<noteq> '''' then [Clean home] else [] | Inl _ \<Rightarrow> []) @
     (case currentUser of
        Inr (Some home) \<Rightarrow> if TrimSpace home \<noteq> '''' then [PathJoin [home, ''.config'']] else []
      | _ \<Rightarrow> [])"

fun firstConfigHome :: "os \<Rightarrow> string list \<Rightarrow> ai_st \<Rightarrow> string \<times> ai_st" where
  "firstConfigHome os [] s = ('''', s)"
| "firstConfigHome os (candidate # candidates) s =
     (if candidate = '''' then firstConfigHome os candidates s
      else let pinocchioDir = PathJoin [candidate, ''pinocchio'']
           in case fileExists os (PathJoin [pinocchioDir, ''config.yaml'']) s of
                (True, s) \<Rightarrow> (candidate, s)
              | (False, s) \<Rightarrow>
                  (case fileExists os (PathJoin [pinocchioDir, ''profiles.yaml'']) s of
                     (True, s) \<Rightarrow> (candidate, s)
                   | (False, s) \<Rightarrow> firstConfigHome os candidates s))"

definition guessConfigHome :: "os \<Rightarrow> (string option) result \<Rightarrow> string \<Rightarrow> ai_st \<Rightarrow> string \<times> ai_st" where
  "guessConfigHome os currentUser stateRoot s =
     firstConfigHome os (configCandidates currentUser (a_env s) stateRoot) s"

definition resolveRuntime ::
  "os \<Rightarrow> (string option) result \<Rightarrow> ai_Options \<Rightarrow> ai_st \<Rightarrow> (string \<times> string \<times> string) result \<times> ai_st" where
  "resolveRuntime os currentUser options s =
     (let configHome = TrimSpace (getenv (a_env s) ''GO_INIT_PINOCCHIO_CONFIG_HOME'')
      in case (if configHome = '''' then guessConfigHome os currentUser (ai_StateRoot options) s else (configHome, s)) of
           (configHome, s) \<Rightarrow>
             if configHome = ''''
             then (Inl (errorf (''could not find a pinocchio config home for state root '' @ quote (ai_StateRoot options))), s)
             else
               (let profileRegistries = TrimSpace (ai_ProfileRegistries options);
                    profileRegistries = (if profileRegistries = ''''
                      then TrimSpace (getenv (a_env s) ''PINOCCHIO_PROFILE_REGISTRIES'') else profileRegistries);
                    candidate = PathJoin [configHome, ''pinocchio'', ''profiles.yaml'']
                in case (if profileRegistries = ''''
                         then (case fileExists os candidate s of (True, s) \<Rightarrow> (candidate, s) | (False, s) \<Rightarrow> ('''', s))
                         else (profileRegistries, s)) of
                     (profileRegistries, s) \<Rightarrow>
                       if profileRegistries = ''''
                       then (Inl (errorf (''could not find a pinocchio profile registry under '' @ PathJoin [configHome, ''pinocchio''])), s)
                       else
                         (let profileSlug = TrimSpace (ai_ProfileSlug options);
                              profileSlug = (if profileSlug = '''' then defaultProfileSlug else profileSlug)
                          in (Inr (configHome, profileRegistries, profileSlug), s))))"

text \<open>The deferred restoration of the variable.\<close>

definition restoreConfigHome :: "string option \<Rightarrow> ai_st \<Rightarrow> ai_st" where
  "restoreConfigHome oldValue s =
     (case oldValue of Some v \<Rightarrow> snd (Setenv ''XDG_CONFIG_HOME'' v s) | None \<Rightarrow> Unsetenv ''XDG_CONFIG_HOME'' s)"

definition resolveBaseStepSettings :: "(environ \<Rightarrow> 'set result) \<Rightarrow> string \<Rightarrow> ai_st \<Rightarrow> 'set result \<times> ai_st" where
  "resolveBaseStepSettings baseSettings configHome s =
     (let oldValue = a_env s ''XDG_CONFIG_HOME''
      in case Setenv ''XDG_CONFIG_HOME'' configHome s of
           (Some e, s) \<Rightarrow> (Inl (wrap ''set XDG_CONFIG_HOME: '' e), s)
         | (None, s) \<Rightarrow> (baseSettings (a_env s), restoreConfigHome oldValue s))"

definition loadRuntimeDetails ::
  "os \<Rightarrow> ('set, 'any, 'mgr) profile_lib \<Rightarrow> ai_Options \<Rightarrow> ai_st \<Rightarrow> (('set, 'any) runtimeDetails) result \<times> ai_st" where
  "loadRuntimeDetails os lib options s =
     (case resolveRuntime os (pl_CurrentUser lib) options s of
        (Inl e, s) \<Rightarrow> (Inl e, s)
      | (Inr (configHome, profileRegistries, profileSlug), s) \<Rightarrow>
     (case resolveBaseStepSettings (pl_BaseSettings lib) configHome s of
        (Inl e, s) \<Rightarrow> (Inl (wrap ''resolve pinocchio base settings: '' e), s)
      | (Inr base, s) \<Rightarrow>
     (case pl_NewManager lib profileRegistries base of
        Inl e \<Rightarrow> (Inl (wrap ''load pinocchio profiles: '' e), s)
      | Inr manager \<Rightarrow>
          (let s = opened Manager s
           in (case pl_ListProfiles lib manager of
                 Inl e \<Rightarrow> Inl (wrap ''list pinocchio profiles: '' e)
               | Inr profiles \<Rightarrow>
                   (case pl_Switch lib manager profileSlug of
                      Inl e \<Rightarrow> Inl (wrap (''resolve pinocchio profile '' @ quote profileSlug @ '': '') e)
                    | Inr resolved \<Rightarrow>
                        Inr \<lparr>rd_configHome = configHome, rd_profileRegistries = profileRegistries,
                             rd_profileSlug = profileSlug, rd_baseSettings = base, rd_profiles = profiles,
                             rd_resolved = resolved\<rparr>),
               closed Manager s)))))"

section \<open>What the resolution leaves behind\<close>

text \<open>No variable has a zero byte in its value: the kernel passes variables as C strings and \<^const>\<open>Setenv\<close> refuses them.\<close>

definition env_ok :: "environ \<Rightarrow> bool" where
  "env_ok env = (\<forall>k v. env k = Some v \<longrightarrow> CHR 0x00 \<notin> set v)"

text \<open>An operation that only looks: same environment, same handles, more events.\<close>

definition only_looks :: "ai_st \<Rightarrow> ai_st \<Rightarrow> bool" where
  "only_looks s s' = (a_env s' = a_env s \<and> a_open s' = a_open s \<and> extends (a_world s) (a_world s'))"

lemma only_looks_refl [simp, intro]: "only_looks s s"
  by (simp add: only_looks_def)

lemma only_looks_trans [trans]: "only_looks a b \<Longrightarrow> only_looks b c \<Longrightarrow> only_looks a c"
  by (auto simp: only_looks_def intro: extends_trans)

lemma fileExists_looks: "fileExists os p s = (b, s') \<Longrightarrow> only_looks s s'"
  by (auto simp: fileExists_def stat_def only_looks_def)

lemma firstConfigHome_looks: "firstConfigHome os cs s = (h, s') \<Longrightarrow> only_looks s s'"
proof (induction cs arbitrary: s)
  case (Cons c cs)
  let ?p = "PathJoin [PathJoin [c, ''pinocchio''], ''config.yaml'']" and ?q = "PathJoin [PathJoin [c, ''pinocchio''], ''profiles.yaml'']"
  obtain b1 s1 where 1: "fileExists os ?p s = (b1, s1)" by fastforce
  obtain b2 s2 where 2: "fileExists os ?q s1 = (b2, s2)" by fastforce
  have "only_looks s s1" "only_looks s s2"
    using fileExists_looks [OF 1] fileExists_looks [OF 2] only_looks_trans by blast+
  with Cons show ?case by (auto simp: Let_def 1 2 split: if_splits bool.splits intro: only_looks_trans)
qed simp

lemma resolveRuntime_looks:
  assumes "resolveRuntime os cu options s = (r, s')"
  shows "only_looks s s'"
proof -
  let ?c = "TrimSpace (getenv (a_env s) ''GO_INIT_PINOCCHIO_CONFIG_HOME'')"
  obtain home s1 where 1: "(if ?c = '''' then guessConfigHome os cu (ai_StateRoot options) s else (?c, s)) = (home, s1)" by fastforce
  then have l: "only_looks s s1" by (auto simp: guessConfigHome_def split: if_splits intro: firstConfigHome_looks)
  obtain b s2 where 2: "fileExists os (PathJoin [home, ''pinocchio'', ''profiles.yaml'']) s1 = (b, s2)" by fastforce
  have "only_looks s s2" using l fileExists_looks [OF 2] by (rule only_looks_trans)
  with assms l show ?thesis
    by (auto simp: resolveRuntime_def Let_def 1 2 split: if_splits bool.splits)
qed

lemma resolveBaseStepSettings_looks:
  assumes "resolveBaseStepSettings f home s = (r, s')" and "env_ok (a_env s)"
  shows "only_looks s s'"
  using assms
  by (cases "a_env s ''XDG_CONFIG_HOME''")
     (auto simp: resolveBaseStepSettings_def Setenv_def Unsetenv_def restoreConfigHome_def only_looks_def env_ok_def
        Let_def fun_upd_idem split: if_splits)

lemma handle_simps [simp]:
  "a_open (opened h s) = h # a_open s" "a_env (opened h s) = a_env s" "a_world (opened h s) = a_world s"
  "a_open (closed h s) = remove1 h (a_open s)" "a_env (closed h s) = a_env s" "a_world (closed h s) = a_world s"
  by (simp_all add: opened_def closed_def)

lemma closed_opened [simp]: "closed h (opened h s) = s"
  by (simp add: closed_def opened_def)

lemma loadRuntimeDetails_looks:
  assumes "loadRuntimeDetails os lib options s = (r, s')" and "env_ok (a_env s)"
  shows "only_looks s s'"
proof -
  obtain r1 s1 where 1: "resolveRuntime os (pl_CurrentUser lib) options s = (r1, s1)" by fastforce
  note l = resolveRuntime_looks [OF 1]
  show ?thesis
  proof (cases r1)
    case (Inr t)
    obtain home regs slug where t: "t = (home, regs, slug)" by (cases t)
    obtain r2 s2 where 2: "resolveBaseStepSettings (pl_BaseSettings lib) home s1 = (r2, s2)" by fastforce
    have "only_looks s1 s2" using resolveBaseStepSettings_looks [OF 2] assms(2) l by (simp add: only_looks_def)
    with l have "only_looks s s2" by (rule only_looks_trans)
    moreover have "s' = s2" using assms(1) by (auto simp: loadRuntimeDetails_def 1 Inr t 2 Let_def split: sum.splits)
    ultimately show ?thesis by simp
  qed (use assms(1) l in \<open>simp add: loadRuntimeDetails_def 1\<close>)
qed

section \<open>Where the configuration is found\<close>

text \<open>A candidate qualifies when it has one of the two files; on a file system that does not change, the first one that qualifies is taken.\<close>

definition has_config :: "(string \<Rightarrow> fstat result) \<Rightarrow> string \<Rightarrow> bool" where
  "has_config fs c = (\<exists>f\<in>{''config.yaml'', ''profiles.yaml''}.
     case fs (PathJoin [PathJoin [c, ''pinocchio''], f]) of Inr info \<Rightarrow> \<not> st_dir info | Inl _ \<Rightarrow> False)"

lemma fileExists_fst:
  assumes "\<And>w p. os_Stat os w p = fs p"
  shows "fst (fileExists os p s) = (case fs p of Inr info \<Rightarrow> \<not> st_dir info | Inl _ \<Rightarrow> False)"
  using assms by (simp add: fileExists_def stat_def split: sum.split)

lemma firstConfigHome_find:
  assumes fs: "\<And>w p. os_Stat os w p = fs p"
  shows "fst (firstConfigHome os cs s) = (case find (\<lambda>c. c \<noteq> '''' \<and> has_config fs c) cs of Some c \<Rightarrow> c | None \<Rightarrow> '''')"
proof (induction cs arbitrary: s)
  case (Cons c cs)
  let ?p = "PathJoin [PathJoin [c, ''pinocchio''], ''config.yaml'']" and ?q = "PathJoin [PathJoin [c, ''pinocchio''], ''profiles.yaml'']"
  obtain b1 s1 where 1: "fileExists os ?p s = (b1, s1)" by fastforce
  obtain b2 s2 where 2: "fileExists os ?q s1 = (b2, s2)" by fastforce
  have "has_config fs c \<longleftrightarrow> b1 \<or> b2"
    using fileExists_fst [OF fs, of ?p s] fileExists_fst [OF fs, of ?q s1] by (simp add: has_config_def 1 2)
  then show ?case by (auto simp: Let_def 1 2 Cons.IH split: bool.split)
qed simp

text \<open>
  The configuration directory is the one named by \<^verbatim>\<open>GO_INIT_PINOCCHIO_CONFIG_HOME\<close> or else the first
  candidate, in the order shared state, \<^verbatim>\<open>XDG_CONFIG_HOME\<close>, user configuration directory, home, that has a configuration or a
  profile file. The resolution fails only when there is no such directory or when no registry is given.
\<close>

theorem resolveRuntime_home:
  assumes "\<And>w p. os_Stat os w p = fs p"
  shows "case fst (resolveRuntime os cu options s) of
      Inr (home, registries, slug) \<Rightarrow> home \<noteq> '''' \<and> registries \<noteq> '''' \<and> slug \<noteq> '''' \<and>
        (let set = TrimSpace (getenv (a_env s) ''GO_INIT_PINOCCHIO_CONFIG_HOME'')
         in home = set \<or> set = '''' \<and> find (\<lambda>c. c \<noteq> '''' \<and> has_config fs c)
              (configCandidates cu (a_env s) (ai_StateRoot options)) = Some home)
    | Inl _ \<Rightarrow> TrimSpace (getenv (a_env s) ''GO_INIT_PINOCCHIO_CONFIG_HOME'') = '''' \<and>
          find (\<lambda>c. c \<noteq> '''' \<and> has_config fs c) (configCandidates cu (a_env s) (ai_StateRoot options)) = None \<or>
        TrimSpace (ai_ProfileRegistries options) = '''' \<and> TrimSpace (getenv (a_env s) ''PINOCCHIO_PROFILE_REGISTRIES'') = ''''"
proof -
  let ?c = "TrimSpace (getenv (a_env s) ''GO_INIT_PINOCCHIO_CONFIG_HOME'')"
  let ?cs = "configCandidates cu (a_env s) (ai_StateRoot options)"
  obtain home s1 where 1: "(if ?c = '''' then guessConfigHome os cu (ai_StateRoot options) s else (?c, s)) = (home, s1)" by fastforce
  have h: "home = ?c \<or> ?c = '''' \<and> find (\<lambda>c. c \<noteq> '''' \<and> has_config fs c) ?cs = Some home" if "home \<noteq> ''''"
    using 1 that firstConfigHome_find [OF assms, of ?cs s]
    by (auto simp: guessConfigHome_def split: if_splits option.splits)
  have n: "?c = '''' \<and> find (\<lambda>c. c \<noteq> '''' \<and> has_config fs c) ?cs = None" if "home = ''''"
    using 1 that firstConfigHome_find [OF assms, of ?cs s]
    by (auto simp: guessConfigHome_def find_Some_iff split: if_splits option.splits)
  have e: "a_env s1 = a_env s"
    using 1 firstConfigHome_looks [of os ?cs s home s1] by (auto simp: guessConfigHome_def only_looks_def split: if_splits)
  obtain b s2 where 2: "fileExists os (PathJoin [home, ''pinocchio'', ''profiles.yaml'']) s1 = (b, s2)" by fastforce
  obtain regs s3 where 3: "(let regs = TrimSpace (ai_ProfileRegistries options);
       regs = (if regs = '''' then TrimSpace (getenv (a_env s1) ''PINOCCHIO_PROFILE_REGISTRIES'') else regs)
     in if regs = '''' then (if b then (PathJoin [home, ''pinocchio'', ''profiles.yaml''], s2) else ('''', s2)) else (regs, s1)) = (regs, s3)"
    by fastforce
  show ?thesis
    using h n 3 e by (auto simp: resolveRuntime_def Let_def 1 2 defaultProfileSlug_def split: if_splits bool.splits)
qed

section \<open>Instances\<close>

definition profiles1 :: "(unit, unit, unit) profile_lib" where
  "profiles1 = \<lparr>pl_CurrentUser = Inr None, pl_BaseSettings = \<lambda>_. Inr (), pl_NewManager = \<lambda>_ _. Inr (),
     pl_ListProfiles = \<lambda>_. Inr [],
     pl_Switch = \<lambda>_ slug. Inr \<lparr>rs_RegistrySlug = ''default'', rs_ProfileSlug = slug, rs_RuntimeKey = '''', rs_RuntimeFingerprint = '''',
       rs_SystemPrompt = ''Be kind.'', rs_StepSettingsPatch = (), rs_Metadata = (), rs_EffectiveStepSettings = Some ()\<rparr>\<rparr>"

definition ai_st1 :: ai_st where
  "ai_st1 = \<lparr>a_world = [], a_env = [''GO_INIT_PINOCCHIO_CONFIG_HOME'' \<mapsto> ''/c''], a_open = []\<rparr>"

definition ai_options1 :: ai_Options where
  "ai_options1 = \<lparr>ai_Title = '''', ai_StateRoot = ''/s/bbs'', ai_ChatStateRoot = '''', ai_ConversationID = '''',
     ai_ProfileSlug = '''', ai_ProfileRegistries = ''p''\<rparr>"

lemma resolve1: "resolveRuntime good_os (Inr None) ai_options1 ai_st1 = (Inr (''/c'', ''p'', ''gpt-5-nano''), ai_st1)"
proof -
  have "TrimSpace ''/c'' = ''/c''" "TrimSpace ''p'' = ''p''" "TrimSpace '''' = ''''" by code_simp+
  then show ?thesis by (simp add: resolveRuntime_def Let_def ai_options1_def ai_st1_def getenv_def defaultProfileSlug_def)
qed

lemma details1:
  "\<exists>dt. loadRuntimeDetails good_os profiles1 ai_options1 ai_st1 = (Inr dt, ai_st1) \<and> rs_SystemPrompt (rd_resolved dt) = ''Be kind.''"
proof -
  have "resolveBaseStepSettings (\<lambda>_. Inr ()) ''/c'' ai_st1 = (Inr (), ai_st1)"
    by (simp add: resolveBaseStepSettings_def Setenv_def Unsetenv_def restoreConfigHome_def ai_st1_def fun_upd_idem)
  then show ?thesis by (simp add: loadRuntimeDetails_def profiles1_def resolve1)
qed

lemma env_ok1: "env_ok (a_env ai_st1)"
  by (simp add: env_ok_def ai_st1_def)

theorem resolveRuntime_home_witness:
  "case fst (resolveRuntime good_os (Inr None) ai_options1 ai_st1) of Inr (home, _, slug) \<Rightarrow> home = ''/c'' \<and> slug \<noteq> '''' | Inl _ \<Rightarrow> False"
proof -
  have fs: "\<And>w p. os_Stat good_os w p = (\<lambda>_. Inr \<lparr>st_dir = False, st_device = True, st_size = 0\<rparr>) p" by (simp add: good_os_def)
  from resolveRuntime_home [OF fs, where cu = "Inr None" and options = ai_options1 and s = ai_st1] show ?thesis by (simp add: resolve1)
qed

end
