(* ===== verification/AIChat.thy ===== *)
theory AIChat
  imports AIRuntime
begin

text \<open>
  The AI chat surface: \<^verbatim>\<open>internal/aichat/persistence.go\<close> and the rest of
  \<^verbatim>\<open>internal/aichat/surface.go\<close>. The engine, the event router, the chat stores and the chat widget are
  third-party: the record \<open>chat_lib\<close> has what their calls return, and the state records which of
  them are open. What the surface relies on of the store is the list it returns.
\<close>

section \<open>Persistence\<close>

definition defaultConversationID :: string where "defaultConversationID = ''qemu-go-init-bbs''"

record persistenceResources =
  pr_root :: string
  pr_conversationID :: string
  pr_turnsDBPath :: string
  pr_timelineDBPath :: string
  pr_timelineVersion :: "64 word"

record ('set, 'eng, 'u) chat_lib =
  cl_TurnDSN :: "string \<Rightarrow> string result"
  cl_NewTurnStore :: "string \<Rightarrow> go_error option"
  cl_TimelineDSN :: "string \<Rightarrow> string result"
  cl_NewTimelineStore :: "string \<Rightarrow> go_error option"
  cl_NewEngine :: "'set option \<Rightarrow> 'eng result"
  cl_NewRouter :: "go_error option"
  cl_InitialModel :: "'eng \<Rightarrow> string \<Rightarrow> 'u"
  cl_CloseTurn :: "go_error option"
  cl_CloseTimeline :: "go_error option"
  cl_CloseRouter :: "go_error option"

definition defaultChatStateRoot :: "string \<Rightarrow> string" where
  "defaultChatStateRoot root =
     (let trimmed = TrimSpace root in if trimmed = '''' then '''' else PathJoin [Dir trimmed, ''chat''])"

definition openPersistence ::
  "os \<Rightarrow> ('set, 'eng, 'u) chat_lib \<Rightarrow> string \<Rightarrow> string \<Rightarrow> ai_st \<Rightarrow> persistenceResources result \<times> ai_st" where
  "openPersistence os cl root conversationID s =
     (let root = defaultChatStateRoot root
      in case mkdirAll os root 0x1ED (a_world s) of
           (Some e, w) \<Rightarrow> (Inl (wrap (''create chat persistence root '' @ root @ '': '') e), s\<lparr>a_world := w\<rparr>)
         | (None, w) \<Rightarrow>
             (let s = s\<lparr>a_world := w\<rparr>;
                  conversationID = TrimSpace conversationID;
                  conversationID = (if conversationID = '''' then defaultConversationID else conversationID);
                  turnsDBPath = PathJoin [root, ''turns.db''];
                  timelineDBPath = PathJoin [root, ''timeline.db'']
              in case cl_TurnDSN cl turnsDBPath of
                   Inl e \<Rightarrow> (Inl (wrap ''build turns dsn: '' e), s)
                 | Inr turnsDSN \<Rightarrow>
                     (case cl_NewTurnStore cl turnsDSN of
                        Some e \<Rightarrow> (Inl (wrap ''open turns store: '' e), s)
                      | None \<Rightarrow>
                          (let s = opened TurnStore s
                           in case cl_TimelineDSN cl timelineDBPath of
                                Inl e \<Rightarrow> (Inl (wrap ''build timeline dsn: '' e), closed TurnStore s)
                              | Inr timelineDSN \<Rightarrow>
                                  (case cl_NewTimelineStore cl timelineDSN of
                                     Some e \<Rightarrow> (Inl (wrap ''open timeline store: '' e), closed TurnStore s)
                                   | None \<Rightarrow>
                                       (Inr \<lparr>pr_root = root, pr_conversationID = conversationID, pr_turnsDBPath = turnsDBPath,
                                             pr_timelineDBPath = timelineDBPath, pr_timelineVersion = 0\<rparr>,
                                        opened TimelineStore s))))))"

text \<open>\<^verbatim>\<open>Close\<close> of resources from \<^verbatim>\<open>openPersistence\<close>, whose stores are never nil.\<close>

definition ClosePersistence ::
  "('set, 'eng, 'u) chat_lib \<Rightarrow> persistenceResources option \<Rightarrow> ai_st \<Rightarrow> go_error option \<times> ai_st" where
  "ClosePersistence cl p s =
     (case p of None \<Rightarrow> (None, s)
      | Some _ \<Rightarrow>
          (let err = cl_CloseTurn cl; s = closed TurnStore s;
               err = (case cl_CloseTimeline cl of Some e \<Rightarrow> if err = None then Some e else err | None \<Rightarrow> err)
           in (err, closed TimelineStore s)))"

section \<open>Turns\<close>

text \<open>A value of the metadata, as far as the code tells values apart.\<close>

datatype meta = MString string | MMap "(string \<times> meta) list" | MOther

record 't turn_lib =
  tl_SessionID :: "'t \<Rightarrow> (string option) result"
  tl_Runtime :: "'t \<Rightarrow> (meta option) result"
  tl_InferenceID :: "'t \<Rightarrow> (string option) result"
  tl_ID :: "'t \<Rightarrow> string"
  tl_ToYAML :: "'t \<Rightarrow> string result"

record turn_row =
  tr_ConvID :: string
  tr_SessionID :: string
  tr_TurnID :: string
  tr_Phase :: string
  tr_CreatedAtMs :: int
  tr_Payload :: string
  tr_RuntimeKey :: string
  tr_InferenceID :: string

fun stringUnder :: "string list \<Rightarrow> (string \<times> meta) list \<Rightarrow> string" where
  "stringUnder [] m = ''''"
| "stringUnder (key # keys) m =
     (case map_of m key of Some (MString s) \<Rightarrow> s | _ \<Rightarrow> stringUnder keys m)"

definition runtimeKeys :: "string list" where
  "runtimeKeys = [''runtime_key'', ''key'', ''slug'', ''profile'', ''profile_key'']"

definition runtimeKeyFromMetaValue :: "meta \<Rightarrow> string" where
  "runtimeKeyFromMetaValue v = (case v of MString t \<Rightarrow> t | MMap m \<Rightarrow> stringUnder runtimeKeys m | MOther \<Rightarrow> '''')"

text \<open>A persister is the trimmed conversation id of a store.\<close>

definition newTurnStorePersister :: "bool \<Rightarrow> string \<Rightarrow> string option" where
  "newTurnStorePersister hasStore convID =
     (if \<not> hasStore \<or> TrimSpace convID = '''' then None else Some (TrimSpace convID))"

definition unixMilli :: "int \<Rightarrow> int" where "unixMilli t = t div 1000000"

definition PersistTurn ::
  "os \<Rightarrow> 't turn_lib \<Rightarrow> (turn_row \<Rightarrow> 's \<Rightarrow> go_error option \<times> 's) \<Rightarrow> string option \<Rightarrow> 't option \<Rightarrow> world \<times> 's \<Rightarrow>
   go_error option \<times> world \<times> 's" where
  "PersistTurn os lib save p t s =
     (case (p, t) of
        (Some convID, Some t) \<Rightarrow>
          if convID = '''' then (Some (errorf ''turn persister: convID is empty''), s)
          else (let sessionID = (case tl_SessionID lib t of Inr (Some v) \<Rightarrow> TrimSpace v | _ \<Rightarrow> '''')
                in if sessionID = '''' then (Some (errorf ''turn persister: sessionID is empty''), s)
                   else (let turnID = (if TrimSpace (tl_ID lib t) = '''' then ''turn'' else TrimSpace (tl_ID lib t))
                         in case tl_ToYAML lib t of
                              Inl e \<Rightarrow> (Some (wrap ''turn persister: serialize: '' e), s)
                            | Inr payload \<Rightarrow>
                                (let runtimeKey = (case tl_Runtime lib t of
                                       Inr (Some v) \<Rightarrow> TrimSpace (runtimeKeyFromMetaValue v) | _ \<Rightarrow> '''');
                                     inferenceID = (case tl_InferenceID lib t of Inr (Some v) \<Rightarrow> TrimSpace v | _ \<Rightarrow> '''')
                                 in case s of (w, d) \<Rightarrow>
                                   (case now os w of (ts, w) \<Rightarrow>
                                     (case save \<lparr>tr_ConvID = convID, tr_SessionID = sessionID, tr_TurnID = turnID,
                                              tr_Phase = ''final'', tr_CreatedAtMs = unixMilli ts, tr_Payload = payload,
                                              tr_RuntimeKey = runtimeKey, tr_InferenceID = inferenceID\<rparr> d of
                                        (e, d) \<Rightarrow> (e, w, d))))))
      | _ \<Rightarrow> (None, s))"

section \<open>The seed turn\<close>

definition indent :: "string \<Rightarrow> string \<Rightarrow> string" where
  "indent value pre = Join LF (map (\<lambda>line. pre @ line) (Split (CHR 0x0A) (TrimSpace value)))"

definition min_int :: "int \<Rightarrow> int \<Rightarrow> int" where
  "min_int a b = (if a < b then a else b)"

text \<open>\<open>utc\<close> is \<^verbatim>\<open>UTC().Format("2006-01-02 15:04Z")\<close>.\<close>

definition seedEntry :: "(int \<Rightarrow> string) \<Rightarrow> Message \<Rightarrow> string list" where
  "seedEntry utc message =
     [''- '' @ msg_Subject message @ '' by '' @ msg_Author message @ '' at '' @ utc (msg_CreatedAt message),
      indent (msg_Body message) ''  '']"

definition systemParts0 :: "string list" where
  "systemParts0 = [''You are the resident AI assistant inside a retro SSH BBS.'',
     ''Keep answers concise, terminal-friendly, and grounded in the current board state when relevant.'']"

definition promptParts :: "string \<Rightarrow> string \<Rightarrow> string list" where
  "promptParts stateRoot profileSystemPrompt =
     systemParts0 @
     (if TrimSpace profileSystemPrompt \<noteq> '''' then ['''', ''Profile instructions:'', TrimSpace profileSystemPrompt] else []) @
     (if TrimSpace stateRoot \<noteq> '''' then ['''', ''Board state root: '' @ TrimSpace stateRoot] else [])"

definition buildSeedTurn :: "(int \<Rightarrow> string) \<Rightarrow> (Message list) result \<Rightarrow> string \<Rightarrow> string \<Rightarrow> string result" where
  "buildSeedTurn utc listed stateRoot profileSystemPrompt =
     (let systemParts = promptParts stateRoot profileSystemPrompt
      in case listed of
           Inl e \<Rightarrow> Inl (wrap ''list bbs messages for chat seed: '' e)
         | Inr messages \<Rightarrow>
             (let systemParts =
                (if 0 < length messages
                 then (let limit = min_int 8 (int (length messages))
                       in systemParts @ ['''', ''Current BBS messages:''] @
                          concat (map (\<lambda>i. seedEntry utc (messages ! i)) [0..<nat limit]))
                 else systemParts)
              in Inr (Join LF systemParts)))"

section \<open>The surface\<close>

record 'u Surface =
  sf_model :: 'u
  sf_seed :: string
  sf_persist :: persistenceResources
  sf_turnPersister :: "string option"
  sf_handlers :: "(string \<times> string) list"
  sf_seedTurn :: "string option"
  sf_attached :: bool
  sf_cancel :: bool
  sf_cancelled :: bool
  sf_closed :: bool

definition NewSurface ::
  "os \<Rightarrow> ('set, 'any, 'mgr) profile_lib \<Rightarrow> ('set, 'eng, 'u) chat_lib \<Rightarrow> (int \<Rightarrow> string) \<Rightarrow> (Message list) result \<Rightarrow>
   ai_Options \<Rightarrow> ai_st \<Rightarrow> ('u Surface) result \<times> ai_st" where
  "NewSurface os lib cl utc listed options s =
     (case loadRuntimeDetails os lib options s of
        (Inl e, s) \<Rightarrow> (Inl e, s)
      | (Inr details, s) \<Rightarrow>
     (case cl_NewEngine cl (rs_EffectiveStepSettings (rd_resolved details)) of
        Inl e \<Rightarrow> (Inl (wrap ''create pinocchio engine: '' e), s)
      | Inr engine \<Rightarrow>
     (case cl_NewRouter cl of
        Some e \<Rightarrow> (Inl (wrap ''create event router: '' e), s)
      | None \<Rightarrow>
          (let s = opened Router s
           in case buildSeedTurn utc listed (ai_StateRoot options) (rs_SystemPrompt (rd_resolved details)) of
                Inl e \<Rightarrow> (Inl e, closed Router s)
              | Inr seed \<Rightarrow>
                  (case openPersistence os cl (firstNonEmpty [ai_ChatStateRoot options, ai_StateRoot options])
                          (ai_ConversationID options) s of
                     (Inl e, s) \<Rightarrow> (Inl e, closed Router s)
                   | (Inr persist, s) \<Rightarrow>
                       (let title = TrimSpace (ai_Title options); title = (if title = '''' then defaultTitle else title)
                        in (Inr \<lparr>sf_model = cl_InitialModel cl engine title, sf_seed = seed, sf_persist = persist,
                                 sf_turnPersister = newTurnStorePersister True (pr_conversationID persist),
                                 sf_handlers = [(''timeline-persist'', ''chat'')], sf_seedTurn = None,
                                 sf_attached = False, sf_cancel = False, sf_cancelled = False, sf_closed = False\<rparr>, s)))))))"

definition InitSurface :: "('u \<Rightarrow> 'c option) \<Rightarrow> 'u Surface option \<Rightarrow> 'c option" where
  "InitSurface initModel sf = (case sf of None \<Rightarrow> None | Some v \<Rightarrow> initModel (sf_model v))"

definition UpdateSurface :: "('m \<Rightarrow> 'u \<Rightarrow> 'u \<times> 'c option) \<Rightarrow> 'm \<Rightarrow> 'u Surface option \<Rightarrow> 'c option \<times> 'u Surface option" where
  "UpdateSurface updateModel x sf =
     (case sf of None \<Rightarrow> (None, None)
      | Some v \<Rightarrow> (case updateModel x (sf_model v) of (u, cmd) \<Rightarrow> (cmd, Some (v\<lparr>sf_model := u\<rparr>))))"

definition ViewSurface :: "('u \<Rightarrow> string) \<Rightarrow> 'u Surface option \<Rightarrow> string" where
  "ViewSurface viewModel sf = (case sf of None \<Rightarrow> '''' | Some v \<Rightarrow> viewModel (sf_model v))"

definition AttachProgram :: "bool \<Rightarrow> 'u Surface option \<Rightarrow> 'u Surface option" where
  "AttachProgram hasProgram sf =
     (case sf of None \<Rightarrow> None
      | Some v \<Rightarrow>
          if \<not> hasProgram \<or> sf_attached v then Some v
          else Some (v\<lparr>sf_attached := True, sf_cancel := True, sf_seedTurn := Some (sf_seed v),
                      sf_handlers := sf_handlers v @ [(''ui-forward'', ''chat'')]\<rparr>))"

definition CloseSurface ::
  "('set, 'eng, 'u) chat_lib \<Rightarrow> 'u Surface option \<Rightarrow> ai_st \<Rightarrow> go_error option \<times> 'u Surface option \<times> ai_st" where
  "CloseSurface cl sf s =
     (case sf of None \<Rightarrow> (None, None, s)
      | Some v \<Rightarrow>
          if sf_closed v then (None, Some v, s)
          else (let v = v\<lparr>sf_closed := True\<rparr>;
                    v = (if sf_cancel v then v\<lparr>sf_cancelled := True\<rparr> else v);
                    err = cl_CloseRouter cl; s = closed Router s
                in case ClosePersistence cl (Some (sf_persist v)) s of
                     (closeErr, s) \<Rightarrow>
                       (case closeErr of Some e \<Rightarrow> if err = None then Some e else err | None \<Rightarrow> err, Some v, s)))"

section \<open>Life cycle\<close>

lemma openPersistence_handles:
  assumes "openPersistence os cl root conv s = (r, s')"
  shows "a_env s' = a_env s \<and> a_open s' = (case r of Inl _ \<Rightarrow> a_open s | Inr _ \<Rightarrow> TimelineStore # TurnStore # a_open s)"
  using assms by (auto simp: openPersistence_def Let_def mkdirAll_def opened_def closed_def split: option.splits sum.splits)

lemma openPersistence_paths:
  assumes "openPersistence os cl root conv s = (Inr p, s')"
  shows "pr_root p = defaultChatStateRoot root \<and> pr_turnsDBPath p = PathJoin [pr_root p, ''turns.db''] \<and>
    pr_timelineDBPath p = PathJoin [pr_root p, ''timeline.db''] \<and> pr_conversationID p \<noteq> '''' \<and>
    TrimSpace (pr_conversationID p) = pr_conversationID p"
proof -
  have "TrimSpace defaultConversationID = defaultConversationID" by code_simp
  then show ?thesis using assms
    by (auto simp: openPersistence_def Let_def mkdirAll_def defaultConversationID_def split: option.splits sum.splits if_splits)
qed

lemma CloseSurface_handles:
  assumes "sf_closed v = False" and "a_open s = TimelineStore # TurnStore # Router # hs"
  shows "\<exists>e v'. CloseSurface cl (Some v) s = (e, Some v', s\<lparr>a_open := hs\<rparr>) \<and> sf_closed v'"
  using assms by (simp add: CloseSurface_def ClosePersistence_def Let_def closed_def)

lemma AttachProgram_open: "\<exists>v1. AttachProgram p (Some v) = Some v1 \<and> sf_closed v1 = sf_closed v"
  by (simp add: AttachProgram_def)

lemma CloseSurface_again: "sf_closed v \<Longrightarrow> CloseSurface cl (Some v) s = (None, Some v, s)"
  by (simp add: CloseSurface_def)

lemma NewSurface_handles:
  assumes "NewSurface os lib cl utc listed options s = (r, s')" and "env_ok (a_env s)"
  shows "a_env s' = a_env s \<and> (case r of Inl _ \<Rightarrow> a_open s' = a_open s
     | Inr v \<Rightarrow> a_open s' = TimelineStore # TurnStore # Router # a_open s \<and> \<not> sf_closed v)"
proof -
  obtain r1 s1 where 1: "loadRuntimeDetails os lib options s = (r1, s1)" by fastforce
  have l: "a_env s1 = a_env s" "a_open s1 = a_open s"
    using loadRuntimeDetails_looks [OF 1 assms(2)] by (simp_all add: only_looks_def)
  let ?root = "firstNonEmpty [ai_ChatStateRoot options, ai_StateRoot options]"
  obtain r2 s2 where 2: "openPersistence os cl ?root (ai_ConversationID options) (opened Router s1) = (r2, s2)" by fastforce
  note h = openPersistence_handles [OF 2]
  show ?thesis
    using assms(1) l h
    by (auto simp: NewSurface_def 1 2 Let_def simp del: firstNonEmpty.simps split: sum.splits option.splits)
qed

text \<open>
  C20. \<^verbatim>\<open>New\<close> leaves the environment as it found it, also when the library fails
  while the variable is set. When it fails it leaves nothing open; when it succeeds the router and the two
  stores are open, and one \<^verbatim>\<open>Close\<close>, attached or not, closes exactly these; a second one does nothing.
\<close>

theorem surface_lifecycle:
  assumes "NewSurface os lib cl utc listed options s = (r, s')" and "env_ok (a_env s)"
  shows "a_env s' = a_env s \<and>
    (case r of
       Inl _ \<Rightarrow> a_open s' = a_open s
     | Inr v \<Rightarrow> a_open s' = TimelineStore # TurnStore # Router # a_open s \<and>
         (\<exists>e v'. CloseSurface cl (AttachProgram p (Some v)) s' = (e, Some v', s'\<lparr>a_open := a_open s\<rparr>) \<and>
            (\<forall>t. CloseSurface cl (Some v') t = (None, Some v', t))))"
proof (cases r)
  case (Inr v)
  obtain v1 where v1: "AttachProgram p (Some v) = Some v1" "sf_closed v1 = sf_closed v"
    using AttachProgram_open by blast
  with Inr NewSurface_handles [OF assms] CloseSurface_handles [of v1 s' "a_open s" cl] show ?thesis
    by (auto simp: CloseSurface_again)
qed (use NewSurface_handles [OF assms] in simp)

section \<open>Turns and the seed\<close>

definition saved_row :: "'t turn_lib \<Rightarrow> string \<Rightarrow> 't \<Rightarrow> int \<Rightarrow> turn_row \<Rightarrow> bool" where
  "saved_row lib conv t ts r =
     (tr_ConvID r = TrimSpace conv \<and> tr_ConvID r \<noteq> '''' \<and>
      (\<exists>v. tl_SessionID lib t = Inr (Some v) \<and> tr_SessionID r = TrimSpace v) \<and> tr_SessionID r \<noteq> '''' \<and>
      tr_TurnID r \<noteq> '''' \<and> tr_Phase r = ''final'' \<and> tl_ToYAML lib t = Inr (tr_Payload r) \<and> tr_CreatedAtMs r = unixMilli ts)"

text \<open>
  A persister of a conversation saves a turn at most once, with the conversation and the session it
  belongs to and its full serialisation; a turn without a session or one that does not
  serialise is refused and nothing is saved.
\<close>

theorem PersistTurn_spec:
  assumes "newTurnStorePersister True conv = Some p"
    and "PersistTurn os lib save (Some p) (Some t) (w, d) = (e, w', d')"
  shows "e \<noteq> None \<and> w' = w \<and> d' = d \<and>
      ((\<forall>v. tl_SessionID lib t = Inr (Some v) \<longrightarrow> TrimSpace v = '''') \<or> (\<exists>x. tl_ToYAML lib t = Inl x)) \<or>
    (\<exists>r. saved_row lib conv t (os_Now os w) r \<and> save r d = (e, d') \<and> w' = w @ [Now])"
proof -
  have p: "p = TrimSpace conv" "p \<noteq> ''''" using assms(1) by (auto simp: newTurnStorePersister_def split: if_splits)
  show ?thesis
  proof (cases "\<exists>v. tl_SessionID lib t = Inr (Some v) \<and> TrimSpace v \<noteq> ''''")
    case True
    then obtain v where v: "tl_SessionID lib t = Inr (Some v)" "TrimSpace v \<noteq> ''''" by blast
    show ?thesis
    proof (cases "tl_ToYAML lib t")
      case (Inr y)
      let ?r = "\<lparr>tr_ConvID = TrimSpace conv, tr_SessionID = TrimSpace v,
        tr_TurnID = (if TrimSpace (tl_ID lib t) = '''' then ''turn'' else TrimSpace (tl_ID lib t)),
        tr_Phase = ''final'', tr_CreatedAtMs = unixMilli (os_Now os w), tr_Payload = y,
        tr_RuntimeKey = (case tl_Runtime lib t of Inr (Some v) \<Rightarrow> TrimSpace (runtimeKeyFromMetaValue v) | _ \<Rightarrow> ''''),
        tr_InferenceID = (case tl_InferenceID lib t of Inr (Some v) \<Rightarrow> TrimSpace v | _ \<Rightarrow> '''')\<rparr>"
      have "save ?r d = (e, d') \<and> w' = w @ [Now]"
        using assms(2) v p Inr by (auto simp: PersistTurn_def Let_def now_def split: prod.splits)
      moreover have "saved_row lib conv t (os_Now os w) ?r" using v p Inr by (auto simp: saved_row_def)
      ultimately show ?thesis by blast
    qed (use assms(2) v p in \<open>auto simp: PersistTurn_def Let_def\<close>)
  next
    case False
    with assms(2) p show ?thesis by (auto simp: PersistTurn_def Let_def split: sum.splits option.splits)
  qed
qed

lemma concat_upto: "n \<le> length xs \<Longrightarrow> concat (map (\<lambda>i. f (xs ! i)) [0..<n]) = concat (map f (take n xs))"
proof -
  assume "n \<le> length xs"
  then have "take n xs = map ((!) xs) [0..<n]" by (simp add: list_eq_iff_nth_eq)
  then show ?thesis by (simp add: comp_def)
qed

lemma buildSeedTurn_eq:
  "buildSeedTurn utc (Inr ms) root prompt =
     Inr (Join LF (promptParts root prompt @
       (if ms = [] then [] else ['''', ''Current BBS messages:''] @ concat (map (seedEntry utc) (take 8 ms)))))"
proof (cases "ms = []")
  case False
  have "nat (min_int 8 (int (length ms))) = min 8 (length ms)" by (simp add: min_int_def min_def)
  moreover have "take (min 8 (length ms)) ms = take 8 ms" by (simp add: min_def)
  ultimately show ?thesis using False concat_upto [of "min 8 (length ms)" ms "seedEntry utc"]
    by (simp add: buildSeedTurn_def Let_def)
qed (simp add: buildSeedTurn_def Let_def)


section \<open>Instances\<close>

definition chat1 :: "(unit, unit, string) chat_lib" where
  "chat1 = \<lparr>cl_TurnDSN = Inr, cl_NewTurnStore = \<lambda>_. None, cl_TimelineDSN = Inr, cl_NewTimelineStore = \<lambda>_. None,
     cl_NewEngine = \<lambda>_. Inr (), cl_NewRouter = None, cl_InitialModel = \<lambda>_ title. title,
     cl_CloseTurn = None, cl_CloseTimeline = Some (errorf ''busy''), cl_CloseRouter = None\<rparr>"

lemma surface1:
  "\<exists>v s'. NewSurface good_os profiles1 chat1 Itoa (Inr [message1]) ai_options1 ai_st1 = (Inr v, s')"
proof -
  from details1 obtain dt where d: "loadRuntimeDetails good_os profiles1 ai_options1 ai_st1 = (Inr dt, ai_st1)" by blast
  have "\<exists>p s'. openPersistence good_os chat1 r c s = (Inr p, s')" for r c s
    by (simp add: openPersistence_def chat1_def Let_def mkdirAll_def good_os_def)
  then obtain p s' where p: "openPersistence good_os chat1 (firstNonEmpty [ai_ChatStateRoot ai_options1, ai_StateRoot ai_options1])
      (ai_ConversationID ai_options1) (opened Router ai_st1) = (Inr p, s')" by blast
  have c: "cl_NewEngine chat1 = (\<lambda>_. Inr ())" "cl_NewRouter chat1 = None" by (simp_all add: chat1_def)
  show ?thesis
    by (simp add: NewSurface_def d c p buildSeedTurn_eq Let_def del: firstNonEmpty.simps)
qed

theorem surface_lifecycle_witness:
  "\<exists>v s'. NewSurface good_os profiles1 chat1 Itoa (Inr [message1]) ai_options1 ai_st1 = (Inr v, s') \<and>
     a_open s' = [TimelineStore, TurnStore, Router] \<and> a_env s' ''XDG_CONFIG_HOME'' = None"
proof -
  from surface1 obtain v s' where
    n: "NewSurface good_os profiles1 chat1 Itoa (Inr [message1]) ai_options1 ai_st1 = (Inr v, s')" by blast
  from surface_lifecycle [OF n env_ok1, of True] n show ?thesis by (simp add: ai_st1_def)
qed

definition turn1 :: "unit turn_lib" where
  "turn1 = \<lparr>tl_SessionID = \<lambda>_. Inr (Some '' s''), tl_Runtime = \<lambda>_. Inr (Some (MMap [(''key'', MOther), (''slug'', MString ''k'')])),
     tl_InferenceID = \<lambda>_. Inr None, tl_ID = \<lambda>_. '''', tl_ToYAML = \<lambda>_. Inr ''y''\<rparr>"

theorem PersistTurn_spec_witness:
  "\<exists>r. saved_row turn1 ''c'' () 0 r \<and>
     PersistTurn good_os turn1 (\<lambda>r d. (None, r # d)) (newTurnStorePersister True ''c'') (Some ()) ([], []) = (None, [Now], [r])"
proof -
  have t: "TrimSpace ''c'' = ''c''" "TrimSpace '' s'' = ''s''" by code_simp+
  then have n: "newTurnStorePersister True ''c'' = Some ''c''" by (simp add: newTurnStorePersister_def)
  obtain e w' d' where p: "PersistTurn good_os turn1 (\<lambda>r d. (None, r # d)) (Some ''c'') (Some ()) ([], []) = (e, w', d')"
    by (metis prod.exhaust)
  have "\<not> (\<forall>v. tl_SessionID turn1 () = Inr (Some v) \<longrightarrow> TrimSpace v = '''')" "\<not> (\<exists>x. tl_ToYAML turn1 () = Inl x)"
    using t by (simp_all add: turn1_def)
  with PersistTurn_spec [OF n p] p show ?thesis by (auto simp: n now_good)
qed


end
