(* ===== verification/JSRepl.thy ===== *)
theory JSRepl
  imports AIRuntime "HOL-Library.Multiset"
begin

text \<open>
  The package \<^verbatim>\<open>internal/jsrepl\<close>: the JavaScript surface of the board and the functions it offers to
  scripts. The JavaScript engine, its event bus and the REPL widget are third-party: the record \<open>js_lib\<close>
  has what their calls return. The JSON codec is a parameter. A Go function stored in a JavaScript
  variable is the constructor of \<open>js_global\<close> that names it.
\<close>

section \<open>Data\<close>

record js_Options =
  js_StateRoot :: string
  js_DefaultAuthor :: string

record messageRecord =
  mc_ID :: int
  mc_Author :: string
  mc_Subject :: string
  mc_Body :: string
  mc_CreatedAt :: string

datatype js_payload = HelpPayload "(string \<times> string) list" | RecordPayload messageRecord | RecordsPayload "messageRecord list"

datatype js_global = GText string | GListMessages | GPost string | GPostAs

record js_lib =
  jl_NewEvaluator :: "go_error option"
  jl_NewBus :: "go_error option"
  jl_SetVariable :: "string \<Rightarrow> go_error option"
  jl_LoadScript :: "string \<Rightarrow> go_error option"
  jl_CloseEvaluator :: "go_error option"
  jl_Marshal :: "js_payload \<Rightarrow> string result"

record js_Surface =
  js_globals :: "(string \<times> js_global) list"
  js_attached :: bool
  js_cancel :: bool
  js_cancelled :: bool
  js_closed :: bool

section \<open>The store as scripts see it\<close>

text \<open>\<open>fmt\<close> is \<^verbatim>\<open>CreatedAt.Format\<close> with nine digits of a second.\<close>

definition toMessageRecord :: "(int \<Rightarrow> string) \<Rightarrow> Message \<Rightarrow> messageRecord" where
  "toMessageRecord fmt message =
     \<lparr>mc_ID = msg_ID message, mc_Author = msg_Author message, mc_Subject = msg_Subject message,
      mc_Body = msg_Body message, mc_CreatedAt = fmt (msg_CreatedAt message)\<rparr>"

definition listMessages :: "(int \<Rightarrow> string) \<Rightarrow> (Message list) result \<Rightarrow> (messageRecord list) result" where
  "listMessages fmt listed =
     (case listed of Inl e \<Rightarrow> Inl e | Inr messages \<Rightarrow> Inr (map (toMessageRecord fmt) messages))"

definition createMessage ::
  "(int \<Rightarrow> string) \<Rightarrow> (CreateMessageParams \<Rightarrow> 's \<Rightarrow> Message result \<times> 's) \<Rightarrow> string \<Rightarrow> string \<Rightarrow> string \<Rightarrow> 's \<Rightarrow>
   messageRecord result \<times> 's" where
  "createMessage fmt create author subject body s =
     (case create \<lparr>cm_Author = author, cm_Subject = subject, cm_Body = body\<rparr> s of
        (Inl e, s) \<Rightarrow> (Inl e, s)
      | (Inr message, s) \<Rightarrow> (Inr (toMessageRecord fmt message), s))"

text \<open>The three Go functions behind the API; each returns JSON text.\<close>

definition bbsListMessagesJSON :: "js_lib \<Rightarrow> (int \<Rightarrow> string) \<Rightarrow> (Message list) result \<Rightarrow> string result" where
  "bbsListMessagesJSON js fmt listed = bindR (listMessages fmt listed) (\<lambda>records. jl_Marshal js (RecordsPayload records))"

definition bbsPostAsJSON ::
  "js_lib \<Rightarrow> (int \<Rightarrow> string) \<Rightarrow> (CreateMessageParams \<Rightarrow> 's \<Rightarrow> Message result \<times> 's) \<Rightarrow> string \<Rightarrow> string \<Rightarrow> string \<Rightarrow> 's \<Rightarrow>
   string result \<times> 's" where
  "bbsPostAsJSON js fmt create author subject body s =
     (case createMessage fmt create author subject body s of
        (r, s) \<Rightarrow> (bindR r (\<lambda>record. jl_Marshal js (RecordPayload record)), s))"

definition bbsPostJSON ::
  "js_lib \<Rightarrow> (int \<Rightarrow> string) \<Rightarrow> (CreateMessageParams \<Rightarrow> 's \<Rightarrow> Message result \<times> 's) \<Rightarrow> string \<Rightarrow> string \<Rightarrow> string \<Rightarrow> 's \<Rightarrow>
   string result \<times> 's" where
  "bbsPostJSON js fmt create defaultAuthor subject body s =
     (case createMessage fmt create defaultAuthor subject body s of
        (r, s) \<Rightarrow> (bindR r (\<lambda>record. jl_Marshal js (RecordPayload record)), s))"

definition helpPayload :: js_payload where
  "helpPayload = HelpPayload
     [(''stateRoot'', ''Shared BBS state root''), (''listMessages'', ''List all current board messages''),
      (''post'', ''post(subject, body) using the default session author''), (''postAs'', ''postAs(author, subject, body)'')]"

definition sessionAuthor :: "js_Options \<Rightarrow> string" where
  "sessionAuthor options =
     (let defaultAuthor = TrimSpace (js_DefaultAuthor options) in if defaultAuthor = '''' then ''anonymous'' else defaultAuthor)"

definition globals :: "js_Options \<Rightarrow> string \<Rightarrow> (string \<times> js_global) list" where
  "globals options helpJSON =
     [(''__bbsStateRoot'', GText (js_StateRoot options)), (''__bbsHelpJSON'', GText helpJSON),
      (''__bbsListMessagesJSON'', GListMessages), (''__bbsPostJSON'', GPost (sessionAuthor options)), (''__bbsPostAsJSON'', GPostAs)]"

fun setVariables :: "js_lib \<Rightarrow> (string \<times> js_global) list \<Rightarrow> ((string \<times> js_global) list) result" where
  "setVariables js [] = Inr []"
| "setVariables js ((name, value) # rest) =
     (case jl_SetVariable js name of
        Some e \<Rightarrow> Inl (wrap (''install javascript global '' @ name @ '': '') e)
      | None \<Rightarrow> bindR (setVariables js rest) (\<lambda>vars. Inr ((name, value) # vars)))"

text \<open>The globals are installed in the order \<open>order\<close> in which Go happens to go through the map.\<close>

definition installGlobals ::
  "js_lib \<Rightarrow> ((string \<times> js_global) list \<Rightarrow> (string \<times> js_global) list) \<Rightarrow> js_Options \<Rightarrow> ((string \<times> js_global) list) result" where
  "installGlobals js order options =
     (case jl_Marshal js helpPayload of
        Inl e \<Rightarrow> Inl (wrap ''marshal bbs help payload: '' e)
      | Inr helpJSON \<Rightarrow>
          bindR (setVariables js (order (globals options helpJSON))) (\<lambda>vars.
            case jl_LoadScript js ''bbs-api.js'' of
              Some e \<Rightarrow> Inl (wrap ''load bbs javascript api shim: '' e)
            | None \<Rightarrow> Inr vars))"

section \<open>The surface\<close>

definition NewRepl ::
  "js_lib \<Rightarrow> ((string \<times> js_global) list \<Rightarrow> (string \<times> js_global) list) \<Rightarrow> js_Options \<Rightarrow> ai_st \<Rightarrow> js_Surface result \<times> ai_st" where
  "NewRepl js order options s =
     (case jl_NewEvaluator js of
        Some e \<Rightarrow> (Inl e, s)
      | None \<Rightarrow>
          (let s = opened Evaluator s
           in case jl_NewBus js of
                Some e \<Rightarrow> (Inl (wrap ''create bobatea event bus: '' e), closed Evaluator s)
              | None \<Rightarrow>
                  (case installGlobals js order options of
                     Inl e \<Rightarrow> (Inl e, closed Evaluator s)
                   | Inr vars \<Rightarrow>
                       (Inr \<lparr>js_globals = vars, js_attached = False, js_cancel = False, js_cancelled = False, js_closed = False\<rparr>, s))))"

definition AttachRepl :: "bool \<Rightarrow> js_Surface option \<Rightarrow> js_Surface option" where
  "AttachRepl hasProgram sf =
     (case sf of None \<Rightarrow> None
      | Some v \<Rightarrow> if \<not> hasProgram \<or> js_attached v then Some v else Some (v\<lparr>js_attached := True, js_cancel := True\<rparr>))"

definition CloseRepl :: "js_lib \<Rightarrow> js_Surface option \<Rightarrow> ai_st \<Rightarrow> go_error option \<times> js_Surface option \<times> ai_st" where
  "CloseRepl js sf s =
     (case sf of None \<Rightarrow> (None, None, s)
      | Some v \<Rightarrow>
          if js_closed v then (None, Some v, s)
          else (let v = v\<lparr>js_closed := True\<rparr>; v = (if js_cancel v then v\<lparr>js_cancelled := True\<rparr> else v)
                in (jl_CloseEvaluator js, Some v, closed Evaluator s)))"

section \<open>Properties\<close>

lemma NewRepl_handles:
  assumes "NewRepl js order options s = (r, s')"
  shows "case r of Inl _ \<Rightarrow> s' = s | Inr v \<Rightarrow> s' = opened Evaluator s \<and> \<not> js_closed v"
  using assms by (auto simp: NewRepl_def Let_def split: option.splits sum.splits)

lemma AttachRepl_open: "\<exists>v1. AttachRepl p (Some v) = Some v1 \<and> js_closed v1 = js_closed v"
  by (simp add: AttachRepl_def)

lemma CloseRepl_handles: "\<not> js_closed v \<Longrightarrow> \<exists>e v'. CloseRepl js (Some v) s = (e, Some v', closed Evaluator s) \<and> js_closed v'"
  by (simp add: CloseRepl_def Let_def)



lemma setVariables_all: "setVariables js gs = Inr vars \<Longrightarrow> vars = gs"
  by (induction js gs arbitrary: vars rule: setVariables.induct) (auto simp: bindR_Inr split: option.splits)

lemma sessionAuthor_not_blank: "TrimSpace (sessionAuthor options) = sessionAuthor options \<and> sessionAuthor options \<noteq> ''''"
proof -
  have "TrimSpace ''anonymous'' = ''anonymous''" by code_simp
  then show ?thesis by (simp add: sessionAuthor_def Let_def)
qed

lemma map_of_mset:
  assumes "mset xs = mset ys" and "distinct (map fst ys)"
  shows "map_of xs = map_of ys"
proof -
  have "mset (map fst xs) = mset (map fst ys)" using assms(1) by simp
  then have "distinct (map fst xs)" using assms(2) by (metis mset_eq_imp_distinct_iff)
  with assms show ?thesis by (intro map_of_inject_set [THEN iffD2]) (auto dest: mset_eq_setD)
qed

text \<open>
  Whatever the order in which Go goes through the map, a surface that was made
  has every function of the API, each bound to what it stands for: posting without an author is
  bound to the author of the session, which is never blank.
\<close>

theorem installGlobals_complete:
  assumes "\<And>gs. mset (order gs) = mset gs" and "installGlobals js order options = Inr vars"
  shows "\<exists>helpJSON. map_of vars = map_of (globals options helpJSON) \<and> jl_Marshal js helpPayload = Inr helpJSON \<and>
     map_of vars ''__bbsPostJSON'' = Some (GPost (sessionAuthor options)) \<and> TrimSpace (sessionAuthor options) \<noteq> ''''"
proof -
  obtain helpJSON where h: "jl_Marshal js helpPayload = Inr helpJSON" and v: "vars = order (globals options helpJSON)"
    using assms(2) by (auto simp: installGlobals_def bindR_Inr dest!: setVariables_all split: sum.splits option.splits)
  have "map_of vars = map_of (globals options helpJSON)"
    using assms(1) v by (intro map_of_mset) (simp_all add: globals_def)
  moreover have "map_of (globals options helpJSON) ''__bbsPostJSON'' = Some (GPost (sessionAuthor options))"
    by (simp add: globals_def)
  ultimately show ?thesis using h sessionAuthor_not_blank [of options] by auto
qed

context sqlite
begin

lemma createMessage_lists:
  assumes "createMessage fmt (CreateMessage os sq tm) author subject body (w, d) = (Inr record, w', d')"
  shows "map (toMessageRecord fmt) (rev (map (decode tm) (tbl d'))) =
     record # map (toMessageRecord fmt) (rev (map (decode tm) (tbl d)))"
proof -
  obtain m where "CreateMessage os sq tm \<lparr>cm_Author = author, cm_Subject = subject, cm_Body = body\<rparr> (w, d) = (Inr m, w', d')"
    "record = toMessageRecord fmt m"
    using assms by (auto simp: createMessage_def split: prod.splits sum.splits)
  with store.create_ok [where s = "(w, d)" and s' = "(w', d')" and m = m] show ?thesis by simp
qed

end


section \<open>Instances\<close>

definition js1 :: js_lib where
  "js1 = \<lparr>jl_NewEvaluator = None, jl_NewBus = None, jl_SetVariable = \<lambda>_. None, jl_LoadScript = \<lambda>_. None, jl_CloseEvaluator = None,
     jl_Marshal = \<lambda>_. Inr ''{}''\<rparr>"

theorem installGlobals_complete_witness:
  "\<exists>vars. installGlobals js1 rev \<lparr>js_StateRoot = ''/s'', js_DefaultAuthor = '' ''\<rparr> = Inr vars \<and>
     map_of vars ''__bbsPostJSON'' = Some (GPost (sessionAuthor \<lparr>js_StateRoot = ''/s'', js_DefaultAuthor = '' ''\<rparr>))"
proof -
  let ?o = "\<lparr>js_StateRoot = ''/s'', js_DefaultAuthor = '' ''\<rparr>"
  obtain vars where v: "installGlobals js1 rev ?o = Inr vars" by (simp add: installGlobals_def js1_def globals_def)
  from installGlobals_complete [OF _ v] v show ?thesis by auto
qed


end
