(* ===== verification/SSHBBS.thy ===== *)
theory SSHBBS
  imports BBSApp AIChat JSRepl
begin

text \<open>
  A session of the board: \<^verbatim>\<open>internal/sshbbs\<close>, which makes a board per SSH session, and the part of
  \<^verbatim>\<open>bbsapp.New\<close> and \<^verbatim>\<open>bbsapp.Close\<close> that makes and closes the two child surfaces, put together from
  the models of \<^verbatim>\<open>jsrepl\<close> and \<^verbatim>\<open>aichat\<close>. The widgets inside the surfaces are third-party.
\<close>

section \<open>The board with its surfaces\<close>

text \<open>
  A part of the board is one of its text widgets, the JavaScript surface with the third-party REPL widget
  it points to, or the chat surface.
\<close>

datatype ('w, 'c) part = Widget 'w | Repl js_Surface 'w | Chat "'c Surface"

record ('w, 'c) widget_lib =
  wd_ui :: "'w ui_lib"
  wd_ReplModel :: 'w
  wd_ChatInit :: "'c \<Rightarrow> cmd option"
  wd_ChatUpdate :: "msg \<Rightarrow> 'c \<Rightarrow> 'c \<times> cmd option"
  wd_ChatView :: "'c \<Rightarrow> string"

definition onWidget :: "('w \<Rightarrow> 'w) \<Rightarrow> ('w, 'c) part \<Rightarrow> ('w, 'c) part" where
  "onWidget f p = (case p of Widget u \<Rightarrow> Widget (f u) | _ \<Rightarrow> p)"

definition cmdOf :: "cmd option \<Rightarrow> cmd" where
  "cmdOf c = (case c of None \<Rightarrow> NoCmd | Some c \<Rightarrow> c)"

text \<open>The messages of the board go to the widgets: to those of the surfaces through the surfaces.\<close>

definition partUpdate :: "('w, 'c) widget_lib \<Rightarrow> msg \<Rightarrow> ('w, 'c) part \<Rightarrow> ('w, 'c) part \<times> cmd" where
  "partUpdate wd x p =
     (case p of
        Widget u \<Rightarrow> (case ui_Update (wd_ui wd) x u of (u, c) \<Rightarrow> (Widget u, c))
      | Repl v u \<Rightarrow> (case ui_Update (wd_ui wd) x u of (u, c) \<Rightarrow> (Repl v u, c))
      | Chat v \<Rightarrow> (case UpdateSurface (wd_ChatUpdate wd) x (Some v) of
                    (c, Some v) \<Rightarrow> (Chat v, cmdOf c) | (c, None) \<Rightarrow> (p, cmdOf c)))"

definition boardUI :: "('w, 'c) widget_lib \<Rightarrow> ('w, 'c) part ui_lib" where
  "boardUI wd = (let ui = wd_ui wd in
     \<lparr>ui_NewInput = \<lambda>a b n. Widget (ui_NewInput ui a b n), ui_NewArea = \<lambda>a. Widget (ui_NewArea ui a),
      ui_Value = \<lambda>p. (case p of Widget u \<Rightarrow> ui_Value ui u | _ \<Rightarrow> []),
      ui_SetValue = \<lambda>t. onWidget (ui_SetValue ui t), ui_Focus = onWidget (ui_Focus ui), ui_Blur = onWidget (ui_Blur ui),
      ui_SetWidth = \<lambda>n. onWidget (ui_SetWidth ui n), ui_SetHeight = \<lambda>n. onWidget (ui_SetHeight ui n),
      ui_Update = partUpdate wd,
      ui_Init = \<lambda>p. (case p of Chat v \<Rightarrow> cmdOf (InitSurface (wd_ChatInit wd) (Some v)) | Repl v u \<Rightarrow> ui_Init ui u | Widget u \<Rightarrow> ui_Init ui u),
      ui_View = \<lambda>p. (case p of Chat v \<Rightarrow> ViewSurface (wd_ChatView wd) (Some v) | Repl v u \<Rightarrow> ui_View ui u | Widget u \<Rightarrow> ui_View ui u)\<rparr>)"

definition chatOptions :: "Options \<Rightarrow> ai_Options" where
  "chatOptions options = \<lparr>ai_Title = ''qemu-go-init AI chat'', ai_StateRoot = op_StateRoot options,
     ai_ChatStateRoot = op_ChatStateRoot options, ai_ConversationID = '''', ai_ProfileSlug = '''', ai_ProfileRegistries = ''''\<rparr>"

definition replOptions :: "Options \<Rightarrow> js_Options" where
  "replOptions options = \<lparr>js_StateRoot = op_StateRoot options, js_DefaultAuthor = op_DefaultAuthor options\<rparr>"

record ('set, 'any, 'mgr, 'eng, 'c) session_lib =
  sl_os :: os
  sl_js :: js_lib
  sl_order :: "(string \<times> js_global) list \<Rightarrow> (string \<times> js_global) list"
  sl_profiles :: "('set, 'any, 'mgr) profile_lib"
  sl_chat :: "('set, 'eng, 'c) chat_lib"
  sl_utc :: "int \<Rightarrow> string"

definition newModel ::
  "('set, 'any, 'mgr, 'eng, 'c) session_lib \<Rightarrow> ('w, 'c) widget_lib \<Rightarrow> (Message list) result \<Rightarrow> Options \<Rightarrow> ai_st \<Rightarrow>
   (('w, 'c) part Model) result \<times> ai_st" where
  "newModel sl wd listed options s =
     (case NewRepl (sl_js sl) (sl_order sl) (replOptions options) s of
        (Inl e, s) \<Rightarrow> (New (boardUI wd) (Inl e) (Inl e) options, s)
      | (Inr repl, s) \<Rightarrow>
          (case NewSurface (sl_os sl) (sl_profiles sl) (sl_chat sl) (sl_utc sl) listed (chatOptions options) s of
             (chat, s) \<Rightarrow> (New (boardUI wd) (Inr (Repl repl (wd_ReplModel wd))) (case chat of Inl e \<Rightarrow> Inl e | Inr c \<Rightarrow> Inr (Chat c)) options, s)))"

text \<open>\<^verbatim>\<open>AttachProgram\<close> of the board hands the program to both surfaces.\<close>

definition attachPart :: "('w, 'c) part \<Rightarrow> ('w, 'c) part" where
  "attachPart p =
     (case p of
        Repl v u \<Rightarrow> (case AttachRepl True (Some v) of Some v \<Rightarrow> Repl v u | None \<Rightarrow> p)
      | Chat v \<Rightarrow> (case AttachProgram True (Some v) of Some v \<Rightarrow> Chat v | None \<Rightarrow> p)
      | _ \<Rightarrow> p)"

definition AttachModel :: "('w, 'c) part Model \<Rightarrow> ('w, 'c) part Model" where
  "AttachModel m = m\<lparr>bm_repl := map_option attachPart (bm_repl m), bm_chat := map_option attachPart (bm_chat m)\<rparr>"

definition closeModel ::
  "('set, 'any, 'mgr, 'eng, 'c) session_lib \<Rightarrow> ('w, 'c) part Model \<Rightarrow> ai_st \<Rightarrow> go_error option \<times> ai_st" where
  "closeModel sl m s =
     (case (case bm_repl m of
              Some (Repl v _) \<Rightarrow> (case CloseRepl (sl_js sl) (Some v) s of (e, _, s) \<Rightarrow> (e, s))
            | _ \<Rightarrow> (None, s)) of (err, s) \<Rightarrow>
        (case bm_chat m of
           Some (Chat v) \<Rightarrow>
             (case CloseSurface (sl_chat sl) (Some v) s of (closeErr, _, s) \<Rightarrow>
                (case closeErr of Some e \<Rightarrow> if err = None then Some e else err | None \<Rightarrow> err, s))
         | _ \<Rightarrow> (err, s)))"

section \<open>The middleware\<close>

definition fallback :: "string \<Rightarrow> string \<Rightarrow> string" where
  "fallback value alternate = (if value = '''' then alternate else value)"

definition sessionOptions :: "Store \<Rightarrow> string \<Rightarrow> string \<Rightarrow> Options" where
  "sessionOptions store chatStateRoot user =
     \<lparr>op_Title = ''qemu-go-init bbs'', op_Subtitle = ''SSH BBS for '' @ fallback user ''anonymous'', op_StateRoot = Root store,
      op_ChatStateRoot = chatStateRoot, op_DefaultAuthor = fallback user ''anonymous''\<rparr>"

datatype 'm program = errorModel go_error | BoardProgram 'm

definition Middleware ::
  "('set, 'any, 'mgr, 'eng, 'c) session_lib \<Rightarrow> ('w, 'c) widget_lib \<Rightarrow> (Message list) result \<Rightarrow> Store \<Rightarrow> string \<Rightarrow> string \<Rightarrow> ai_st \<Rightarrow>
   (('w, 'c) part Model) program \<times> ai_st" where
  "Middleware sl wd listed store chatStateRoot user s =
     (case newModel sl wd listed (sessionOptions store chatStateRoot user) s of
        (Inl e, s) \<Rightarrow> (errorModel e, s)
      | (Inr model, s) \<Rightarrow> (BoardProgram (AttachModel model), s))"

text \<open>The goroutine that waits for the end of the session.\<close>

definition sessionDone ::
  "('set, 'any, 'mgr, 'eng, 'c) session_lib \<Rightarrow> (('w, 'c) part Model) program \<Rightarrow> ai_st \<Rightarrow> ai_st" where
  "sessionDone sl p s = (case p of errorModel _ \<Rightarrow> s | BoardProgram m \<Rightarrow> snd (closeModel sl m s))"

definition errorUpdate :: "msg \<Rightarrow> cmd" where
  "errorUpdate x =
     (case x of KeyMsg key \<Rightarrow> if List.member [''ctrl+c'', ''q'', ''enter'', ''esc''] key then Quit else NoCmd | _ \<Rightarrow> NoCmd)"

definition errorView :: "go_error \<Rightarrow> string" where
  "errorView e = ''failed to start BBS JavaScript REPL:'' @ LF @ LF @ err_text e @ LF @ LF @
     ''Press q, enter, esc, or ctrl+c to exit.'' @ LF"



section \<open>Properties\<close>

definition chat_handles :: "'c Surface result \<Rightarrow> handle list" where
  "chat_handles r = (case r of Inl _ \<Rightarrow> [] | Inr _ \<Rightarrow> [TimelineStore, TurnStore, Router])"

lemma closeModel_releases:
  assumes "bm_repl m = Some (Repl v u)" "\<not> js_closed v"
    and "bm_chat m = None \<and> a_open s = Evaluator # hs \<or>
      (\<exists>c. bm_chat m = Some (Chat c) \<and> \<not> sf_closed c \<and> a_open s = [TimelineStore, TurnStore, Router, Evaluator] @ hs)"
  shows "a_open (snd (closeModel sl m s)) = hs \<and> a_env (snd (closeModel sl m s)) = a_env s"
proof -
  obtain e v' where r: "CloseRepl (sl_js sl) (Some v) s = (e, Some v', closed Evaluator s)"
    using CloseRepl_handles [OF assms(2)] by blast
  show ?thesis
  proof (cases "bm_chat m")
    case (Some p)
    with assms(3) obtain c where c: "p = Chat c" "sf_closed c = False" "a_open s = [TimelineStore, TurnStore, Router, Evaluator] @ hs"
      by auto
    then have "a_open (closed Evaluator s) = TimelineStore # TurnStore # Router # hs" by simp
    from CloseSurface_handles [OF c(2) this, of "sl_chat sl"] show ?thesis
      by (auto simp: closeModel_def assms(1) r Some c(1))
  qed (use assms(3) in \<open>simp add: closeModel_def assms(1) r\<close>)
qed

lemma New_children:
  assumes "New ui r c options = Inr m"
  shows "\<exists>x. r = Inr x \<and> bm_repl m = Some x \<and> bm_chat m = (case c of Inl _ \<Rightarrow> None | Inr y \<Rightarrow> Some y)"
  using assms by (auto simp: New_def Let_def split: sum.splits)

text \<open>
  While the board runs, its surfaces stay the ones it was made with: an update changes at most the widget
  of a surface.
\<close>

fun same_part :: "('w, 'c) part \<Rightarrow> ('w, 'c) part \<Rightarrow> bool" where
  "same_part (Repl v _) q = (\<exists>u. q = Repl v u)"
| "same_part (Chat c) q = (\<exists>u. q = Chat (c\<lparr>sf_model := u\<rparr>))"
| "same_part (Widget _) q = (\<exists>u. q = Widget u)"

definition same_surfaces :: "('w, 'c) part Model \<Rightarrow> ('w, 'c) part Model \<Rightarrow> bool" where
  "same_surfaces m m' = (rel_option same_part (bm_repl m) (bm_repl m') \<and> rel_option same_part (bm_chat m) (bm_chat m'))"

lemma same_part_refl: "same_part p p"
proof (cases p)
  case (Chat c)
  have "c = c\<lparr>sf_model := sf_model c\<rparr>" by simp
  then show ?thesis unfolding Chat same_part.simps by blast
qed auto

lemma same_part_trans: "same_part p q \<Longrightarrow> same_part q r \<Longrightarrow> same_part p r"
  by (cases p) auto

lemma rel_same_part_refl: "rel_option same_part p p"
  by (cases p) (simp_all add: same_part_refl)

lemma same_surfaces_refl [simp, intro]: "same_surfaces m m"
  by (simp add: same_surfaces_def rel_same_part_refl)

lemma rel_same_part_trans: "rel_option same_part p q \<Longrightarrow> rel_option same_part q r \<Longrightarrow> rel_option same_part p r"
  by (cases p; cases q; cases r) (auto intro: same_part_trans)

lemma same_surfaces_trans [trans]: "same_surfaces a b \<Longrightarrow> same_surfaces b c \<Longrightarrow> same_surfaces a c"
  unfolding same_surfaces_def using rel_same_part_trans by blast

lemma partUpdate_same: "same_part p (fst (partUpdate wd x p))"
  by (cases p) (auto simp: partUpdate_def UpdateSurface_def split: prod.splits)

lemma boardUI_Update [simp]: "ui_Update (boardUI wd) = partUpdate wd"
  by (simp add: boardUI_def Let_def)

lemma same_when_kept: "bm_repl m' = bm_repl m \<Longrightarrow> bm_chat m' = bm_chat m \<Longrightarrow> same_surfaces m m'"
  by (simp add: same_surfaces_def rel_same_part_refl)

lemma updateREPLChild_same: "same_surfaces m (fst (updateREPLChild (boardUI wd) x m))"
  using partUpdate_same [of "the (bm_repl m)" wd x]
  by (auto simp: updateREPLChild_def same_surfaces_def rel_same_part_refl split: option.split prod.splits)

lemma updateChatChild_same: "same_surfaces m (fst (updateChatChild (boardUI wd) x m))"
  using partUpdate_same [of "the (bm_chat m)" wd x]
  by (auto simp: updateChatChild_def same_surfaces_def rel_same_part_refl split: option.split prod.splits)

lemma updateComposeWidgets_repl [simp]: "bm_repl (fst (updateComposeWidgets ui x m)) = bm_repl m"
  by (simp add: updateComposeWidgets_def split: prod.split)

lemma updateCompose_same: "same_surfaces m (fst (updateCompose ui key m))"
  by (rule same_when_kept) (auto simp: updateCompose_def)

lemma updateBrowse_same: "same_surfaces m (fst (updateBrowse ui key m))"
  by (rule same_when_kept) (simp_all add: updateBrowse_def split: option.split)

lemma updateREPL_same: "same_surfaces m (fst (updateREPL (boardUI wd) x m))"
  using updateREPLChild_same [of m wd x] by (simp add: updateREPL_def same_when_kept)

lemma updateChat_same: "same_surfaces m (fst (updateChat (boardUI wd) x m))"
  using updateChatChild_same [of m wd x] by (simp add: updateChat_def same_when_kept)

lemma Update_same: "same_surfaces m (fst (Update (boardUI wd) ts x m))"
proof (cases x)
  case (WindowSizeMsg width height)
  let ?m = "m\<lparr>bm_width := width, bm_height := height,
     bm_body := ui_SetHeight (boardUI wd) (max_int 8 (height - 16)) (ui_SetWidth (boardUI wd) (max_int 24 (width - 12)) (bm_body m))\<rparr>"
  let ?r = "fst (updateREPLChild (boardUI wd) x ?m)"
  have "same_surfaces m ?m" by (rule same_when_kept) simp_all
  also have "same_surfaces ?m ?r" by (rule updateREPLChild_same)
  also have "same_surfaces ?r (fst (updateChatChild (boardUI wd) x ?r))" by (rule updateChatChild_same)
  finally show ?thesis by (simp add: Update_def WindowSizeMsg Let_def split_beta)
next
  case (messagesLoadedMsg r)
  show ?thesis by (rule same_when_kept) (simp_all add: Update_def messagesLoadedMsg Let_def split: sum.split)
next
  case (messageCreatedMsg r)
  show ?thesis by (rule same_when_kept) (simp_all add: Update_def messageCreatedMsg split: sum.split)
next
  case (KeyMsg key)
  then show ?thesis by (simp add: Update_def updateCompose_same updateREPL_same updateChat_same updateBrowse_same)
next
  case (OtherMsg n)
  have "same_surfaces m (fst (updateComposeWidgets (boardUI wd) x m))" by (rule same_when_kept) simp_all
  then show ?thesis by (simp add: Update_def OtherMsg updateREPL_same updateChat_same)
qed

lemma View_same: "same_surfaces m (snd (View lip ui localTime m))"
  by (rule same_when_kept) (simp_all add: View_def Let_def split: mode.split option.split)

lemma app_step_same: "app_step (boardUI wd) lst create a b \<Longrightarrow> same_surfaces (ap_model a) (ap_model b)"
proof (induction rule: app_step.induct)
  case (deliver x a ts)
  then show ?case using Update_same [of "ap_model a" wd ts x] by (simp add: handle_model)
qed (simp_all add: handle_model Update_same View_same)

lemma run_same: "(app_step (boardUI wd) lst create)\<^sup>*\<^sup>* a b \<Longrightarrow> same_surfaces (ap_model a) (ap_model b)"
  by (induction rule: rtranclp_induct) (auto intro: same_surfaces_trans app_step_same)

text \<open>The board as the runtime starts it: with the commands of \<^verbatim>\<open>Init\<close>.\<close>

definition startApp :: "('w, 'c) widget_lib \<Rightarrow> ('w, 'c) part Model \<Rightarrow> 's \<Rightarrow> (('w, 'c) part, 's) app" where
  "startApp wd m st = \<lparr>ap_model = m, ap_store = st, ap_cmds = flatten_cmd (Init (boardUI wd) m), ap_inbox = []\<rparr>"

text \<open>A board made by \<^verbatim>\<open>newModel\<close> and run for as long as anyone likes gives its handles back when it is closed.\<close>

lemma newModel_releases:
  assumes new: "newModel sl wd listed options s = (Inr m, s1)" and env: "env_ok (a_env s)"
    and run: "(app_step (boardUI wd) lst create)\<^sup>*\<^sup>* (startApp wd (AttachModel m) st) b"
    and s2: "a_open s2 = a_open s1" "a_env s2 = a_env s1"
  shows "a_open (snd (closeModel sl (ap_model b) s2)) = a_open s \<and> a_env (snd (closeModel sl (ap_model b) s2)) = a_env s"
proof -
  obtain r1 s0 where 1: "NewRepl (sl_js sl) (sl_order sl) (replOptions options) s = (r1, s0)" by fastforce
  obtain repl where r1: "r1 = Inr repl" using new by (cases r1) (auto simp: newModel_def 1 New_def Let_def)
  with NewRepl_handles [OF 1] have s0: "s0 = opened Evaluator s" "\<not> js_closed repl" by simp_all
  obtain r2 s2' where
    2: "NewSurface (sl_os sl) (sl_profiles sl) (sl_chat sl) (sl_utc sl) listed (chatOptions options) s0 = (r2, s2')" by fastforce
  have h2: "a_env s2' = a_env s \<and> (case r2 of Inl _ \<Rightarrow> a_open s2' = Evaluator # a_open s
     | Inr c \<Rightarrow> a_open s2' = [TimelineStore, TurnStore, Router, Evaluator] @ a_open s \<and> \<not> sf_closed c)"
    using NewSurface_handles [OF 2] env s0 by (auto split: sum.splits)
  have m: "s1 = s2'" "New (boardUI wd) (Inr (Repl repl (wd_ReplModel wd))) (case r2 of Inl e \<Rightarrow> Inl e | Inr c \<Rightarrow> Inr (Chat c)) options = Inr m"
    using new by (auto simp: newModel_def 1 2 r1)
  note ch = New_children [OF m(2)]
  have same: "same_surfaces (AttachModel m) (ap_model b)" using run_same [OF run] by (simp add: startApp_def)
  obtain v0 where v0: "AttachRepl True (Some repl) = Some v0" "\<not> js_closed v0" using AttachRepl_open [of True repl] s0(2) by auto
  then have "bm_repl (AttachModel m) = Some (Repl v0 (wd_ReplModel wd))" using ch by (simp add: AttachModel_def attachPart_def)
  with same obtain u where v: "bm_repl (ap_model b) = Some (Repl v0 u)"
    by (cases "bm_repl (ap_model b)") (auto simp: same_surfaces_def)
  have "bm_chat (ap_model b) = None \<and> a_open s2 = Evaluator # a_open s \<or>
      (\<exists>c. bm_chat (ap_model b) = Some (Chat c) \<and> \<not> sf_closed c \<and> a_open s2 = [TimelineStore, TurnStore, Router, Evaluator] @ a_open s)"
  proof (cases r2)
    case (Inl e)
    then have "bm_chat (AttachModel m) = None" using ch by (simp add: AttachModel_def)
    with same show ?thesis using h2 Inl s2 m(1) by (simp add: same_surfaces_def)
  next
    case (Inr c0)
    obtain c1 where c1: "AttachProgram True (Some c0) = Some c1" "\<not> sf_closed c1"
      using AttachProgram_open [of True c0] h2 Inr by auto
    then have "bm_chat (AttachModel m) = Some (Chat c1)" using ch Inr by (simp add: AttachModel_def attachPart_def)
    with same obtain w where "bm_chat (ap_model b) = Some (Chat (c1\<lparr>sf_model := w\<rparr>))"
      by (cases "bm_chat (ap_model b)") (auto simp: same_surfaces_def)
    then show ?thesis using h2 Inr s2 m(1) c1(2) by simp
  qed
  from closeModel_releases [OF v v0(2) this, of sl] h2 s2 m(1) show ?thesis by simp
qed

lemma newModel_error:
  assumes "newModel sl wd listed options s = (Inl e, s1)"
  shows "a_open s1 = a_open s \<and> a_env s1 = a_env s"
proof -
  obtain r1 s0 where 1: "NewRepl (sl_js sl) (sl_order sl) (replOptions options) s = (r1, s0)" by fastforce
  with assms NewRepl_handles [OF 1] show ?thesis
    by (cases r1) (auto simp: newModel_def New_def Let_def split: prod.splits)
qed

text \<open>
  C19. A session gives back what it took: whether or not the JavaScript engine or the chat could be
  started, and whatever the user and the libraries do with the board while the session lasts, after its end the open
  handles and the environment are those from before it.
\<close>

theorem session_releases:
  assumes "Middleware sl wd listed store chatStateRoot user s = (p, s1)" and "env_ok (a_env s)"
    and "case p of errorModel e \<Rightarrow> q = p
         | BoardProgram m \<Rightarrow> \<exists>b. (app_step (boardUI wd) lst create)\<^sup>*\<^sup>* (startApp wd m st) b \<and> q = BoardProgram (ap_model b)"
    and "a_open s2 = a_open s1" and "a_env s2 = a_env s1"
  shows "a_open (sessionDone sl q s2) = a_open s \<and> a_env (sessionDone sl q s2) = a_env s"
proof -
  let ?o = "sessionOptions store chatStateRoot user"
  obtain r t where n: "newModel sl wd listed ?o s = (r, t)" by fastforce
  show ?thesis
  proof (cases r)
    case (Inl e)
    with assms(1,3) n have "q = errorModel e" "t = s1" by (auto simp: Middleware_def)
    with newModel_error [of sl wd listed ?o s e t] n Inl assms(4,5) show ?thesis by (simp add: sessionDone_def)
  next
    case (Inr m)
    with assms(1) n have p: "p = BoardProgram (AttachModel m)" "t = s1" by (auto simp: Middleware_def)
    with assms(3) obtain b where
      b: "(app_step (boardUI wd) lst create)\<^sup>*\<^sup>* (startApp wd (AttachModel m) st) b" "q = BoardProgram (ap_model b)" by auto
    from newModel_releases [OF n [unfolded Inr p(2)] assms(2) b(1) assms(4,5)] b(2) show ?thesis by (simp add: sessionDone_def)
  qed
qed

section \<open>Instances\<close>

definition text_widgets :: "(string, string) widget_lib" where
  "text_widgets = \<lparr>wd_ui = text_ui, wd_ReplModel = '''', wd_ChatInit = \<lambda>_. None, wd_ChatUpdate = \<lambda>_ u. (u, None), wd_ChatView = id\<rparr>"

definition session1 :: "(unit, unit, unit, unit, string) session_lib" where
  "session1 = \<lparr>sl_os = good_os, sl_js = js1, sl_order = rev, sl_profiles = profiles1, sl_chat = chat1, sl_utc = Itoa\<rparr>"

lemma session1_model: "\<exists>m s'. newModel session1 wd listed options s = (Inr m, s')"
proof -
  obtain repl s0 where "NewRepl js1 rev (replOptions options) s = (Inr repl, s0)"
    by (simp add: NewRepl_def js1_def installGlobals_def globals_def Let_def)
  then show ?thesis by (simp add: newModel_def session1_def New_def Let_def split: prod.split)
qed

theorem session_releases_witness:
  "\<exists>m s'. Middleware session1 text_widgets (Inr []) \<lparr>st_root = ''/b'', st_dbPath = ''/b/bbs.db''\<rparr> '''' ''root'' ai_st1 = (BoardProgram m, s') \<and>
     a_open s' \<noteq> [] \<and> a_open (sessionDone session1 (BoardProgram m) s') = []"
proof -
  let ?st = "\<lparr>st_root = ''/b'', st_dbPath = ''/b/bbs.db''\<rparr>"
  obtain repl s0 where 1: "NewRepl js1 rev (replOptions (sessionOptions ?st '''' ''root'')) ai_st1 = (Inr repl, s0)"
    by (simp add: NewRepl_def js1_def installGlobals_def globals_def Let_def)
  obtain p s' where
    m: "Middleware session1 text_widgets (Inr []) ?st '''' ''root'' ai_st1 = (p, s')" by fastforce
  with 1 obtain m where p: "p = BoardProgram m"
    by (auto simp: Middleware_def newModel_def session1_def New_def Let_def split: prod.splits)
  have "a_open (sessionDone session1 p s') = a_open ai_st1 \<and> a_env (sessionDone session1 p s') = a_env ai_st1"
    by (rule session_releases [OF m env_ok1, where st = "()" and lst = "\<lambda>_. Inr []" and create = "\<lambda>p s. (Inl (errorf ''''), s)"])
       (auto simp: p startApp_def intro!: exI [of _ "startApp text_widgets m ()"])
  moreover have "a_open s' \<noteq> []"
  proof -
    have "a_open s0 = [Evaluator]" using NewRepl_handles [OF 1] by (simp add: ai_st1_def)
    obtain r2 s2 where 2: "NewSurface good_os profiles1 chat1 Itoa (Inr []) (chatOptions (sessionOptions ?st '''' ''root'')) s0 = (r2, s2)"
      by fastforce
    have "a_env s0 = a_env ai_st1" using NewRepl_handles [OF 1] by simp
    with NewSurface_handles [OF 2] env_ok1 \<open>a_open s0 = [Evaluator]\<close> have "a_open s2 \<noteq> []" by (auto split: sum.splits)
    moreover have "s' = s2" using m 1 2 by (auto simp: Middleware_def newModel_def session1_def p split: sum.splits)
    ultimately show ?thesis by simp
  qed
  ultimately show ?thesis using m p by (auto simp: ai_st1_def)
qed

end
