(* ===== verification/BBSMain.thy ===== *)
theory BBSMain
  imports Cmdline SSHBBS
begin

text \<open>
  The host command \<^verbatim>\<open>cmd/bbs\<close>: it opens the store, makes the board, lets the Bubble Tea runtime run it and closes
  both. \<^verbatim>\<open>log.Fatalf\<close> prints and exits with status 1 at once: deferred calls do not run. The logger's prefix
  and time stamp are left out of what is printed; the log level set first concerns only a third-party logger.
\<close>

section \<open>The command\<close>

definition defaultStateRoot :: string where
  "defaultStateRoot = PathJoin [''build'', ''shared-state'', ''bbs'']"

definition bbs_flags :: "string flag_set" where
  "bbs_flags = [''state-root'' \<mapsto> \<lambda>v _. v]"

definition hostOptions :: "Store \<Rightarrow> Options" where
  "hostOptions store =
     \<lparr>op_Title = ''qemu-go-init bbs'', op_Subtitle = ''Host-native Bubble Tea board'', op_StateRoot = Root store,
      op_ChatStateRoot = PathJoin [Dir (Root store), ''chat''], op_DefaultAuthor = ''''\<rparr>"

datatype 'm bbs_phase = Exited nat string | Running Store 'm

text \<open>\<^verbatim>\<open>main\<close> up to \<^verbatim>\<open>program.Run\<close>, from the libraries' state and the database.\<close>

definition startBBS ::
  "'d sqlite_lib \<Rightarrow> time_lib \<Rightarrow> ('set, 'any, 'mgr, 'eng, 'c) session_lib \<Rightarrow> ('w, 'c) widget_lib \<Rightarrow> string \<Rightarrow> string list \<Rightarrow>
   ai_st \<times> 'd \<Rightarrow> (('w, 'c) part Model) bbs_phase \<times> ai_st \<times> 'd" where
  "startBBS sq tm sl wd usage args st =
     (case st of (s, d) \<Rightarrow>
       (case parseFlags bbs_flags args defaultStateRoot of
          Inl e \<Rightarrow> (Exited (flag_exit e) (flag_message usage e), s, d)
        | Inr (stateRoot, _) \<Rightarrow>
            (case BBSStore.Open (sl_os sl) sq tm stateRoot (a_world s, d) of
               (Inl e, w, d) \<Rightarrow> (Exited 1 (''open store: '' @ err_text e), s\<lparr>a_world := w\<rparr>, d)
             | (Inr store, w, d) \<Rightarrow>
                 (case newModel sl wd (ListMessages sq tm d) (hostOptions store) (s\<lparr>a_world := w\<rparr>) of
                    (Inl e, s) \<Rightarrow> (Exited 1 (''create bbs app: '' @ err_text e), s, d)
                  | (Inr model, s) \<Rightarrow> (Running store (AttachModel model), s, d)))))"

text \<open>The rest of \<^verbatim>\<open>main\<close>, from the error \<^verbatim>\<open>program.Run\<close> returned: status, what is printed, and the state.\<close>

definition endBBS ::
  "'d sqlite_lib \<Rightarrow> ('set, 'any, 'mgr, 'eng, 'c) session_lib \<Rightarrow> Store \<Rightarrow> ('w, 'c) part Model \<Rightarrow> go_error option \<Rightarrow>
   ai_st \<times> 'd \<Rightarrow> (nat \<times> string) \<times> ai_st \<times> 'd" where
  "endBBS sq sl store model runErr st =
     (case st of (s, d) \<Rightarrow>
       (case runErr of
          Some e \<Rightarrow> ((1, ''run bbs: '' @ err_text e), s, d)
        | None \<Rightarrow>
            (case closeModel sl model s of (closeErr, s) \<Rightarrow>
               ((0, case closeErr of Some e \<Rightarrow> ''close bbs app: '' @ err_text e | None \<Rightarrow> ''''), s,
                snd (CloseStore sq (Some store) d)))))"

section \<open>Properties\<close>

interpretation bbs: flag_names bbs_flags
  by unfold_locales (auto simp: bbs_flags_def plain_name_def split: if_splits)

text \<open>What a run of the board leaves in the store: what was there, and what was posted since.\<close>

context message_store
begin

lemma app_step_grows: "app_step ui list_messages create a b \<Longrightarrow> prefix (msgs (ap_store a)) (msgs (ap_store b))"
proof (induction rule: app_step.induct)
  case (run c a ms s')
  show ?case
  proof (cases c)
    case (createMessageCmd p)
    obtain r t where "create p (ap_store a) = (r, t)" by fastforce
    with createMessageCmd run(2) create_ok [of p "ap_store a"] create_error [of p "ap_store a"] show ?thesis
      by (cases r) (auto simp: exec_def)
  qed (use run in \<open>auto simp: exec_def\<close>)
next
  case (other_client a p)
  obtain r t where "create p (ap_store a) = (r, t)" by fastforce
  with create_ok [of p "ap_store a"] create_error [of p "ap_store a"] show ?case by (cases r) auto
qed simp_all

lemma app_grows: "(app_step ui list_messages create)\<^sup>*\<^sup>* a b \<Longrightarrow> prefix (msgs (ap_store a)) (msgs (ap_store b))"
  by (induction rule: rtranclp_induct) (auto dest: app_step_grows intro: prefix_order.trans)

end

context sqlite
begin

lemma board_run:
  assumes "(app_step ui (\<lambda>s. ListMessages sq tm (snd s)) (CreateMessage os sq tm))\<^sup>*\<^sup>* a b"
  shows "prefix (map (decode tm) (tbl (snd (ap_store a)))) (map (decode tm) (tbl (snd (ap_store b))))"
  using store.app_grows [OF assms] by simp

lemma Close_keeps: "tbl (snd (CloseStore sq st d)) = tbl d"
  by (simp add: CloseStore_def close_keeps split: option.split)

lemma Open_grows:
  assumes "BBSStore.Open os sq tm root (w, d) = (r, w', d')"
  shows "prefix (map (decode tm) (tbl d)) (map (decode tm) (tbl d'))"
  using Open_seeds(1) [OF assms] by auto

end

lemma startBBS_Running:
  assumes "startBBS sq tm sl wd usage args (s, d) = (Running store m, s1, d1)"
  obtains stateRoot w m0 where "BBSStore.Open (sl_os sl) sq tm stateRoot (a_world s, d) = (Inr store, w, d1)"
    "newModel sl wd (ListMessages sq tm d1) (hostOptions store) (s\<lparr>a_world := w\<rparr>) = (Inr m0, s1)" "m = AttachModel m0"
  using assms by (auto simp: startBBS_def split: sum.splits prod.splits)


text \<open>
  When the runtime reports an error the process exits at once with status 1: the surfaces and the store are
  not closed.
\<close>

lemma bbs_run_error: "endBBS sq sl store m (Some e) (s, d) = ((1, ''run bbs: '' @ err_text e), s, d)"
  by (simp add: endBBS_def)

section \<open>Instances\<close>

lemma board1_open: "\<exists>store w. BBSStore.Open good_os mem_sql mem_time root (w0, board1) = (Inr store, w, board1)"
proof -
  have x: "execAll mem_sql sts board1 = (None, board1)" for sts
    by (induction sts) (simp_all add: mem_sql_def mem_Exec_def)
  have "init good_os mem_sql mem_time (w, board1) = (None, w, board1)" for w
    by (simp add: init_def x CountMessages_def wrapR_def) (simp add: mem_sql_def rows_board1)
  then show ?thesis
    by (simp add: BBSStore.Open_def call_defs Let_def) (simp add: good_os_def mem_sql_def)
qed


end
