(* ===== verification/Kmod.thy ===== *)
theory Kmod
  imports Sys
begin

text \<open>
  The package \<^verbatim>\<open>internal/kmod\<close>: kernel modules packed into the initramfs are loaded with
  \<^verbatim>\<open>finit_module\<close>. The log lines of \<^verbatim>\<open>logResult\<close> repeat the result and are not modelled.
\<close>

definition VirtioRNGModulePath :: string where
  "VirtioRNGModulePath = ''/lib/modules/virtio_rng.ko''"

definition NetFSModulePath :: string where
  "NetFSModulePath = ''/lib/modules/netfs.ko''"

definition NinePModulePath :: string where
  "NinePModulePath = ''/lib/modules/9p.ko''"

definition NinePNetModulePath :: string where
  "NinePNetModulePath = ''/lib/modules/9pnet.ko''"

definition NinePNetVirtioModulePath :: string where
  "NinePNetVirtioModulePath = ''/lib/modules/9pnet_virtio.ko''"

record kmod_Result =
  km_Attempted :: bool
  km_Loaded :: bool
  km_AlreadyLoaded :: bool
  km_ModulePath :: string
  km_Step :: string
  km_Error :: string

definition ensureModule ::
  "string \<Rightarrow> (string \<Rightarrow> (fstat result) io) \<Rightarrow> (string \<Rightarrow> (go_error option) io) \<Rightarrow> kmod_Result io" where
  "ensureModule path statf loader w =
     (let result = \<lparr>km_Attempted = False, km_Loaded = False, km_AlreadyLoaded = False,
                    km_ModulePath = path, km_Step = ''stat'', km_Error = ''''\<rparr>
      in case statf path w of
           (Inl err, w) \<Rightarrow> (result\<lparr>km_Error := err_text err, km_Step := ''missing''\<rparr>, w)
         | (Inr info, w) \<Rightarrow>
             (let result = result\<lparr>km_Attempted := True, km_Step := ''load''\<rparr>
              in case loader path w of
                   (Some err, w) \<Rightarrow>
                     if errors_is err EEXIST
                     then (result\<lparr>km_Loaded := True, km_AlreadyLoaded := True, km_Step := ''already-loaded''\<rparr>, w)
                     else (result\<lparr>km_Error := err_text err, km_Step := ''error''\<rparr>, w)
                 | (None, w) \<Rightarrow> (result\<lparr>km_Loaded := True, km_Step := ''loaded''\<rparr>, w)))"

definition loadModuleFile :: "os \<Rightarrow> string \<Rightarrow> (go_error option) io" where
  "loadModuleFile os path w =
     (case openFile os path w of
        (Some err, w) \<Rightarrow> (Some err, w)
      | (None, w) \<Rightarrow>
          (case finitModule os path '''' 0 w of (r, w) \<Rightarrow>
          (case closeFile path w of (_, w) \<Rightarrow> (r, w))))"

definition LoadVirtioRNG :: "os \<Rightarrow> kmod_Result io" where
  "LoadVirtioRNG os w = ensureModule VirtioRNGModulePath (stat os) (loadModuleFile os) w"

definition LoadNinePStack :: "os \<Rightarrow> (kmod_Result list) io" where
  "LoadNinePStack os w =
     (case ensureModule NinePNetModulePath (stat os) (loadModuleFile os) w of (r1, w) \<Rightarrow>
     (case ensureModule NetFSModulePath (stat os) (loadModuleFile os) w of (r2, w) \<Rightarrow>
     (case ensureModule NinePModulePath (stat os) (loadModuleFile os) w of (r3, w) \<Rightarrow>
     (case ensureModule NinePNetVirtioModulePath (stat os) (loadModuleFile os) w of (r4, w) \<Rightarrow>
       ([r1, r2, r3, r4], w)))))"

section \<open>Properties\<close>

text \<open>A result is well formed when its flags, its step and its error agree.\<close>

definition kmod_ok :: "kmod_Result \<Rightarrow> bool" where
  "kmod_ok r =
     ((km_Step r = ''missing'' \<and> \<not> km_Attempted r \<and> \<not> km_Loaded r \<and> \<not> km_AlreadyLoaded r) \<or>
      (km_Step r = ''error'' \<and> km_Attempted r \<and> \<not> km_Loaded r \<and> \<not> km_AlreadyLoaded r) \<or>
      (km_Step r = ''already-loaded'' \<and> km_Attempted r \<and> km_Loaded r \<and> km_AlreadyLoaded r \<and> km_Error r = '''') \<or>
      (km_Step r = ''loaded'' \<and> km_Attempted r \<and> km_Loaded r \<and> \<not> km_AlreadyLoaded r \<and> km_Error r = ''''))"

lemma ensureModule_ok: "kmod_ok (fst (ensureModule path st ld w))"
  by (auto simp: ensureModule_def Let_def kmod_ok_def split: prod.splits sum.splits option.splits)

lemma ensureModule_path: "km_ModulePath (fst (ensureModule path st ld w)) = path"
  by (auto simp: ensureModule_def Let_def split: prod.splits sum.splits option.splits)

text \<open>
  \<^verbatim>\<open>ensureModule\<close> reports a module as loaded exactly when its file is there and the kernel
  took it now or had it already (\<^verbatim>\<open>EEXIST\<close>); the loader runs only when the file is there, and
  the flags, the step and the error of the result always agree.
\<close>

theorem ensureModule_loaded:
  "kmod_ok (fst (ensureModule path st ld w)) \<and>
   (km_Attempted (fst (ensureModule path st ld w)) \<longleftrightarrow> (\<exists>i w1. st path w = (Inr i, w1))) \<and>
   (km_Loaded (fst (ensureModule path st ld w)) \<longleftrightarrow>
      (\<exists>i w1 r w2. st path w = (Inr i, w1) \<and> ld path w1 = (r, w2) \<and>
         (case r of None \<Rightarrow> True | Some e \<Rightarrow> errors_is e EEXIST)))"
  using ensureModule_ok [of path st ld w]
  by (auto simp: ensureModule_def Let_def split: prod.splits sum.splits option.splits)

definition module_calls :: "string \<Rightarrow> bool \<Rightarrow> bool \<Rightarrow> world" where
  "module_calls p present opened =
     [Stat p] @ (if present then [OpenFile p] @ (if opened then [FinitModule p '''' 0, CloseFile p] else []) else [])"

lemma ensureModule_calls:
  "\<exists>a b. snd (ensureModule path (stat os) (loadModuleFile os) w) = w @ module_calls path a b"
proof (cases "os_Stat os w path")
  case (Inl e)
  then show ?thesis
    by (intro exI [of _ False]) (simp add: ensureModule_def stat_def module_calls_def)
next
  case i: (Inr i)
  show ?thesis
  proof (cases "os_Open os (w @ [Stat path]) path")
    case None
    with i show ?thesis
      by (intro exI [of _ True])
         (auto simp: ensureModule_def loadModuleFile_def call_defs module_calls_def Let_def split: option.splits)
  next
    case (Some e)
    with i show ?thesis
      by (intro exI [of _ True] exI [of _ False])
         (auto simp: ensureModule_def loadModuleFile_def call_defs module_calls_def Let_def)
  qed
qed

lemma ensureModule_extends: "extends w (snd (ensureModule path (stat os) (loadModuleFile os) w))"
  using ensureModule_calls [of path os w] by auto

text \<open>
  The 9p stack is tried whole and in dependency order, \<^verbatim>\<open>9pnet\<close> and \<^verbatim>\<open>netfs\<close> before
  \<^verbatim>\<open>9p\<close> and \<^verbatim>\<open>9pnet_virtio\<close> last, whatever becomes of each module; each file that opens is
  handed to the kernel once and closed again.
\<close>

theorem LoadNinePStack_order:
  "map km_ModulePath (fst (LoadNinePStack os w)) =
     [NinePNetModulePath, NetFSModulePath, NinePModulePath, NinePNetVirtioModulePath]
   \<and> (\<exists>a1 b1 a2 b2 a3 b3 a4 b4. snd (LoadNinePStack os w) =
        w @ module_calls NinePNetModulePath a1 b1 @ module_calls NetFSModulePath a2 b2
          @ module_calls NinePModulePath a3 b3 @ module_calls NinePNetVirtioModulePath a4 b4)"
proof -
  let ?e = "\<lambda>p. ensureModule p (stat os) (loadModuleFile os)"
  obtain r1 w1 where 1: "?e NinePNetModulePath w = (r1, w1)" by fastforce
  obtain r2 w2 where 2: "?e NetFSModulePath w1 = (r2, w2)" by fastforce
  obtain r3 w3 where 3: "?e NinePModulePath w2 = (r3, w3)" by fastforce
  obtain r4 w4 where 4: "?e NinePNetVirtioModulePath w3 = (r4, w4)" by fastforce
  have "LoadNinePStack os w = ([r1, r2, r3, r4], w4)"
    by (simp add: LoadNinePStack_def 1 2 3 4)
  moreover have "km_ModulePath r1 = NinePNetModulePath" "km_ModulePath r2 = NetFSModulePath"
    "km_ModulePath r3 = NinePModulePath" "km_ModulePath r4 = NinePNetVirtioModulePath"
    using ensureModule_path 1 2 3 4 by (metis fst_conv)+
  moreover have "\<exists>a b. w1 = w @ module_calls NinePNetModulePath a b" "\<exists>a b. w2 = w1 @ module_calls NetFSModulePath a b"
    "\<exists>a b. w3 = w2 @ module_calls NinePModulePath a b" "\<exists>a b. w4 = w3 @ module_calls NinePNetVirtioModulePath a b"
    using ensureModule_calls 1 2 3 4 by (metis snd_conv)+
  ultimately show ?thesis by auto blast
qed

end
