(* ===== verification/Storage.thy ===== *)
theory Storage
  imports Sys
begin

text \<open>
  The package \<^verbatim>\<open>internal/storage\<close>: wait for the data disk, mount it and create the state
  directories. The wait polls with a deadline; a run that never ends is \<^const>\<open>None\<close>. The
  log lines of \<^verbatim>\<open>logResult\<close> repeat the result and are not modelled.
\<close>

section \<open>Configuration\<close>

definition defaultDevice :: string where "defaultDevice = ''/dev/vda''"

definition defaultMountPoint :: string where "defaultMountPoint = ''/var/lib/go-init''"

definition defaultFilesystem :: string where "defaultFilesystem = ''ext4''"

definition second :: int where "second = 1000000000"

definition defaultWait :: int where "defaultWait = 5 * second"

definition devicePoll :: int where "devicePoll = 100000000"

record storage_Config =
  sc_Enabled :: bool
  sc_Device :: string
  sc_MountPoint :: string
  sc_Filesystem :: string
  sc_WaitFor :: int

record storage_Result =
  sr_Enabled :: bool
  sr_Device :: string
  sr_MountPoint :: string
  sr_Filesystem :: string
  sr_DeviceReady :: bool
  sr_Mounted :: bool
  sr_Directories :: "string list"
  sr_Step :: string
  sr_Error :: string

definition stringEnv :: "environ \<Rightarrow> string \<Rightarrow> string \<Rightarrow> string" where
  "stringEnv env name fallback = (if getenv env name \<noteq> '''' then getenv env name else fallback)"

definition boolEnv :: "environ \<Rightarrow> string \<Rightarrow> bool \<Rightarrow> bool" where
  "boolEnv env name fallback =
     (let raw = getenv env name
      in if raw = '''' then fallback
         else case ParseBool raw of None \<Rightarrow> fallback | Some v \<Rightarrow> v)"

definition durationEnv :: "os \<Rightarrow> environ \<Rightarrow> string \<Rightarrow> int \<Rightarrow> int" where
  "durationEnv os env name fallback =
     (let raw = getenv env name
      in if raw = '''' then fallback
         else case os_ParseDuration os raw of None \<Rightarrow> fallback | Some v \<Rightarrow> v)"

definition LoadConfigFromEnv :: "os \<Rightarrow> environ \<Rightarrow> storage_Config" where
  "LoadConfigFromEnv os env =
     \<lparr>sc_Enabled = boolEnv env ''GO_INIT_ENABLE_STORAGE'' True,
      sc_Device = stringEnv env ''GO_INIT_STORAGE_DEVICE'' defaultDevice,
      sc_MountPoint = stringEnv env ''GO_INIT_STORAGE_MOUNT_POINT'' defaultMountPoint,
      sc_Filesystem = stringEnv env ''GO_INIT_STORAGE_FILESYSTEM'' defaultFilesystem,
      sc_WaitFor = durationEnv os env ''GO_INIT_STORAGE_WAIT'' defaultWait\<rparr>"

section \<open>Waiting, mounting, directories\<close>

definition stateDirectories :: "(string \<times> file_mode) list" where
  "stateDirectories = [(''ssh'', 0x1C0), (''app'', 0x1ED), (''log'', 0x1ED), (''state'', 0x1ED)]"

fun ensureDirs :: "os \<Rightarrow> string \<Rightarrow> (string \<times> file_mode) list \<Rightarrow> ((string list) result) io" where
  "ensureDirs os root [] w = (Inr [], w)"
| "ensureDirs os root ((p, m) # specs) w =
     (let path = PathJoin [root, p]
      in case mkdirAll os path m w of
           (Some e, w) \<Rightarrow> (Inl e, w)
         | (None, w) \<Rightarrow>
             (case chmod os path m w of
                (Some e, w) \<Rightarrow> (Inl e, w)
              | (None, w) \<Rightarrow>
                  (case ensureDirs os root specs w of
                     (Inl e, w) \<Rightarrow> (Inl e, w)
                   | (Inr created, w) \<Rightarrow> (Inr (path # created), w))))"

definition ensureStateDirectories :: "os \<Rightarrow> string \<Rightarrow> ((string list) result) io" where
  "ensureStateDirectories os root w = ensureDirs os root stateDirectories w"

partial_function (option) waitLoop ::
  "os \<Rightarrow> string \<Rightarrow> int \<Rightarrow> world \<Rightarrow> (go_error option \<times> world) option" where
  "waitLoop os path deadline w =
     (case stat os path w of (st, w1) \<Rightarrow>
        if (case st of Inl e \<Rightarrow> False | Inr info \<Rightarrow> st_device info) then Some (None, w1)
        else (case now os w1 of (t, w2) \<Rightarrow>
          if t > deadline
          then Some (Some (case st of Inl e \<Rightarrow> e
                                    | Inr info \<Rightarrow> errorf (path @ '' exists but is not a device'')), w2)
          else (case sleep devicePoll w2 of (_, w3) \<Rightarrow> waitLoop os path deadline w3)))"

definition waitForDevice :: "os \<Rightarrow> string \<Rightarrow> int \<Rightarrow> world \<Rightarrow> (go_error option \<times> world) option" where
  "waitForDevice os path timeout w =
     (case now os w of (t, w1) \<Rightarrow> waitLoop os path (t + timeout) w1)"

definition prepare ::
  "os \<Rightarrow> storage_Config \<Rightarrow> world \<Rightarrow> ((storage_Result \<times> go_error option) \<times> world) option" where
  "prepare os cfg w =
     (let result = \<lparr>sr_Enabled = sc_Enabled cfg, sr_Device = sc_Device cfg,
            sr_MountPoint = sc_MountPoint cfg, sr_Filesystem = sc_Filesystem cfg,
            sr_DeviceReady = False, sr_Mounted = False, sr_Directories = [],
            sr_Step = ''init'', sr_Error = ''''\<rparr>
      in if \<not> sc_Enabled cfg then Some ((result\<lparr>sr_Step := ''disabled''\<rparr>, None), w)
      else case waitForDevice os (sc_Device cfg) (sc_WaitFor cfg) w of
        None \<Rightarrow> None
      | Some (Some e, w) \<Rightarrow>
          (let e = wrap (''wait for storage device '' @ sc_Device cfg @ '': '') e
           in Some ((result\<lparr>sr_Step := ''device-wait'', sr_Error := err_text e\<rparr>, Some e), w))
      | Some (None, w) \<Rightarrow>
          (let result = result\<lparr>sr_DeviceReady := True\<rparr>
           in case mkdirAll os (sc_MountPoint cfg) 0x1ED w of
             (Some e, w) \<Rightarrow>
               (let e = wrap (''create mount point '' @ sc_MountPoint cfg @ '': '') e
                in Some ((result\<lparr>sr_Step := ''mountpoint'', sr_Error := err_text e\<rparr>, Some e), w))
           | (None, w) \<Rightarrow>
               (let result = result\<lparr>sr_Step := ''mount''\<rparr>
                in case mount os (sc_Device cfg) (sc_MountPoint cfg) (sc_Filesystem cfg) 0 '''' w of
                  (Some e, w) \<Rightarrow>
                    (let e = wrap (''mount '' @ sc_Device cfg @ '' on '' @ sc_MountPoint cfg @ '' as ''
                                   @ sc_Filesystem cfg @ '': '') e
                     in Some ((result\<lparr>sr_Error := err_text e\<rparr>, Some e), w))
                | (None, w) \<Rightarrow>
                    (let result = result\<lparr>sr_Mounted := True\<rparr>
                     in case ensureStateDirectories os (sc_MountPoint cfg) w of
                       (Inl e, w) \<Rightarrow>
                         (let e = wrap (''prepare state directories under '' @ sc_MountPoint cfg @ '': '') e
                          in Some ((result\<lparr>sr_Step := ''directories'', sr_Error := err_text e\<rparr>, Some e), w))
                     | (Inr ds, w) \<Rightarrow>
                         Some ((result\<lparr>sr_Step := ''ready'', sr_Directories := ds\<rparr>, None), w)))))"

definition Prepare ::
  "os \<Rightarrow> environ \<Rightarrow> world \<Rightarrow> ((storage_Result \<times> go_error option) \<times> world) option" where
  "Prepare os env w = prepare os (LoadConfigFromEnv os env) w"

section \<open>The wait ends\<close>

text \<open>
  Every poll that goes on sleeps, so with a clock that obeys \<^const>\<open>clock_ok\<close> the distance to
  the deadline shrinks. The events of the wait are polls only; it ends either right after
  a \<^verbatim>\<open>Stat\<close> that saw a device or right after a clock reading beyond the deadline.
\<close>

definition polls :: "string \<Rightarrow> world \<Rightarrow> bool" where
  "polls path es = (\<forall>e\<in>set es. e = Stat path \<or> e = Now \<or> e = Sleep devicePoll)"

definition wait_done :: "os \<Rightarrow> string \<Rightarrow> int \<Rightarrow> go_error option \<Rightarrow> world \<Rightarrow> bool" where
  "wait_done os path d r w' =
     (case r of
        None \<Rightarrow> \<exists>v info. w' = v @ [Stat path] \<and> os_Stat os v path = Inr info \<and> st_device info
      | Some e \<Rightarrow> \<exists>v. w' = v @ [Now] \<and> d < os_Now os v)"

lemma waitLoop_total:
  assumes c: "clock_ok os"
  shows "\<exists>r es. waitLoop os path d w = Some (r, w @ es) \<and> polls path es \<and> wait_done os path d r (w @ es)"
proof (induction "nat (d + 1 - os_Now os w)" arbitrary: w rule: less_induct)
  case less
  let ?w1 = "w @ [Stat path]" and ?w2 = "w @ [Stat path, Now]" and ?w3 = "w @ [Stat path, Now, Sleep devicePoll]"
  let ?dev = "case os_Stat os w path of Inl e \<Rightarrow> False | Inr info \<Rightarrow> st_device info"
  consider (dev) ?dev | (late) "\<not> ?dev" "d < os_Now os ?w1" | (again) "\<not> ?dev" "\<not> d < os_Now os ?w1"
    by blast
  then show ?case
  proof cases
    case dev
    then have "wait_done os path d None ?w1" by (auto simp: wait_done_def split: sum.splits)
    moreover have "waitLoop os path d w = Some (None, ?w1)"
      using dev by (subst waitLoop.simps) (simp add: call_defs)
    ultimately show ?thesis by (intro exI [of _ None] exI [of _ "[Stat path]"]) (simp add: polls_def)
  next
    case late
    let ?e = "case os_Stat os w path of Inl e \<Rightarrow> e | Inr info \<Rightarrow> errorf (path @ '' exists but is not a device'')"
    have "wait_done os path d (Some ?e) ?w2"
      using late by (auto simp: wait_done_def intro!: exI [of _ ?w1])
    moreover have "waitLoop os path d w = Some (Some ?e, ?w2)"
      using late by (subst waitLoop.simps) (simp add: call_defs)
    ultimately show ?thesis by (intro exI [of _ "Some ?e"] exI [of _ "[Stat path, Now]"]) (simp add: polls_def)
  next
    case again
    have step: "waitLoop os path d w = waitLoop os path d ?w3"
      using again by (subst waitLoop.simps) (simp add: call_defs)
    have "os_Now os w \<le> os_Now os ?w1" "os_Now os w \<le> os_Now os ?w2"
      using clock_mono [OF c, of w] by simp_all
    moreover have "os_Now os ?w2 + devicePoll \<le> os_Now os ?w3"
      using clock_sleep [OF c, of ?w2 devicePoll] by simp
    ultimately have "nat (d + 1 - os_Now os ?w3) < nat (d + 1 - os_Now os w)"
      using again(2) by (simp add: devicePoll_def)
    from less [OF this] obtain r es where
      "waitLoop os path d ?w3 = Some (r, ?w3 @ es)" "polls path es" "wait_done os path d r (?w3 @ es)" by blast
    with step show ?thesis
      by (intro exI [of _ r] exI [of _ "[Stat path, Now, Sleep devicePoll] @ es"]) (auto simp: polls_def)
  qed
qed

text \<open>
  With a clock that does not run backwards and sleeps that last, \<^verbatim>\<open>waitForDevice\<close>
  returns for every timeout: without an error only right after it saw a device node at the
  path, and with an error only once the deadline has passed. Until then it does nothing but
  poll.
\<close>

theorem waitForDevice_returns:
  assumes "clock_ok os"
  shows "\<exists>r es. waitForDevice os path timeout w = Some (r, w @ es) \<and>
     (\<forall>e\<in>set es. e = Stat path \<or> e = Now \<or> e = Sleep devicePoll) \<and>
     (case r of
        None \<Rightarrow> \<exists>v info. w @ es = v @ [Stat path] \<and> os_Stat os v path = Inr info \<and> st_device info
      | Some e \<Rightarrow> \<exists>v. w @ es = v @ [Now] \<and> os_Now os w + timeout < os_Now os v)"
proof -
  obtain r es where "waitLoop os path (os_Now os w + timeout) (w @ [Now]) = Some (r, w @ [Now] @ es)"
      "polls path es" "wait_done os path (os_Now os w + timeout) r (w @ [Now] @ es)"
    using waitLoop_total [OF assms, of path "os_Now os w + timeout" "w @ [Now]"] by auto
  then show ?thesis
    by (intro exI [of _ r] exI [of _ "Now # es"])
       (auto simp: waitForDevice_def now_def polls_def wait_done_def)
qed

section \<open>The outcome of prepare\<close>

definition dir_calls :: "string \<Rightarrow> (string \<times> file_mode) list \<Rightarrow> world" where
  "dir_calls root specs =
     concat (map (\<lambda>(p, m). [MkdirAll (PathJoin [root, p]) m, Chmod (PathJoin [root, p]) m]) specs)"

lemma ensureDirs_ok:
  assumes "ensureDirs os root specs w = (Inr ds, w')"
  shows "ds = map (\<lambda>(p, m). PathJoin [root, p]) specs \<and> w' = w @ dir_calls root specs"
  using assms
proof (induction specs arbitrary: w ds)
  case (Cons s specs)
  obtain p m where s: "s = (p, m)" by fastforce
  from Cons.prems obtain ds' where d: "ds = PathJoin [root, p] # ds'"
    and r: "ensureDirs os root specs (w @ [MkdirAll (PathJoin [root, p]) m, Chmod (PathJoin [root, p]) m]) = (Inr ds', w')"
    by (auto simp: s Let_def call_defs split: option.splits prod.splits sum.splits)
  from Cons.IH [OF r] d s show ?case by (simp add: dir_calls_def)
qed (simp add: dir_calls_def)

lemma ensureDirs_prefix:
  "\<exists>n. snd (ensureDirs os root specs w) = w @ take n (dir_calls root specs)"
proof (induction specs arbitrary: w)
  case (Cons s specs)
  obtain p m where s: "s = (p, m)" by fastforce
  let ?a = "MkdirAll (PathJoin [root, p]) m" and ?b = "Chmod (PathJoin [root, p]) m"
  have dc: "dir_calls root (s # specs) = ?a # ?b # dir_calls root specs" by (simp add: dir_calls_def s)
  show ?case
  proof (cases "os_MkdirAll os w (PathJoin [root, p]) m")
    case (Some e)
    then show ?thesis unfolding dc by (intro exI [of _ 1]) (simp add: s call_defs Let_def)
  next
    case m: None
    show ?thesis
    proof (cases "os_Chmod os (w @ [?a]) (PathJoin [root, p]) m")
      case (Some e)
      with m show ?thesis unfolding dc by (intro exI [of _ 2]) (simp add: s call_defs Let_def)
    next
      case None
      obtain n where "snd (ensureDirs os root specs (w @ [?a, ?b])) = w @ [?a, ?b] @ take n (dir_calls root specs)"
        using Cons [of "w @ [?a, ?b]"] by auto
      with None m show ?thesis unfolding dc
        by (intro exI [of _ "Suc (Suc n)"])
           (auto simp: s call_defs Let_def split: prod.splits sum.splits)
    qed
  qed
qed (simp add: dir_calls_def)

text \<open>
  What an enabled \<^verbatim>\<open>prepare\<close> does once the device is there, in this order, up to the
  first failure.
\<close>

definition mount_plan :: "storage_Config \<Rightarrow> world" where
  "mount_plan cfg = [MkdirAll (sc_MountPoint cfg) 0x1ED,
     Mount (sc_Device cfg) (sc_MountPoint cfg) (sc_Filesystem cfg) 0 ''''] @
     dir_calls (sc_MountPoint cfg) stateDirectories"

lemma ensureStateDirectories_cases:
  "(\<exists>e n. ensureStateDirectories os root w = (Inl e, w @ take n (dir_calls root stateDirectories))) \<or>
   ensureStateDirectories os root w =
     (Inr (map (\<lambda>(p, m). PathJoin [root, p]) stateDirectories), w @ dir_calls root stateDirectories)"
proof (cases "ensureDirs os root stateDirectories w")
  case (Pair r w')
  show ?thesis
  proof (cases r)
    case (Inl e)
    then show ?thesis using ensureDirs_prefix [of os root stateDirectories w] Pair
      by (auto simp: ensureStateDirectories_def)
  next
    case (Inr ds)
    then show ?thesis using ensureDirs_ok [of os root stateDirectories w ds w'] Pair
      by (simp add: ensureStateDirectories_def)
  qed
qed

definition storage_outcome :: "storage_Config \<Rightarrow> storage_Result \<Rightarrow> go_error option \<Rightarrow> world \<Rightarrow> bool" where
  "storage_outcome cfg r e dn =
     (if sr_Step r = ''ready''
      then e = None \<and> sr_DeviceReady r \<and> sr_Mounted r \<and> dn = mount_plan cfg \<and>
           sr_Directories r = map (\<lambda>(p, m). PathJoin [sc_MountPoint cfg, p]) stateDirectories
      else (\<exists>err. e = Some err \<and> sr_Error r = err_text err) \<and> sr_Directories r = [] \<and>
           prefix dn (mount_plan cfg) \<and>
           (sr_Step r = ''device-wait'' \<and> dn = [] \<and> \<not> sr_DeviceReady r \<and> \<not> sr_Mounted r \<or>
            sr_Step r = ''mountpoint'' \<and> length dn = 1 \<and> sr_DeviceReady r \<and> \<not> sr_Mounted r \<or>
            sr_Step r = ''mount'' \<and> length dn = 2 \<and> sr_DeviceReady r \<and> \<not> sr_Mounted r \<or>
            sr_Step r = ''directories'' \<and> 2 \<le> length dn \<and> sr_DeviceReady r \<and> sr_Mounted r))"

lemma prepare_after_wait:
  assumes en: "sc_Enabled cfg"
    and wt: "waitForDevice os (sc_Device cfg) (sc_WaitFor cfg) w = Some (q, v)"
  shows "\<exists>r e dn. prepare os cfg w = Some ((r, e), v @ dn) \<and> storage_outcome cfg r e dn \<and>
     (q \<noteq> None \<longrightarrow> dn = [])"
proof (cases q)
  case (Some e)
  then show ?thesis
    by (intro exI [of _ "[] :: world"] exI)
       (auto simp: prepare_def en wt Let_def storage_outcome_def)
next
  case q: None
  let ?mp = "sc_MountPoint cfg"
  let ?a = "MkdirAll ?mp 0x1ED" and ?b = "Mount (sc_Device cfg) ?mp (sc_Filesystem cfg) 0 ''''"
  note [simp] = en wt q
  show ?thesis
  proof (cases "os_MkdirAll os v ?mp 0x1ED")
    case (Some e)
    then show ?thesis
      by (auto simp: prepare_def Let_def call_defs storage_outcome_def mount_plan_def)
  next
    case m: None
    show ?thesis
    proof (cases "os_Mount os (v @ [?a]) (sc_Device cfg) ?mp (sc_Filesystem cfg) 0 ''''")
      case (Some e)
      with m show ?thesis
        by (auto simp: prepare_def Let_def call_defs storage_outcome_def mount_plan_def)
    next
      case mt: None
      consider (bad) e n where "ensureStateDirectories os ?mp (v @ [?a, ?b]) =
            (Inl e, v @ [?a, ?b] @ take n (dir_calls ?mp stateDirectories))"
        | (ok) "ensureStateDirectories os ?mp (v @ [?a, ?b]) =
            (Inr (map (\<lambda>(p, m). PathJoin [?mp, p]) stateDirectories), v @ [?a, ?b] @ dir_calls ?mp stateDirectories)"
        using ensureStateDirectories_cases [of os ?mp "v @ [?a, ?b]"] by auto
      then show ?thesis
      proof cases
        case bad
        with m mt show ?thesis
          by (auto simp: prepare_def Let_def call_defs storage_outcome_def mount_plan_def take_is_prefix)
      next
        case ok
        with m mt show ?thesis
          by (auto simp: prepare_def Let_def call_defs storage_outcome_def mount_plan_def)
      qed
    qed
  qed
qed

lemma prepare_total:
  assumes "clock_ok os"
  shows "\<exists>r e w'. prepare os cfg w = Some ((r, e), w')"
proof (cases "sc_Enabled cfg")
  case True
  obtain q v where "waitForDevice os (sc_Device cfg) (sc_WaitFor cfg) w = Some (q, v)"
    using waitLoop_total [OF assms, of "sc_Device cfg" "os_Now os w + sc_WaitFor cfg" "w @ [Now]"]
    by (auto simp: waitForDevice_def now_def)
  from prepare_after_wait [OF True this] show ?thesis by blast
qed (simp add: prepare_def Let_def)

lemma prepare_ok:
  assumes "prepare os cfg w = Some ((r, None), w')"
  shows "sr_MountPoint r = sc_MountPoint cfg \<and> (if sc_Enabled cfg then sr_Mounted r \<and> sr_Step r = ''ready'' else sr_Step r = ''disabled'')"
  using assms by (auto simp: prepare_def Let_def call_defs split: option.splits sum.splits prod.splits if_splits)


section \<open>Instances\<close>

theorem waitForDevice_returns_witness:
  "\<exists>r es. waitForDevice good_os ''/dev/vda'' 5 [] = Some (r, es)"
  using waitForDevice_returns [OF good_os_clock, of "''/dev/vda''" 5 "[]"] by auto

definition witness_cfg :: storage_Config where
  "witness_cfg = \<lparr>sc_Enabled = True, sc_Device = ''d'', sc_MountPoint = ''/m'', sc_Filesystem = ''f'', sc_WaitFor = 0\<rparr>"


end
