(* ===== verification/SharedState.thy ===== *)
theory SharedState
  imports Kmod
begin

text \<open>
  The package \<^verbatim>\<open>internal/sharedstate\<close>: load the 9p modules, mount the host share and create
  its directories; \<^verbatim>\<open>BBSRoot\<close> and \<^verbatim>\<open>ChatRoot\<close> choose where the applications keep their
  data. The log lines of \<^verbatim>\<open>logResult\<close> repeat the result and are not modelled.
\<close>

section \<open>Configuration\<close>

definition defaultMountTag :: string where "defaultMountTag = ''hostshare''"

definition defaultMountPoint :: string where "defaultMountPoint = ''/var/lib/go-init/shared''"

definition defaultFilesystem :: string where "defaultFilesystem = ''9p''"

definition defaultMountOptions :: string where
  "defaultMountOptions = ''trans=virtio,version=9p2000.L,cache=none,msize=262144''"

record shared_Config =
  hc_Enabled :: bool
  hc_Required :: bool
  hc_MountTag :: string
  hc_MountPoint :: string
  hc_Filesystem :: string
  hc_MountOptions :: string

record shared_Result =
  hr_Enabled :: bool
  hr_Required :: bool
  hr_MountTag :: string
  hr_MountPoint :: string
  hr_Filesystem :: string
  hr_MountOptions :: string
  hr_Mounted :: bool
  hr_Step :: string
  hr_Error :: string
  hr_Directories :: "string list"
  hr_Modules :: "kmod_Result list"

definition stringEnv :: "environ \<Rightarrow> string \<Rightarrow> string \<Rightarrow> string" where
  "stringEnv env name fallback = (if getenv env name \<noteq> '''' then getenv env name else fallback)"

definition boolEnv :: "environ \<Rightarrow> string \<Rightarrow> bool \<Rightarrow> bool" where
  "boolEnv env name fallback =
     (let raw = getenv env name
      in if raw = '''' then fallback
         else case ParseBool raw of None \<Rightarrow> fallback | Some v \<Rightarrow> v)"

definition LoadConfigFromEnv :: "environ \<Rightarrow> shared_Config" where
  "LoadConfigFromEnv env =
     \<lparr>hc_Enabled = boolEnv env ''GO_INIT_ENABLE_SHARED_STATE'' True,
      hc_Required = boolEnv env ''GO_INIT_SHARED_STATE_REQUIRED'' False,
      hc_MountTag = stringEnv env ''GO_INIT_SHARED_STATE_TAG'' defaultMountTag,
      hc_MountPoint = stringEnv env ''GO_INIT_SHARED_STATE_MOUNT_POINT'' defaultMountPoint,
      hc_Filesystem = stringEnv env ''GO_INIT_SHARED_STATE_FILESYSTEM'' defaultFilesystem,
      hc_MountOptions = stringEnv env ''GO_INIT_SHARED_STATE_MOUNT_OPTIONS'' defaultMountOptions\<rparr>"

section \<open>Operations\<close>

definition share_dirs :: "string \<Rightarrow> string list" where
  "share_dirs root = [PathJoin [root, ''bbs''], PathJoin [root, ''bbs'', ''uploads''],
     PathJoin [root, ''chat''], PathJoin [root, ''pinocchio'']]"

fun mkdirs :: "os \<Rightarrow> string list \<Rightarrow> (go_error option) io" where
  "mkdirs os [] w = (None, w)"
| "mkdirs os (d # ds) w =
     (case mkdirAll os d 0x1ED w of (Some e, w) \<Rightarrow> (Some e, w) | (None, w) \<Rightarrow> mkdirs os ds w)"

definition ensureDirectories :: "os \<Rightarrow> string \<Rightarrow> ((string list) result) io" where
  "ensureDirectories os root w =
     (let directories = share_dirs root
      in case mkdirs os directories w of
           (Some e, w) \<Rightarrow> (Inl e, w)
         | (None, w) \<Rightarrow> (Inr directories, w))"

definition prepare :: "os \<Rightarrow> shared_Config \<Rightarrow> (shared_Result \<times> go_error option) io" where
  "prepare os cfg w =
     (let result = \<lparr>hr_Enabled = hc_Enabled cfg, hr_Required = hc_Required cfg,
            hr_MountTag = hc_MountTag cfg, hr_MountPoint = hc_MountPoint cfg,
            hr_Filesystem = hc_Filesystem cfg, hr_MountOptions = hc_MountOptions cfg,
            hr_Mounted = False, hr_Step = ''init'', hr_Error = '''', hr_Directories = [], hr_Modules = []\<rparr>
      in if \<not> hc_Enabled cfg then ((result\<lparr>hr_Step := ''disabled''\<rparr>, None), w)
      else case LoadNinePStack os w of (ms, w) \<Rightarrow>
        (let result = result\<lparr>hr_Modules := ms\<rparr>
         in case mkdirAll os (hc_MountPoint cfg) 0x1ED w of
           (Some e, w) \<Rightarrow>
             (let e = wrap (''create shared-state mount point '' @ hc_MountPoint cfg @ '': '') e
              in ((result\<lparr>hr_Step := ''mountpoint'', hr_Error := err_text e\<rparr>, Some e), w))
         | (None, w) \<Rightarrow>
             (let result = result\<lparr>hr_Step := ''mount''\<rparr>
              in case mount os (hc_MountTag cfg) (hc_MountPoint cfg) (hc_Filesystem cfg) 0 (hc_MountOptions cfg) w of
                (Some e, w) \<Rightarrow>
                  (let e = wrap (''mount '' @ hc_MountTag cfg @ '' on '' @ hc_MountPoint cfg @ '' as ''
                                 @ hc_Filesystem cfg @ '': '') e
                   in ((result\<lparr>hr_Error := err_text e\<rparr>, Some e), w))
              | (None, w) \<Rightarrow>
                  (let result = result\<lparr>hr_Mounted := True\<rparr>
                   in case ensureDirectories os (hc_MountPoint cfg) w of
                     (Inl e, w) \<Rightarrow>
                       (let e = wrap (''prepare shared-state directories under '' @ hc_MountPoint cfg @ '': '') e
                        in ((result\<lparr>hr_Step := ''directories'', hr_Error := err_text e\<rparr>, Some e), w))
                   | (Inr ds, w) \<Rightarrow>
                       ((result\<lparr>hr_Step := ''ready'', hr_Directories := ds\<rparr>, None), w)))))"

definition Prepare :: "os \<Rightarrow> environ \<Rightarrow> (shared_Result \<times> go_error option) io" where
  "Prepare os env w = prepare os (LoadConfigFromEnv env) w"

definition BBSRoot :: "shared_Result \<Rightarrow> string \<Rightarrow> string" where
  "BBSRoot result fallbackRoot =
     (if hr_Mounted result \<and> hr_MountPoint result \<noteq> ''''
      then PathJoin [hr_MountPoint result, ''bbs''] else PathJoin [fallbackRoot, ''bbs''])"

definition ChatRoot :: "shared_Result \<Rightarrow> string \<Rightarrow> string" where
  "ChatRoot result fallbackRoot =
     (if hr_Mounted result \<and> hr_MountPoint result \<noteq> ''''
      then PathJoin [hr_MountPoint result, ''chat''] else PathJoin [fallbackRoot, ''chat''])"

section \<open>The outcome of prepare\<close>

definition share_plan :: "shared_Config \<Rightarrow> world" where
  "share_plan cfg = [MkdirAll (hc_MountPoint cfg) 0x1ED,
     Mount (hc_MountTag cfg) (hc_MountPoint cfg) (hc_Filesystem cfg) 0 (hc_MountOptions cfg)] @
     map (\<lambda>d. MkdirAll d 0x1ED) (share_dirs (hc_MountPoint cfg))"

lemma mkdirs_calls:
  "\<exists>n e. mkdirs os ds w = (e, w @ take n (map (\<lambda>d. MkdirAll d 0x1ED) ds)) \<and>
     (e = None \<longrightarrow> n = length ds)"
proof (induction ds arbitrary: w)
  case (Cons d ds)
  show ?case
  proof (cases "os_MkdirAll os w d 0x1ED")
    case None
    obtain n e where "mkdirs os ds (w @ [MkdirAll d 0x1ED]) =
        (e, (w @ [MkdirAll d 0x1ED]) @ take n (map (\<lambda>d. MkdirAll d 0x1ED) ds))" "e = None \<longrightarrow> n = length ds"
      using Cons.IH [of "w @ [MkdirAll d 0x1ED]"] by blast
    with None show ?thesis
      by (intro exI [of _ "Suc n"] exI [of _ e]) (simp add: mkdirAll_def)
  next
    case (Some e)
    then show ?thesis by (intro exI [of _ 1] exI [of _ "Some e"]) (simp add: mkdirAll_def)
  qed
qed simp

lemma ensureDirectories_cases:
  "(\<exists>e n. ensureDirectories os root w = (Inl e, w @ take n (map (\<lambda>d. MkdirAll d 0x1ED) (share_dirs root)))) \<or>
   ensureDirectories os root w = (Inr (share_dirs root), w @ map (\<lambda>d. MkdirAll d 0x1ED) (share_dirs root))"
proof -
  obtain n e where m: "mkdirs os (share_dirs root) w = (e, w @ take n (map (\<lambda>d. MkdirAll d 0x1ED) (share_dirs root)))"
      "e = None \<longrightarrow> n = length (share_dirs root)"
    using mkdirs_calls [of os "share_dirs root" w] by blast
  show ?thesis
  proof (cases e)
    case None
    with m show ?thesis by (simp add: ensureDirectories_def Let_def)
  next
    case (Some err)
    with m have "ensureDirectories os root w =
        (Inl err, w @ take n (map (\<lambda>d. MkdirAll d 0x1ED) (share_dirs root)))"
      by (simp add: ensureDirectories_def Let_def)
    then show ?thesis by blast
  qed
qed

definition shared_outcome :: "shared_Config \<Rightarrow> shared_Result \<Rightarrow> go_error option \<Rightarrow> world \<Rightarrow> bool" where
  "shared_outcome cfg r e dn =
     (if hr_Step r = ''ready''
      then e = None \<and> hr_Mounted r \<and> dn = share_plan cfg \<and> hr_Directories r = share_dirs (hc_MountPoint cfg)
      else (\<exists>err. e = Some err \<and> hr_Error r = err_text err) \<and> hr_Directories r = [] \<and>
           prefix dn (share_plan cfg) \<and>
           (hr_Step r = ''mountpoint'' \<and> length dn = 1 \<and> \<not> hr_Mounted r \<or>
            hr_Step r = ''mount'' \<and> length dn = 2 \<and> \<not> hr_Mounted r \<or>
            hr_Step r = ''directories'' \<and> 2 \<le> length dn \<and> hr_Mounted r))"

lemma prepare_outcome:
  assumes en: "hc_Enabled cfg" and ms: "LoadNinePStack os w = (ms, v)"
  shows "\<exists>r e dn. prepare os cfg w = ((r, e), v @ dn) \<and> shared_outcome cfg r e dn \<and>
     hr_Modules r = ms \<and> hr_MountPoint r = hc_MountPoint cfg"
proof -
  let ?mp = "hc_MountPoint cfg"
  let ?a = "MkdirAll ?mp 0x1ED" and ?b = "Mount (hc_MountTag cfg) ?mp (hc_Filesystem cfg) 0 (hc_MountOptions cfg)"
  let ?ds = "map (\<lambda>d. MkdirAll d 0x1ED) (share_dirs ?mp) :: world"
  note defs = prepare_def Let_def call_defs shared_outcome_def share_plan_def
  note [simp] = en ms
  show ?thesis
  proof (cases "os_MkdirAll os v ?mp 0x1ED")
    case (Some e)
    then show ?thesis by (auto simp: defs)
  next
    case m: None
    show ?thesis
    proof (cases "os_Mount os (v @ [?a]) (hc_MountTag cfg) ?mp (hc_Filesystem cfg) 0 (hc_MountOptions cfg)")
      case (Some e)
      with m show ?thesis by (auto simp: defs)
    next
      case mt: None
      consider (bad) e n where "ensureDirectories os ?mp (v @ [?a, ?b]) = (Inl e, v @ [?a, ?b] @ take n ?ds)"
        | (ok) "ensureDirectories os ?mp (v @ [?a, ?b]) = (Inr (share_dirs ?mp), v @ [?a, ?b] @ ?ds)"
        using ensureDirectories_cases [of os ?mp "v @ [?a, ?b]"] by auto
      then show ?thesis
      proof cases
        case bad
        with m mt show ?thesis by (auto simp: defs take_is_prefix)
      next
        case ok
        with m mt show ?thesis by (auto simp: defs)
      qed
    qed
  qed
qed


definition share_cfg :: shared_Config where
  "share_cfg = \<lparr>hc_Enabled = True, hc_Required = False, hc_MountTag = ''t'', hc_MountPoint = ''/s'',
     hc_Filesystem = ''9p'', hc_MountOptions = ''o''\<rparr>"


text \<open>
  Where the applications keep their data after \<^verbatim>\<open>prepare\<close>: on the share exactly when it is
  mounted, and then in a directory \<^verbatim>\<open>prepare\<close> has created.
\<close>

lemma roots_ready:
  assumes "shared_outcome cfg r None dn" "hr_MountPoint r = hc_MountPoint cfg" "hc_MountPoint cfg \<noteq> ''''"
  shows "BBSRoot r fb \<in> set (share_dirs (hc_MountPoint cfg))" and "ChatRoot r fb \<in> set (share_dirs (hc_MountPoint cfg))"
  using assms by (auto simp: shared_outcome_def BBSRoot_def ChatRoot_def share_dirs_def split: if_splits)

text \<open>
  When \<^verbatim>\<open>prepare\<close> succeeds with the share enabled and a mount point set, the directories
  that \<^verbatim>\<open>BBSRoot\<close> and \<^verbatim>\<open>ChatRoot\<close> name were created on the share during that call, after
  the mount, whatever the fallback is.
\<close>

theorem shared_roots_created:
  assumes "hc_Enabled cfg" and "hc_MountPoint cfg \<noteq> ''''"
    and "prepare os cfg w = ((r, None), w')"
  shows "\<exists>pre dn. w' = pre @ Mount (hc_MountTag cfg) (hc_MountPoint cfg) (hc_Filesystem cfg) 0 (hc_MountOptions cfg) # dn \<and>
     MkdirAll (BBSRoot r fb) 0x1ED \<in> set dn \<and> MkdirAll (ChatRoot r fb) 0x1ED \<in> set dn"
proof (cases "LoadNinePStack os w")
  case (Pair ms v)
  from prepare_outcome [OF assms(1) this] assms(3) obtain dn where
    o: "shared_outcome cfg r None dn" and w': "w' = v @ dn" and mp: "hr_MountPoint r = hc_MountPoint cfg"
    by auto
  have "dn = share_plan cfg" using o by (simp add: shared_outcome_def split: if_splits)
  then have "w' = (v @ [MkdirAll (hc_MountPoint cfg) 0x1ED]) @
      Mount (hc_MountTag cfg) (hc_MountPoint cfg) (hc_Filesystem cfg) 0 (hc_MountOptions cfg) #
      map (\<lambda>d. MkdirAll d 0x1ED) (share_dirs (hc_MountPoint cfg))"
    by (simp add: w' share_plan_def)
  with roots_ready [OF o mp assms(2), of fb] show ?thesis
    by (intro exI conjI) (assumption, simp_all)
qed

lemma share_ready: "snd (fst (prepare good_os share_cfg [])) = None"
  by code_simp

theorem shared_roots_created_witness:
  "MkdirAll (BBSRoot (fst (fst (prepare good_os share_cfg []))) ''/x'') 0x1ED \<in> set (snd (prepare good_os share_cfg []))"
  using shared_roots_created [of share_cfg good_os "[]" "fst (fst (prepare good_os share_cfg []))"
      "snd (prepare good_os share_cfg [])" "''/x''"] share_ready
  by (auto simp: share_cfg_def prod_eq_iff)

end
