(* ===== verification/Entropy.thy ===== *)
theory Entropy
  imports Sys
begin

text \<open>
  The package \<^verbatim>\<open>internal/entropy\<close>: what the kernel says of its random number generators,
  and the wait until the virtio one shows. The probe reads through an \<^verbatim>\<open>fs.FS\<close>, here the
  two calls made on it. Only the log line of \<^verbatim>\<open>logResult\<close> is not modelled.
\<close>

section \<open>The probe\<close>

definition entropyAvailPath :: string where "entropyAvailPath = ''proc/sys/kernel/random/entropy_avail''"

definition rngAvailablePath :: string where "rngAvailablePath = ''sys/class/misc/hw_random/rng_available''"

definition rngCurrentPath :: string where "rngCurrentPath = ''sys/class/misc/hw_random/rng_current''"

definition hwrngDevicePath :: string where "hwrngDevicePath = ''dev/hwrng''"

definition probeInterval :: int where "probeInterval = 50 * 1000000"

record entropy_Result =
  en_EntropyAvail :: int
  en_EntropyAvailKnown :: bool
  en_HWRNGDevice :: bool
  en_RNGCurrent :: string
  en_RNGAvailable :: "string list"
  en_VirtioRNGVisible :: bool
  en_Warnings :: "string list"

record fsys =
  fs_ReadFile :: "string \<Rightarrow> (bytes result) io"
  fs_Stat :: "string \<Rightarrow> (fstat result) io"

definition DirFS :: "os \<Rightarrow> string \<Rightarrow> fsys" where
  "DirFS os dir = \<lparr>fs_ReadFile = \<lambda>p. readFile os (dir @ p), fs_Stat = \<lambda>p. stat os (dir @ p)\<rparr>"

definition readStringFile :: "fsys \<Rightarrow> string \<Rightarrow> (string \<times> bool) io" where
  "readStringFile root path w =
     (case fs_ReadFile root path w of
        (Inl e, w) \<Rightarrow> (('''', False), w)
      | (Inr data, w) \<Rightarrow>
          (let value = TrimSpace data in if value = '''' then (('''', False), w) else ((value, True), w)))"

definition readIntFile :: "fsys \<Rightarrow> string \<Rightarrow> (int \<times> bool) io" where
  "readIntFile root path w =
     (case readStringFile root path w of ((raw, ok), w) \<Rightarrow>
        if \<not> ok then ((0, False), w)
        else case Atoi raw of None \<Rightarrow> ((0, False), w) | Some value \<Rightarrow> ((value, True), w))"

definition readListFile :: "fsys \<Rightarrow> string \<Rightarrow> (string list \<times> bool) io" where
  "readListFile root path w =
     (case readStringFile root path w of ((raw, ok), w) \<Rightarrow>
        if \<not> ok then (([], False), w)
        else (let fields = Fields raw in if fields = [] then (([], False), w) else ((fields, True), w)))"

definition containsVirtio :: "string \<Rightarrow> bool" where
  "containsVirtio value = Contains (ToLower value) ''virtio''"

fun listContainsVirtio :: "string list \<Rightarrow> bool" where
  "listContainsVirtio [] = False"
| "listContainsVirtio (v # vs) = (if containsVirtio v then True else listContainsVirtio vs)"

definition formatEntropy :: "entropy_Result \<Rightarrow> string" where
  "formatEntropy result = (if \<not> en_EntropyAvailKnown result then ''unknown'' else Itoa (en_EntropyAvail result))"

definition emptyIfBlank :: "string \<Rightarrow> string \<Rightarrow> string" where
  "emptyIfBlank value fallback = (if value = '''' then fallback else value)"

definition ProbeFromFS :: "fsys \<Rightarrow> entropy_Result io" where
  "ProbeFromFS root w =
     (let result = \<lparr>en_EntropyAvail = 0, en_EntropyAvailKnown = False, en_HWRNGDevice = False,
            en_RNGCurrent = '''', en_RNGAvailable = [], en_VirtioRNGVisible = False, en_Warnings = []\<rparr>
      in case readIntFile root entropyAvailPath w of ((value, ok), w) \<Rightarrow>
        (let result = (if ok then result\<lparr>en_EntropyAvail := value, en_EntropyAvailKnown := True\<rparr>
                       else result\<lparr>en_Warnings := en_Warnings result @ [''entropy_avail_unavailable'']\<rparr>)
         in case readListFile root rngAvailablePath w of ((vals, ok), w) \<Rightarrow>
           (let result = (if ok then result\<lparr>en_RNGAvailable := vals\<rparr> else result)
            in case readStringFile root rngCurrentPath w of ((value, ok), w) \<Rightarrow>
              (let result = (if ok then result\<lparr>en_RNGCurrent := value\<rparr> else result)
               in case fs_Stat root hwrngDevicePath w of (st, w) \<Rightarrow>
                 (let result = (case st of Inl e \<Rightarrow> result | Inr i \<Rightarrow> result\<lparr>en_HWRNGDevice := True\<rparr>);
                      result = result\<lparr>en_VirtioRNGVisible :=
                        containsVirtio (en_RNGCurrent result) \<or> listContainsVirtio (en_RNGAvailable result)\<rparr>;
                      result = (if \<not> en_HWRNGDevice result
                                then result\<lparr>en_Warnings := en_Warnings result @ [''hwrng_device_missing'']\<rparr>
                                else result)
                  in (result, w))))))"

definition Probe :: "os \<Rightarrow> entropy_Result io" where
  "Probe os w = ProbeFromFS (DirFS os ''/'') w"

section \<open>The wait\<close>

partial_function (option) waitRNG ::
  "os \<Rightarrow> int \<Rightarrow> int \<Rightarrow> entropy_Result io \<Rightarrow> entropy_Result \<Rightarrow> world \<Rightarrow> (entropy_Result \<times> world) option" where
  "waitRNG os deadline interval probe result w =
     (case now os w of (t, w1) \<Rightarrow>
        if \<not> t < deadline then Some (result, w1)
        else (case sleep interval w1 of (_, w2) \<Rightarrow>
               (case probe w2 of (r, w3) \<Rightarrow>
                  if en_VirtioRNGVisible r then Some (r, w3)
                  else waitRNG os deadline interval probe r w3)))"

definition waitForVirtioRNG ::
  "os \<Rightarrow> int \<Rightarrow> int \<Rightarrow> entropy_Result io \<Rightarrow> world \<Rightarrow> (entropy_Result \<times> world) option" where
  "waitForVirtioRNG os timeout interval probe w =
     (let interval = (if interval \<le> 0 then probeInterval else interval)
      in case probe w of (result, w) \<Rightarrow>
           if en_VirtioRNGVisible result \<or> timeout \<le> 0 then Some (result, w)
           else (case now os w of (t, w) \<Rightarrow> waitRNG os (t + timeout) interval probe result w))"

definition WaitForVirtioRNG :: "os \<Rightarrow> int \<Rightarrow> world \<Rightarrow> (entropy_Result \<times> world) option" where
  "WaitForVirtioRNG os timeout w = waitForVirtioRNG os timeout probeInterval (ProbeFromFS (DirFS os ''/'')) w"

section \<open>What the probe reports\<close>

lemma listContainsVirtio_iff: "listContainsVirtio vs \<longleftrightarrow> (\<exists>v\<in>set vs. containsVirtio v)"
  by (induction vs) auto

lemma readStringFile_value:
  "readStringFile root path w = ((v, ok), w') \<Longrightarrow> (ok \<longleftrightarrow> v \<noteq> '''') \<and> TrimSpace v = v"
  by (auto simp: readStringFile_def Let_def split: prod.splits sum.splits if_splits)

lemma readListFile_value:
  "readListFile root path w = ((vs, ok), w') \<Longrightarrow> (ok \<longleftrightarrow> vs \<noteq> [])"
  by (auto simp: readListFile_def Let_def split: prod.splits if_splits)

text \<open>
  The flags, the values and the warnings of a probe agree: the virtio generator is
  visible exactly when the current or an available generator has \<^verbatim>\<open>virtio\<close> in its name,
  in any case of letters; each of the two warnings is there exactly when its flag is
  off, in a fixed order; an unknown entropy level is reported as zero, and no value has
  surrounding space.
\<close>

theorem ProbeFromFS_consistent:
  "let r = fst (ProbeFromFS root w)
   in (en_VirtioRNGVisible r \<longleftrightarrow> (\<exists>v\<in>set (en_RNGCurrent r # en_RNGAvailable r). containsVirtio v)) \<and>
      en_Warnings r = (if en_EntropyAvailKnown r then [] else [''entropy_avail_unavailable'']) @
                      (if en_HWRNGDevice r then [] else [''hwrng_device_missing'']) \<and>
      (\<not> en_EntropyAvailKnown r \<longrightarrow> en_EntropyAvail r = 0) \<and>
      TrimSpace (en_RNGCurrent r) = en_RNGCurrent r"
proof -
  obtain a b w1 where 1: "readIntFile root entropyAvailPath w = ((a, b), w1)" by (metis prod.exhaust)
  obtain c d w2 where 2: "readListFile root rngAvailablePath w1 = ((c, d), w2)" by (metis prod.exhaust)
  obtain e f w3 where 3: "readStringFile root rngCurrentPath w2 = ((e, f), w3)" by (metis prod.exhaust)
  obtain g w4 where 4: "fs_Stat root hwrngDevicePath w3 = (g, w4)" by (metis prod.exhaust)
  show ?thesis
    using readStringFile_value [OF 3] readListFile_value [OF 2]
    by (cases g) (auto simp: ProbeFromFS_def 1 2 3 4 Let_def listContainsVirtio_iff)
qed

section \<open>The wait ends\<close>

text \<open>
  \<^verbatim>\<open>waitForVirtioRNG\<close> takes the probe as a function. All it needs of it is that a probe only
  adds events, so that time does not run backwards across it.
\<close>

locale probe_call =
  fixes probe :: "entropy_Result io"
  assumes probe_extends: "extends w (snd (probe w))"
begin

lemma waitRNG_total:
  assumes c: "clock_ok os" and i: "0 < interval"
  shows "\<exists>r w'. waitRNG os deadline interval probe r0 w = Some (r, w') \<and> extends w w' \<and>
     (r = r0 \<or> (\<exists>u. r = fst (probe u) \<and> extends w u)) \<and>
     (en_VirtioRNGVisible r \<or> (\<exists>v. w' = v @ [Now] \<and> deadline \<le> os_Now os v))"
proof (induction "nat (deadline - os_Now os w)" arbitrary: w r0 rule: less_induct)
  case less
  let ?w1 = "w @ [Now]" and ?w2 = "w @ [Now, Sleep interval]"
  obtain r3 w3 where p: "probe ?w2 = (r3, w3)" by fastforce
  have e3: "extends w w3"
    using probe_extends [of ?w2] p extends_trans [of w ?w2 w3] by simp
  have u3: "\<exists>u. r3 = fst (probe u) \<and> extends w u" using p by (intro exI [of _ ?w2]) simp
  show ?case
  proof (cases "os_Now os w < deadline")
    case False
    then have "waitRNG os deadline interval probe r0 w = Some (r0, ?w1)"
      by (subst waitRNG.simps) (simp add: call_defs)
    with False show ?thesis by auto
  next
    case lt: True
    show ?thesis
    proof (cases "en_VirtioRNGVisible r3")
      case True
      with lt p have "waitRNG os deadline interval probe r0 w = Some (r3, w3)"
        by (subst waitRNG.simps) (simp add: call_defs)
      with True u3 e3 show ?thesis by blast
    next
      case False
      with lt p have step: "waitRNG os deadline interval probe r0 w = waitRNG os deadline interval probe r3 w3"
        by (subst waitRNG.simps) (simp add: call_defs)
      have "os_Now os ?w1 + interval \<le> os_Now os ?w2" using clock_sleep [OF c, of ?w1 interval] by simp
      moreover have "os_Now os w \<le> os_Now os ?w1" "os_Now os ?w2 \<le> os_Now os w3"
        using clock_mono [OF c] probe_extends [of ?w2] p by auto
      ultimately have "nat (deadline - os_Now os w3) < nat (deadline - os_Now os w)"
        using lt i by linarith
      from less [OF this, of r3] obtain r w' where
        ih: "waitRNG os deadline interval probe r3 w3 = Some (r, w')" "extends w3 w'"
          "r = r3 \<or> (\<exists>u. r = fst (probe u) \<and> extends w3 u)"
          "en_VirtioRNGVisible r \<or> (\<exists>v. w' = v @ [Now] \<and> deadline \<le> os_Now os v)"
        by blast
      have "\<exists>u. r = fst (probe u) \<and> extends w u" using ih(3) u3 e3 extends_trans by blast
      with ih(1,2,4) step e3 show ?thesis using extends_trans by metis
    qed
  qed
qed

lemma waitForVirtioRNG_total:
  assumes c: "clock_ok os"
  shows "\<exists>r w'. waitForVirtioRNG os timeout interval probe w = Some (r, w') \<and> extends w w' \<and>
     (\<exists>u. r = fst (probe u) \<and> extends w u) \<and>
     (en_VirtioRNGVisible r \<or> timeout \<le> 0 \<or> (\<exists>v. w' = v @ [Now] \<and> os_Now os w + timeout \<le> os_Now os v))"
proof -
  obtain r0 w1 where p: "probe w = (r0, w1)" by fastforce
  have e1: "extends w w1" using probe_extends [of w] p by simp
  have u0: "\<exists>u. r0 = fst (probe u) \<and> extends w u" using p by (intro exI [of _ w]) simp
  show ?thesis
  proof (cases "en_VirtioRNGVisible r0 \<or> timeout \<le> 0")
    case True
    then have "waitForVirtioRNG os timeout interval probe w = Some (r0, w1)"
      by (simp add: waitForVirtioRNG_def p)
    with True e1 u0 show ?thesis by blast
  next
    case False
    let ?i = "if interval \<le> 0 then probeInterval else interval"
    have i: "0 < ?i" by (simp add: probeInterval_def)
    have st: "waitForVirtioRNG os timeout interval probe w =
        waitRNG os (os_Now os w1 + timeout) ?i probe r0 (w1 @ [Now])"
      using False by (simp add: waitForVirtioRNG_def p now_def Let_def)
    from waitRNG_total [OF c i, of "os_Now os w1 + timeout" r0 "w1 @ [Now]"] obtain r w' where
      t: "waitRNG os (os_Now os w1 + timeout) ?i probe r0 (w1 @ [Now]) = Some (r, w')" "extends (w1 @ [Now]) w'"
        "r = r0 \<or> (\<exists>u. r = fst (probe u) \<and> extends (w1 @ [Now]) u)"
        "en_VirtioRNGVisible r \<or> (\<exists>v. w' = v @ [Now] \<and> os_Now os w1 + timeout \<le> os_Now os v)"
      by blast
    have e: "extends w (w1 @ [Now])" using e1 extends_trans by blast
    have "os_Now os w \<le> os_Now os w1" using clock_mono [OF c e1] .
    then have "en_VirtioRNGVisible r \<or> (\<exists>v. w' = v @ [Now] \<and> os_Now os w + timeout \<le> os_Now os v)"
      using t(4) by force
    moreover have "\<exists>u. r = fst (probe u) \<and> extends w u" using t(3) u0 e extends_trans by blast
    moreover have "extends w w'" using e t(2) extends_trans by blast
    moreover have "waitForVirtioRNG os timeout interval probe w = Some (r, w')" using st t(1) by (rule trans)
    ultimately show ?thesis by blast
  qed
qed

end

text \<open>The probe of the guest's own file system keeps that contract.\<close>

lemma readStringFile_DirFS: "snd (readStringFile (DirFS os dir) p w) = w @ [ReadFile (dir @ p)]"
  by (simp add: readStringFile_def DirFS_def readFile_def Let_def split: sum.split)

lemma readIntFile_DirFS: "snd (readIntFile (DirFS os dir) p w) = w @ [ReadFile (dir @ p)]"
  using readStringFile_DirFS [of os dir p w] by (auto simp: readIntFile_def split: prod.splits option.splits)

lemma readListFile_DirFS: "snd (readListFile (DirFS os dir) p w) = w @ [ReadFile (dir @ p)]"
  using readStringFile_DirFS [of os dir p w] by (auto simp: readListFile_def Let_def split: prod.splits)

lemma ProbeFromFS_DirFS_world:
  "snd (ProbeFromFS (DirFS os dir) w) = w @ [ReadFile (dir @ entropyAvailPath),
     ReadFile (dir @ rngAvailablePath), ReadFile (dir @ rngCurrentPath), Stat (dir @ hwrngDevicePath)]"
proof -
  let ?fs = "DirFS os dir"
  obtain a b w1 where 1: "readIntFile ?fs entropyAvailPath w = ((a, b), w1)" by (metis prod.exhaust)
  obtain c d w2 where 2: "readListFile ?fs rngAvailablePath w1 = ((c, d), w2)" by (metis prod.exhaust)
  obtain e f w3 where 3: "readStringFile ?fs rngCurrentPath w2 = ((e, f), w3)" by (metis prod.exhaust)
  have s: "fs_Stat ?fs hwrngDevicePath w3 = (os_Stat os w3 (dir @ hwrngDevicePath), w3 @ [Stat (dir @ hwrngDevicePath)])"
    by (simp add: DirFS_def stat_def)
  have "snd (ProbeFromFS ?fs w) = w3 @ [Stat (dir @ hwrngDevicePath)]"
    by (simp only: ProbeFromFS_def 1 2 3 s Let_def prod.case snd_conv)
  moreover have "w1 = w @ [ReadFile (dir @ entropyAvailPath)]" "w2 = w1 @ [ReadFile (dir @ rngAvailablePath)]"
    "w3 = w2 @ [ReadFile (dir @ rngCurrentPath)]"
    using readIntFile_DirFS [of os dir entropyAvailPath w] readListFile_DirFS [of os dir rngAvailablePath w1]
      readStringFile_DirFS [of os dir rngCurrentPath w2] 1 2 3 by simp_all
  ultimately show ?thesis by simp
qed

interpretation dirfs: probe_call "ProbeFromFS (DirFS os dir)"
  by unfold_locales (simp add: ProbeFromFS_DirFS_world)

text \<open>
  With a clock that does not run backwards and sleeps that last, \<^verbatim>\<open>WaitForVirtioRNG\<close>
  returns for every timeout; what it returns is the answer of a probe made during the
  call, and it gives up on an invisible virtio generator only after the timeout has passed
  (at once when the timeout is not positive).
\<close>

theorem WaitForVirtioRNG_returns:
  assumes "clock_ok os"
  shows "\<exists>r w'. WaitForVirtioRNG os timeout w = Some (r, w') \<and> extends w w' \<and>
     (\<exists>u. r = fst (ProbeFromFS (DirFS os ''/'') u) \<and> extends w u) \<and>
     (en_VirtioRNGVisible r \<or> timeout \<le> 0 \<or> (\<exists>v. w' = v @ [Now] \<and> os_Now os w + timeout \<le> os_Now os v))"
  unfolding WaitForVirtioRNG_def by (rule dirfs.waitForVirtioRNG_total [OF assms])

theorem WaitForVirtioRNG_returns_witness:
  "\<exists>r w'. WaitForVirtioRNG good_os 0 [] = Some (r, w') \<and> extends [] w'"
  using WaitForVirtioRNG_returns [OF good_os_clock, of 0 "[]"] by blast

theorem ProbeFromFS_consistent_witness:
  "en_VirtioRNGVisible (fst (ProbeFromFS (DirFS (good_os\<lparr>os_ReadFile := \<lambda>_ _. Inr ''Virtio''\<rparr>) ''/'') [])) \<longleftrightarrow> True"
proof -
  let ?fs = "DirFS (good_os\<lparr>os_ReadFile := \<lambda>_ _. Inr ''Virtio''\<rparr>) ''/''"
  have "en_RNGCurrent (fst (ProbeFromFS ?fs [])) = ''Virtio'' \<and> containsVirtio ''Virtio''" by code_simp
  with ProbeFromFS_consistent [of ?fs "[]"] show ?thesis by (simp add: Let_def)
qed

end
