(* ===== verification/Boot.thy ===== *)
theory Boot
  imports Sys
begin

text \<open>
  The package \<^verbatim>\<open>internal/boot\<close>: the pseudo file systems, the HTTP address, the signal
  handler of PID 1 and the HTTP server. The children of PID 1 are a process table on which
  \<^verbatim>\<open>wait4(-1, WNOHANG)\<close> is defined as the kernel documents it; the goroutine that drains the
  signal channel and the signals that arrive are an interleaving of steps.
\<close>

section \<open>Mounts and addresses\<close>

record MountResult =
  mr_Source :: string
  mr_Target :: string
  mr_FSType :: string
  mr_Data :: string
  mr_Mounted :: bool
  mr_Error :: string

record mountSpec =
  ms_source :: string
  ms_target :: string
  ms_fsType :: string
  ms_flags :: nat
  ms_data :: string

definition mountSpecs :: "mountSpec list" where
  "mountSpecs =
     [\<lparr>ms_source = ''proc'', ms_target = ''/proc'', ms_fsType = ''proc'', ms_flags = 0, ms_data = ''''\<rparr>,
      \<lparr>ms_source = ''sysfs'', ms_target = ''/sys'', ms_fsType = ''sysfs'', ms_flags = 0, ms_data = ''''\<rparr>,
      \<lparr>ms_source = ''devtmpfs'', ms_target = ''/dev'', ms_fsType = ''devtmpfs'', ms_flags = 0, ms_data = ''mode=0755''\<rparr>]"

definition mountOne :: "os \<Rightarrow> mountSpec \<Rightarrow> MountResult io" where
  "mountOne os spec w =
     (let result = \<lparr>mr_Source = ms_source spec, mr_Target = ms_target spec, mr_FSType = ms_fsType spec,
                    mr_Data = ms_data spec, mr_Mounted = False, mr_Error = ''''\<rparr>
      in case mkdirAll os (ms_target spec) 0x1ED w of
           (Some e, w) \<Rightarrow> (result\<lparr>mr_Error := err_text e\<rparr>, w)
         | (None, w) \<Rightarrow>
             (case mount os (ms_source spec) (ms_target spec) (ms_fsType spec) (ms_flags spec) (ms_data spec) w of
                (Some e, w) \<Rightarrow> (result\<lparr>mr_Error := err_text e\<rparr>, w)
              | (None, w) \<Rightarrow> (result\<lparr>mr_Mounted := True\<rparr>, w)))"

fun mountAll :: "os \<Rightarrow> mountSpec list \<Rightarrow> (MountResult list) io" where
  "mountAll os [] w = ([], w)"
| "mountAll os (spec # specs) w =
     (case mountOne os spec w of (r, w) \<Rightarrow> (case mountAll os specs w of (rs, w) \<Rightarrow> (r # rs, w)))"

definition PrepareFilesystem :: "os \<Rightarrow> (MountResult list) io" where
  "PrepareFilesystem os w = mountAll os mountSpecs w"

definition HTTPAddress :: "environ \<Rightarrow> string" where
  "HTTPAddress env =
     (if getenv env ''GO_INIT_HTTP_ADDR'' \<noteq> '''' then getenv env ''GO_INIT_HTTP_ADDR'' else '':8080'')"

text \<open>
  The HTTP server: \<^verbatim>\<open>ListenAndServe\<close> blocks until the server stops and returns the reason,
  a parameter here; the handler it serves is wrapped in the request logger.
\<close>

record http_request =
  rq_Method :: string
  rq_Path :: string
  rq_RemoteAddr :: string

definition requestLogger ::
  "(http_request \<Rightarrow> 's \<Rightarrow> 's) \<Rightarrow> http_request \<Rightarrow> string list \<times> 's \<Rightarrow> string list \<times> 's" where
  "requestLogger next r s =
     (fst s @ [rq_Method r @ '' '' @ rq_Path r @ '' from '' @ rq_RemoteAddr r], next r (snd s))"

definition ServeHTTP :: "(string \<Rightarrow> world \<Rightarrow> go_error) \<Rightarrow> string \<Rightarrow> (go_error option) io" where
  "ServeHTTP listenAndServe addr w =
     (let err = listenAndServe addr w; w = w @ [syscall.ServeHTTP addr]
      in if errors_is err HTTPServerClosed then (None, w) else (Some err, w))"

text \<open>
  \<^verbatim>\<open>Halt\<close> pauses for ever: \<open>pauses n\<close> is what the \<open>n\<close>-th \<^verbatim>\<open>pause\<close> returns once a signal has ended it. Not
  returning is the value \<^const>\<open>None\<close>.
\<close>

partial_function (option) haltLoop :: "(nat \<Rightarrow> go_error option) \<Rightarrow> nat \<Rightarrow> string list \<Rightarrow> (string list) option" where
  "haltLoop pauses n logged =
     haltLoop pauses (Suc n) (case pauses n of None \<Rightarrow> logged | Some e \<Rightarrow> logged @ [''pause returned: '' @ err_text e])"

definition Halt :: "(nat \<Rightarrow> go_error option) \<Rightarrow> string list \<Rightarrow> (string list) option" where
  "Halt pauses logged = haltLoop pauses 0 (logged @ [''entering halt loop to keep PID 1 resident''])"

lemma haltLoop_never: "haltLoop pauses n logged = Some l \<Longrightarrow> False"
  using haltLoop.raw_induct [where P = "\<lambda>_ _ _ _. False"] by blast

lemma Halt_never [simp]: "Halt pauses logged = None"
  using haltLoop_never by (cases "Halt pauses logged") (auto simp: Halt_def)

section \<open>Children and signals\<close>

record proc_table =
  pt_zombies :: "(int \<times> nat) list"
  pt_running :: "int list"

text \<open>
  \<^verbatim>\<open>wait4(-1, &status, WNOHANG)\<close>: the process id and status of a child that has ended, 0
  when there are children but none has ended, -1 and \<^verbatim>\<open>ECHILD\<close> when there are none.
\<close>

definition ECHILD_error :: go_error where
  "ECHILD_error = \<lparr>err_text = ''no child processes'', err_chain = [ECHILD]\<rparr>"

definition Wait4 :: "proc_table \<Rightarrow> (int \<times> nat \<times> go_error option) \<times> proc_table" where
  "Wait4 t =
     (case pt_zombies t of
        (p, status) # zs \<Rightarrow> ((p, status, None), t\<lparr>pt_zombies := zs\<rparr>)
      | [] \<Rightarrow> if pt_running t = [] then ((- 1, 0, Some ECHILD_error), t) else ((0, 0, None), t))"

datatype reap_log = Reaped int nat | WaitFailed go_error

lemma Wait4_shrinks:
  "((pid, status, err), t') = Wait4 t \<Longrightarrow> \<not> pid \<le> 0 \<Longrightarrow> length (pt_zombies t') < length (pt_zombies t)"
  by (auto simp: Wait4_def split: list.splits if_splits)

function reapChildren :: "proc_table \<Rightarrow> reap_log list \<times> proc_table" where
  "reapChildren t =
     (case Wait4 t of ((pid, status, err), t') \<Rightarrow>
        if pid \<le> 0
        then ((case err of None \<Rightarrow> [] | Some e \<Rightarrow> if errors_is e ECHILD then [] else [WaitFailed e]), t')
        else (case reapChildren t' of (l, t'') \<Rightarrow> (Reaped pid status # l, t'')))"
  by auto
termination
  by (relation "measure (length \<circ> pt_zombies)") (auto dest: Wait4_shrinks)

declare reapChildren.simps [simp del]

datatype signal = SIGCHLD | SIGINT | SIGTERM

record reaper =
  rp_signals :: "signal list"
  rp_table :: proc_table
  rp_log :: "reap_log list"

text \<open>
  \<^verbatim>\<open>signal.Notify\<close> delivers to a channel of eight places without blocking: a signal that
  finds it full is lost.
\<close>

definition notify :: "signal \<Rightarrow> signal list \<Rightarrow> signal list" where
  "notify sg buf = (if length buf < 8 then buf @ [sg] else buf)"

definition handleSignal :: "signal \<Rightarrow> reaper \<Rightarrow> reaper" where
  "handleSignal sg s =
     (case sg of
        SIGCHLD \<Rightarrow> (case reapChildren (rp_table s) of (l, t) \<Rightarrow> s\<lparr>rp_table := t, rp_log := rp_log s @ l\<rparr>)
      | _ \<Rightarrow> s)"

inductive reaper_step :: "reaper \<Rightarrow> reaper \<Rightarrow> bool" where
  fork: "reaper_step s (s\<lparr>rp_table := t\<lparr>pt_running := p # pt_running t\<rparr>\<rparr>)" if "t = rp_table s" "0 < p"
| exit: "reaper_step s (s\<lparr>rp_table := t\<lparr>pt_running := remove1 p (pt_running t), pt_zombies := pt_zombies t @ [(p, st)]\<rparr>,
                          rp_signals := notify SIGCHLD (rp_signals s)\<rparr>)"
    if "t = rp_table s" "p \<in> set (pt_running t)"
| interrupt: "reaper_step s (s\<lparr>rp_signals := notify sg (rp_signals s)\<rparr>)" if "sg \<noteq> SIGCHLD"
| handle: "reaper_step s (handleSignal sg (s\<lparr>rp_signals := rest\<rparr>))" if "rp_signals s = sg # rest"

inductive_cases reaper_stepE: "reaper_step s t"

section \<open>Properties\<close>

lemma mountOne_result:
  "mountOne os spec w = (r, w') \<Longrightarrow> mr_Target r = ms_target spec \<and>
     (mr_Mounted r \<longleftrightarrow> os_MkdirAll os w (ms_target spec) 0x1ED = None \<and>
        os_Mount os (w @ [MkdirAll (ms_target spec) 0x1ED]) (ms_source spec) (ms_target spec) (ms_fsType spec)
          (ms_flags spec) (ms_data spec) = None) \<and>
     (\<exists>n\<le>2. w' = w @ take n [MkdirAll (ms_target spec) 0x1ED,
        Mount (ms_source spec) (ms_target spec) (ms_fsType spec) (ms_flags spec) (ms_data spec)])"
  by (auto simp: mountOne_def call_defs Let_def split: option.splits
      intro: exI [of _ "Suc 0"] exI [of _ "2 :: nat"])

lemma mountOne_extends: "extends w (snd (mountOne os spec w))"
  using mountOne_result [of os spec w "fst (mountOne os spec w)" "snd (mountOne os spec w)"] by auto

lemma mountAll_results:
  "map mr_Target (fst (mountAll os specs w)) = map ms_target specs \<and> extends w (snd (mountAll os specs w))"
proof (induction specs arbitrary: w)
  case (Cons spec specs)
  obtain r v where r: "mountOne os spec w = (r, v)" by fastforce
  obtain rs u where rs: "mountAll os specs v = (rs, u)" by fastforce
  have "extends w u" using mountOne_extends [of w os spec] Cons.IH [of v] extends_trans [of w v u] by (simp add: r rs)
  with Cons.IH [of v] mountOne_result [OF r] show ?case by (simp add: r rs)
qed simp

definition pids_ok :: "proc_table \<Rightarrow> bool" where
  "pids_ok t = ((\<forall>z\<in>set (pt_zombies t). 0 < fst z) \<and> (\<forall>p\<in>set (pt_running t). 0 < p))"

lemma reapChildren_all:
  "pids_ok t \<Longrightarrow> reapChildren t = (map (\<lambda>(p, st). Reaped p st) (pt_zombies t), t\<lparr>pt_zombies := []\<rparr>)"
proof (induction t rule: reapChildren.induct)
  case (1 t)
  show ?case
  proof (cases "pt_zombies t")
    case Nil
    then have "t\<lparr>pt_zombies := []\<rparr> = t" by (cases t) simp
    with Nil show ?thesis
      by (subst reapChildren.simps) (auto simp: Wait4_def ECHILD_error_def errors_is_def)
  next
    case (Cons z zs)
    obtain p st where z: "z = (p, st)" by fastforce
    have w: "Wait4 t = ((p, st, None), t\<lparr>pt_zombies := zs\<rparr>)" by (simp add: Wait4_def Cons z)
    have p: "\<not> p \<le> 0" "pids_ok (t\<lparr>pt_zombies := zs\<rparr>)" using 1(2) by (auto simp: pids_ok_def Cons z)
    from 1(1) [OF w [symmetric] refl refl p] have
      "reapChildren (t\<lparr>pt_zombies := zs\<rparr>) = (map (\<lambda>(p, st). Reaped p st) zs, t\<lparr>pt_zombies := []\<rparr>)"
      by simp
    then show ?thesis using p by (subst reapChildren.simps) (simp add: w Cons z)
  qed
qed

text \<open>
  C29. One \<^verbatim>\<open>SIGCHLD\<close> is enough for any number of ended children: \<^verbatim>\<open>reapChildren\<close> returns,
  collects each of them once, in order and with its status, leaves no zombie and does not
  touch the children still running, with or without any left.
\<close>

theorem reapChildren_complete:
  assumes "pids_ok t"
  shows "fst (reapChildren t) = map (\<lambda>(p, st). Reaped p st) (pt_zombies t) \<and>
   pt_zombies (snd (reapChildren t)) = [] \<and> pt_running (snd (reapChildren t)) = pt_running t"
  by (simp add: reapChildren_all [OF assms])

theorem reapChildren_complete_witness:
  "fst (reapChildren \<lparr>pt_zombies = [(7, 0), (9, 256)], pt_running = [3]\<rparr>) = [Reaped 7 0, Reaped 9 256]"
  using reapChildren_complete [of "\<lparr>pt_zombies = [(7, 0), (9, 256)], pt_running = [3]\<rparr>"] by (simp add: pids_ok_def)

text \<open>
  The invariant of the signal handler: while the channel is never filled by interrupts alone,
  a zombie always has a \<^verbatim>\<open>SIGCHLD\<close> on its way that will collect it.
\<close>

definition calm :: "reaper \<Rightarrow> bool" where
  "calm s = (length (filter (\<lambda>g. g \<noteq> SIGCHLD) (rp_signals s)) < 8)"

definition reaper_ok :: "reaper \<Rightarrow> bool" where
  "reaper_ok s = (pids_ok (rp_table s) \<and> (pt_zombies (rp_table s) \<noteq> [] \<longrightarrow> SIGCHLD \<in> set (rp_signals s)))"

lemma notify_keeps: "SIGCHLD \<in> set buf \<Longrightarrow> SIGCHLD \<in> set (notify sg buf)"
  by (simp add: notify_def)

lemma notify_SIGCHLD: "length (filter (\<lambda>g. g \<noteq> SIGCHLD) buf) < 8 \<Longrightarrow> SIGCHLD \<in> set (notify SIGCHLD buf)"
proof (rule ccontr)
  assume l: "length (filter (\<lambda>g. g \<noteq> SIGCHLD) buf) < 8" and n: "SIGCHLD \<notin> set (notify SIGCHLD buf)"
  then have "\<not> length buf < 8" "SIGCHLD \<notin> set buf" by (auto simp: notify_def split: if_splits)
  then have "filter (\<lambda>g. g \<noteq> SIGCHLD) buf = buf" by (auto simp: filter_id_conv)
  with l \<open>\<not> length buf < 8\<close> show False by simp
qed

lemma reaper_step_ok:
  assumes "reaper_step s t" "calm s" "reaper_ok s"
  shows "reaper_ok t"
  using assms(1)
proof (cases rule: reaper_step.cases)
  case (exit t p st)
  then show ?thesis using assms(2,3) notify_SIGCHLD [of "rp_signals s"]
    by (auto simp: reaper_ok_def pids_ok_def calm_def dest: notin_set_remove1 set_remove1_subset [THEN subsetD])
next
  case (handle sg rest)
  then show ?thesis using assms(3)
    by (cases sg) (auto simp: handleSignal_def reaper_ok_def reapChildren_all pids_ok_def)
qed (use assms(3) in \<open>auto simp: reaper_ok_def pids_ok_def notify_keeps\<close>)

text \<open>
  C28. In every run of the signal handler from a fresh start, in any order of forks, exits,
  interrupts and handled signals, and as long as eight unhandled interrupts never fill the
  channel, a zombie has a \<^verbatim>\<open>SIGCHLD\<close> waiting in the channel; so once the channel is empty
  there is none.
\<close>

theorem reaper_no_zombie_left:
  assumes "(\<lambda>s t. reaper_step s t \<and> calm s)\<^sup>*\<^sup>* \<lparr>rp_signals = [], rp_table = \<lparr>pt_zombies = [], pt_running = []\<rparr>, rp_log = []\<rparr> s"
  shows "(pt_zombies (rp_table s) \<noteq> [] \<longrightarrow> SIGCHLD \<in> set (rp_signals s)) \<and>
     (rp_signals s = [] \<longrightarrow> pt_zombies (rp_table s) = [])"
proof -
  have "reaper_ok s" using assms
  proof (induction rule: rtranclp_induct)
    case base
    show ?case by (simp add: reaper_ok_def pids_ok_def)
  next
    case (step t u)
    then show ?case using reaper_step_ok by blast
  qed
  then show ?thesis by (auto simp: reaper_ok_def)
qed

definition start :: reaper where
  "start = \<lparr>rp_signals = [], rp_table = \<lparr>pt_zombies = [], pt_running = []\<rparr>, rp_log = []\<rparr>"

definition ended :: reaper where
  "ended = \<lparr>rp_signals = [SIGCHLD], rp_table = \<lparr>pt_zombies = [(2, 0)], pt_running = []\<rparr>, rp_log = []\<rparr>"

theorem reaper_no_zombie_left_witness: "SIGCHLD \<in> set (rp_signals ended)"
proof -
  let ?R = "\<lambda>s t. reaper_step s t \<and> calm s"
  let ?a = "start\<lparr>rp_table := (rp_table start)\<lparr>pt_running := [2]\<rparr>\<rparr>"
  have "?R start ?a" using fork [of "rp_table start" start 2] by (simp add: start_def calm_def)
  moreover have "?R ?a ended"
    using exit [of "rp_table ?a" ?a 2 0] by (simp add: start_def notify_def ended_def calm_def)
  ultimately have "?R\<^sup>*\<^sup>* start ended" by (rule converse_rtranclp_into_rtranclp [OF _ r_into_rtranclp])
  from reaper_no_zombie_left [OF this [unfolded start_def]] show ?thesis by (simp add: ended_def)
qed

lemma interrupts:
  "length (rp_signals s) + n \<le> 8 \<Longrightarrow> reaper_step\<^sup>*\<^sup>* s (s\<lparr>rp_signals := rp_signals s @ replicate n SIGINT\<rparr>)"
proof (induction n)
  case (Suc n)
  let ?t = "s\<lparr>rp_signals := rp_signals s @ replicate n SIGINT\<rparr>"
  have "reaper_step ?t (?t\<lparr>rp_signals := notify SIGINT (rp_signals ?t)\<rparr>)" by (rule interrupt) simp
  also have "?t\<lparr>rp_signals := notify SIGINT (rp_signals ?t)\<rparr> = s\<lparr>rp_signals := rp_signals s @ replicate (Suc n) SIGINT\<rparr>"
    using Suc.prems by (simp add: notify_def replicate_append_same)
  finally show ?case using Suc by simp
qed simp

lemma drain_interrupts:
  "rp_signals s = replicate n SIGINT \<Longrightarrow> reaper_step\<^sup>*\<^sup>* s (s\<lparr>rp_signals := []\<rparr>)"
proof (induction n arbitrary: s)
  case (Suc n)
  let ?t = "s\<lparr>rp_signals := replicate n SIGINT\<rparr>"
  have "reaper_step s (handleSignal SIGINT ?t)" using Suc.prems by (intro handle) simp
  with Suc.IH [of ?t] show ?case by (simp add: handleSignal_def)
qed (metis (full_types) reaper.surjective reaper.update_convs(1) replicate_0 rtranclp.rtrancl_refl)

text \<open>
  Without that condition a child can be lost: eight unhandled interrupts fill the channel,
  the \<^verbatim>\<open>SIGCHLD\<close> of a child that ends then is dropped, and after all signals are handled the
  zombie is still there with nothing on its way to collect it.
\<close>

theorem reaper_can_lose_child:
  "\<exists>s. reaper_step\<^sup>*\<^sup>* start s \<and> rp_signals s = [] \<and> pt_zombies (rp_table s) = [(2, 0)]"
proof -
  let ?a = "start\<lparr>rp_table := (rp_table start)\<lparr>pt_running := [2]\<rparr>\<rparr>"
  let ?b = "?a\<lparr>rp_signals := replicate 8 SIGINT\<rparr>"
  let ?c = "?b\<lparr>rp_table := \<lparr>pt_zombies = [(2, 0)], pt_running = []\<rparr>\<rparr>"
  have "reaper_step start ?a"
    using fork [of "rp_table start" start 2] by (simp add: start_def)
  also have "reaper_step\<^sup>*\<^sup>* ?a ?b" using interrupts [of ?a 8] by (simp add: start_def)
  also have "reaper_step ?b ?c"
    using exit [of "rp_table ?b" ?b 2 0] by (simp add: start_def notify_def)
  also have "reaper_step\<^sup>*\<^sup>* ?c (?c\<lparr>rp_signals := []\<rparr>)" by (rule drain_interrupts [of _ 8]) simp
  finally show ?thesis by (intro exI [of _ "?c\<lparr>rp_signals := []\<rparr>"]) simp
qed

end
