(* ===== verification/Networking.thy ===== *)
theory Networking
  imports Sys
begin

text \<open>
  The package \<^verbatim>\<open>internal/networking\<close>: choose an interface, ask for a DHCP lease, fall back to
  the address QEMU's user network always grants, and apply the result. The libraries
  \<^verbatim>\<open>netlink\<close>, \<^verbatim>\<open>nclient4\<close> and \<^verbatim>\<open>dhcpv4\<close> are the record \<open>netlib\<close>: what their calls return and
  how their packet modifiers and accessors act. \<^verbatim>\<open>net.IP\<close> and \<^verbatim>\<open>net.IPMask\<close> are byte lists,
  \<^verbatim>\<open>nil\<close> being the empty one. Log lines are not modelled, but the queries made for them are.
\<close>

section \<open>Addresses and masks\<close>

definition ip4 :: "nat \<Rightarrow> nat \<Rightarrow> nat \<Rightarrow> nat \<Rightarrow> ip" where
  "ip4 a b c d = map char_of [a, b, c, d]"

definition v4InV6Prefix :: ip where
  "v4InV6Prefix = replicate 10 (char_of (0 :: nat)) @ replicate 2 (char_of (255 :: nat))"

definition IPv4 :: "nat \<Rightarrow> nat \<Rightarrow> nat \<Rightarrow> nat \<Rightarrow> ip" where
  "IPv4 a b c d = v4InV6Prefix @ ip4 a b c d"

definition IPv4zero :: ip where
  "IPv4zero = IPv4 0 0 0 0"

definition To4 :: "ip \<Rightarrow> ip" where
  "To4 i = (if length i = 4 then i
            else if length i = 16 \<and> take 12 i = v4InV6Prefix then drop 12 i else [])"

definition octet :: "char \<Rightarrow> nat" where
  "octet c = of_char c"

definition dotted :: "ip \<Rightarrow> string" where
  "dotted i = Join ''.'' (map (\<lambda>c. digits 10 (octet c)) i)"

definition hexBytes :: "bytes \<Rightarrow> string" where
  "hexBytes b = concat (map (\<lambda>c. hex02 (octet c)) b)"

definition IPMask_String :: "ipmask \<Rightarrow> string" where
  "IPMask_String m = (if m = [] then ''<nil>'' else hexBytes m)"

definition HardwareAddr_String :: "hwaddr \<Rightarrow> string" where
  "HardwareAddr_String a = Join '':'' (map (\<lambda>c. hex02 (octet c)) a)"

text \<open>The text of an IPv6 address that is not a mapped IPv4 one is the argument \<open>v6\<close>.\<close>

definition IP_String :: "(ip \<Rightarrow> string) \<Rightarrow> ip \<Rightarrow> string" where
  "IP_String v6 i =
     (if i = [] then ''<nil>''
      else if To4 i \<noteq> [] then dotted (To4 i)
      else if length i = 16 then v6 i else ''?'' @ hexBytes i)"

fun leadingOnes :: "nat \<Rightarrow> nat \<Rightarrow> nat \<times> nat" where
  "leadingOnes 0 v = (0, v)"
| "leadingOnes (Suc k) v =
     (if 128 \<le> v then (case leadingOnes k (2 * v mod 256) of (n, r) \<Rightarrow> (Suc n, r)) else (0, v))"

fun simpleMaskLength :: "ipmask \<Rightarrow> nat option" where
  "simpleMaskLength [] = Some 0"
| "simpleMaskLength (c # m) =
     (if octet c = 255 then (case simpleMaskLength m of None \<Rightarrow> None | Some n \<Rightarrow> Some (8 + n))
      else (case leadingOnes 8 (octet c) of (n, r) \<Rightarrow>
        if r \<noteq> 0 \<or> list_ex (\<lambda>c. octet c \<noteq> 0) m then None else Some n))"

definition mask_Size :: "ipmask \<Rightarrow> nat \<times> nat" where
  "mask_Size m = (case simpleMaskLength m of None \<Rightarrow> (0, 0) | Some n \<Rightarrow> (n, 8 * length m))"

definition IPNet_String :: "(ip \<Rightarrow> string) \<Rightarrow> ip \<Rightarrow> ipmask \<Rightarrow> string" where
  "IPNet_String v6 i m =
     (let nn = (if To4 i \<noteq> [] then To4 i else i)
      in if length nn \<noteq> 4 \<and> length nn \<noteq> 16 then ''<nil>''
         else if length m = 4 \<and> length nn \<noteq> 4 then ''<nil>''
         else if length m \<noteq> 4 \<and> length m \<noteq> 16 then ''<nil>''
         else (let m = (if length m = 16 \<and> length nn = 4 then drop 12 m else m)
               in case simpleMaskLength m of
                    None \<Rightarrow> IP_String v6 nn @ ''/'' @ IPMask_String m
                  | Some l \<Rightarrow> IP_String v6 nn @ ''/'' @ digits 10 l))"

fun maskByte :: "nat \<Rightarrow> nat" where
  "maskByte n = (if 8 \<le> n then 255 else 256 - 2 ^ (8 - n))"

definition CIDRMask32 :: "nat \<Rightarrow> ipmask" where
  "CIDRMask32 n = map (\<lambda>k. char_of (maskByte (n - 8 * k))) [0, 1, 2, 3]"

section \<open>Libraries\<close>

type_synonym modifier = "DHCPv4 \<Rightarrow> DHCPv4"

record link =
  lk_Name :: string
  lk_HardwareAddr :: hwaddr
  lk_Flags :: "64 word"
  lk_MTU :: int
  lk_OperState :: string
  lk_Index :: nat

record netlib =
  nl_LinkList :: "world \<Rightarrow> (link list) result"
  nl_LinkSetUp :: "world \<Rightarrow> link \<Rightarrow> go_error option"
  nl_LinkByName :: "world \<Rightarrow> string \<Rightarrow> link result"
  nl_ParseAddr :: "string \<Rightarrow> string result"
  nl_AddrReplace :: "world \<Rightarrow> link \<Rightarrow> string \<Rightarrow> go_error option"
  nl_RouteReplace :: "world \<Rightarrow> nat \<Rightarrow> ip \<Rightarrow> go_error option"
  nl_NewRawUDPConn :: "world \<Rightarrow> string \<Rightarrow> nat \<Rightarrow> go_error option"
  nl_NewWithConn :: "world \<Rightarrow> string \<Rightarrow> hwaddr \<Rightarrow> int \<Rightarrow> int \<Rightarrow> go_error option"
  nl_SendAndRead :: "world \<Rightarrow> int \<Rightarrow> DHCPv4 \<Rightarrow> (DHCPv4 \<Rightarrow> bool) \<Rightarrow> DHCPv4 result"
  nl_IsMessageType :: "nat list \<Rightarrow> DHCPv4 \<Rightarrow> bool"
  nl_IsCorrectServer :: "ip \<Rightarrow> DHCPv4 \<Rightarrow> bool"
  nl_IsAll :: "(DHCPv4 \<Rightarrow> bool) list \<Rightarrow> DHCPv4 \<Rightarrow> bool"
  nl_ErrNak :: "DHCPv4 \<Rightarrow> DHCPv4 \<Rightarrow> go_error"
  nl_MaxMessageSize :: nat
  nl_ClientPort :: nat
  nl_MessageType :: "DHCPv4 \<Rightarrow> nat"
  nl_SubnetMask :: "DHCPv4 \<Rightarrow> ipmask option"
  nl_Router :: "DHCPv4 \<Rightarrow> ip list"
  nl_DNS :: "DHCPv4 \<Rightarrow> ip list"
  nl_DomainName :: "DHCPv4 \<Rightarrow> string"
  nl_ServerIdentifier :: "DHCPv4 \<Rightarrow> ip"
  nl_LeaseTime :: "DHCPv4 \<Rightarrow> int \<Rightarrow> int"
  nl_RenewalTime :: "DHCPv4 \<Rightarrow> int \<Rightarrow> int"
  nl_RebindingTime :: "DHCPv4 \<Rightarrow> int \<Rightarrow> int"
  nl_PrependModifiers :: "modifier list \<Rightarrow> modifier list \<Rightarrow> modifier list"
  nl_WithHwAddr :: "hwaddr \<Rightarrow> modifier"
  nl_WithRequestedOptions :: "nat list \<Rightarrow> modifier"
  nl_WithMessageType :: "nat \<Rightarrow> modifier"
  nl_WithReply :: "DHCPv4 \<Rightarrow> modifier"
  nl_WithClientIP :: "ip \<Rightarrow> modifier"
  nl_WithBroadcast :: "bool \<Rightarrow> modifier"
  nl_WithOption :: "nat \<times> bytes \<Rightarrow> modifier"
  nl_WithOptionCopied :: "DHCPv4 \<Rightarrow> nat \<Rightarrow> modifier"
  nl_OptMaxMessageSize :: "nat \<Rightarrow> nat \<times> bytes"
  nl_OptRequestedIPAddress :: "ip \<Rightarrow> nat \<times> bytes"
  nl_IP6String :: "ip \<Rightarrow> string"
  nl_Seconds :: "int \<Rightarrow> int"
  nl_Getpid :: nat
  nl_Uint32 :: "world \<Rightarrow> 32 word"

text \<open>
  The numbers RFC 2131 and RFC 2132 give to messages and options, and the bits of
  \<^verbatim>\<open>net.Flags\<close>.
\<close>

definition MessageTypeDiscover :: nat where "MessageTypeDiscover = 1"

definition MessageTypeOffer :: nat where "MessageTypeOffer = 2"

definition MessageTypeRequest :: nat where "MessageTypeRequest = 3"

definition MessageTypeAck :: nat where "MessageTypeAck = 5"

definition MessageTypeNak :: nat where "MessageTypeNak = 6"

definition requestedOptions :: "nat list" where "requestedOptions = [1, 3, 15, 6]"

definition OptionServerIdentifier :: nat where "OptionServerIdentifier = 54"

section \<open>Results and configuration\<close>

definition second :: int where "second = 1000000000"

definition defaultDHCPTimeout :: int where "defaultDHCPTimeout = 15 * second"

definition defaultDHCPRetry :: int where "defaultDHCPRetry = 3"

definition resolvConfPath :: string where "resolvConfPath = ''/etc/resolv.conf''"

record net_Result =
  nr_Method :: string
  nr_Configured :: bool
  nr_Fallback :: bool
  nr_InterfaceName :: string
  nr_HardwareAddr :: string
  nr_OperState :: string
  nr_LinkFlags :: "string list"
  nr_MTU :: int
  nr_Address :: string
  nr_CIDR :: string
  nr_Gateway :: string
  nr_DNSServers :: "string list"
  nr_DomainName :: string
  nr_LeaseSeconds :: int
  nr_RenewalSeconds :: int
  nr_RebindingSeconds :: int
  nr_ResolverConfig :: string
  nr_Step :: string
  nr_DHCPError :: string
  nr_Error :: string

record net_Config =
  nc_PreferredInterface :: string
  nc_Timeout :: int
  nc_Retry :: int
  nc_EnableDHCP :: bool
  nc_EnableQEMUFallback :: bool

record InterfaceChoice =
  ic_Name :: string
  ic_HardwareAddr :: string
  ic_Loopback :: bool

record leaseDetails =
  ld_Address :: ip
  ld_PrefixLength :: nat
  ld_CIDR :: string
  ld_Gateway :: ip
  ld_DNSServers :: "ip list"
  ld_DomainName :: string
  ld_LeaseTime :: int
  ld_RenewalTime :: int
  ld_RebindingTime :: int
  ld_ResolverContents :: string

record Lease =
  ls_ACK :: "DHCPv4 option"
  ls_Offer :: "DHCPv4 option"
  ls_CreationTime :: int

definition durationEnv :: "os \<Rightarrow> environ \<Rightarrow> string \<Rightarrow> int \<Rightarrow> int" where
  "durationEnv os env name fallback =
     (let raw = TrimSpace (getenv env name)
      in if raw = '''' then fallback
         else case os_ParseDuration os raw of
                None \<Rightarrow> fallback | Some v \<Rightarrow> if v \<le> 0 then fallback else v)"

definition intEnv :: "environ \<Rightarrow> string \<Rightarrow> int \<Rightarrow> int" where
  "intEnv env name fallback =
     (let raw = TrimSpace (getenv env name)
      in if raw = '''' then fallback
         else case Atoi raw of None \<Rightarrow> fallback | Some v \<Rightarrow> if v \<le> 0 then fallback else v)"

definition boolEnv :: "environ \<Rightarrow> string \<Rightarrow> bool \<Rightarrow> bool" where
  "boolEnv env name fallback =
     (let raw = TrimSpace (ToLower (getenv env name))
      in if raw = '''' then fallback
         else if List.member [''1'', ''true'', ''yes'', ''on''] raw then True
         else if List.member [''0'', ''false'', ''no'', ''off''] raw then False
         else fallback)"

definition LoadConfigFromEnv :: "os \<Rightarrow> environ \<Rightarrow> net_Config" where
  "LoadConfigFromEnv os env =
     \<lparr>nc_PreferredInterface = getenv env ''GO_INIT_NETWORK_INTERFACE'',
      nc_Timeout = durationEnv os env ''GO_INIT_DHCP_TIMEOUT'' defaultDHCPTimeout,
      nc_Retry = intEnv env ''GO_INIT_DHCP_RETRY'' defaultDHCPRetry,
      nc_EnableDHCP = boolEnv env ''GO_INIT_ENABLE_DHCP'' True,
      nc_EnableQEMUFallback = boolEnv env ''GO_INIT_ENABLE_QEMU_USERNET_FALLBACK'' True\<rparr>"

section \<open>Choosing the link\<close>

fun findChoice :: "InterfaceChoice list \<Rightarrow> string \<Rightarrow> InterfaceChoice option" where
  "findChoice [] preferred = None"
| "findChoice (c # cs) preferred = (if ic_Name c = preferred then Some c else findChoice cs preferred)"

fun firstUsable :: "InterfaceChoice list \<Rightarrow> InterfaceChoice option" where
  "firstUsable [] = None"
| "firstUsable (c # cs) =
     (if ic_Loopback c then firstUsable cs
      else if ic_HardwareAddr c = '''' then firstUsable cs
      else Some c)"

definition SelectInterface :: "InterfaceChoice list \<Rightarrow> string \<Rightarrow> InterfaceChoice result" where
  "SelectInterface choices preferred =
     (if preferred \<noteq> ''''
      then (case findChoice choices preferred of
              Some c \<Rightarrow> Inr c
            | None \<Rightarrow> Inl (errorf (''preferred interface '' @ quote preferred @ '' not found'')))
      else (case firstUsable choices of
              Some c \<Rightarrow> Inr c
            | None \<Rightarrow> Inl (errorf ''no suitable non-loopback interface found'')))"

definition choiceOf :: "link \<Rightarrow> InterfaceChoice" where
  "choiceOf l = \<lparr>ic_Name = lk_Name l, ic_HardwareAddr = HardwareAddr_String (lk_HardwareAddr l),
                 ic_Loopback = bit (lk_Flags l) 2\<rparr>"

definition linkTable :: "link list \<Rightarrow> string \<rightharpoonup> link" where
  "linkTable ls = fold (\<lambda>l m. m(lk_Name l \<mapsto> l)) ls Map.empty"

definition selectLink :: "netlib \<Rightarrow> string \<Rightarrow> (link result) io" where
  "selectLink lib preferred w =
     (let w' = w @ [LinkList]
      in case nl_LinkList lib w of
           Inl e \<Rightarrow> (Inl (wrap ''list links: '' e), w')
         | Inr ls \<Rightarrow>
             (case SelectInterface (map choiceOf ls) preferred of
                Inl e \<Rightarrow> (Inl e, w')
              | Inr choice \<Rightarrow>
                  (case linkTable ls (ic_Name choice) of
                     None \<Rightarrow> (Inl (errorf (''selected interface '' @ quote (ic_Name choice) @ '' disappeared'')), w')
                   | Some l \<Rightarrow> (Inr l, w'))))"

definition formatFlags :: "64 word \<Rightarrow> string list" where
  "formatFlags flags =
     (let parts = (if bit flags 0 then [''up''] else []) @ (if bit flags 1 then [''broadcast''] else []) @
                  (if bit flags 2 then [''loopback''] else []) @ (if bit flags 3 then [''point-to-point''] else []) @
                  (if bit flags 4 then [''multicast''] else [])
      in if parts = [] then [''none''] else parts)"

section \<open>Leases\<close>

fun ipv4Only :: "ip list \<Rightarrow> ip list" where
  "ipv4Only [] = []"
| "ipv4Only (i # is) = (if To4 i \<noteq> [] then To4 i # ipv4Only is else ipv4Only is)"

fun stringifyIPs :: "(ip \<Rightarrow> string) \<Rightarrow> ip list \<Rightarrow> string list" where
  "stringifyIPs v6 [] = []"
| "stringifyIPs v6 (i # is) = (if i = [] then stringifyIPs v6 is else IP_String v6 i # stringifyIPs v6 is)"

fun nameserverLines :: "(ip \<Rightarrow> string) \<Rightarrow> ip list \<Rightarrow> string" where
  "nameserverLines v6 [] = ''''"
| "nameserverLines v6 (s # ss) =
     (if s = [] then nameserverLines v6 ss
      else ''nameserver '' @ IP_String v6 s @ [CHR 0x0A] @ nameserverLines v6 ss)"

definition renderResolvConf :: "(ip \<Rightarrow> string) \<Rightarrow> ip list \<Rightarrow> string \<Rightarrow> string" where
  "renderResolvConf v6 servers domain =
     (if servers = [] \<and> domain = '''' then ''''
      else (if domain \<noteq> '''' then ''search '' @ domain @ [CHR 0x0A] else '''') @ nameserverLines v6 servers)"

definition detailsFromLease :: "netlib \<Rightarrow> Lease option \<Rightarrow> leaseDetails result" where
  "detailsFromLease lib lease =
     (case Option.bind lease ls_ACK of
        None \<Rightarrow> Inl (errorf ''lease acknowledgement missing'')
      | Some ack \<Rightarrow>
          (let address = To4 (dh_YourIPAddr ack); v6 = nl_IP6String lib
           in if address = [] then Inl (errorf ''lease did not include an IPv4 address'')
              else case nl_SubnetMask lib ack of
                None \<Rightarrow> Inl (errorf ''lease did not include a subnet mask'')
              | Some msk \<Rightarrow>
                  (case mask_Size msk of (prefixLength, bits) \<Rightarrow>
                     if bits = 0 then Inl (errorf (''invalid subnet mask '' @ IPMask_String msk))
                     else (let routers = nl_Router lib ack;
                               gateway = (case routers of [] \<Rightarrow> [] | r # _ \<Rightarrow> To4 r)
                           in Inr \<lparr>ld_Address = address, ld_PrefixLength = prefixLength,
                                ld_CIDR = IPNet_String v6 address msk, ld_Gateway = gateway,
                                ld_DNSServers = ipv4Only (nl_DNS lib ack), ld_DomainName = nl_DomainName lib ack,
                                ld_LeaseTime = nl_LeaseTime lib ack 0, ld_RenewalTime = nl_RenewalTime lib ack 0,
                                ld_RebindingTime = nl_RebindingTime lib ack 0,
                                ld_ResolverContents =
                                  renderResolvConf v6 (ipv4Only (nl_DNS lib ack)) (nl_DomainName lib ack)\<rparr>))))"

definition hour :: int where "hour = 3600 * second"

definition qemuUsernetFallback :: "(ip \<Rightarrow> string) \<Rightarrow> leaseDetails" where
  "qemuUsernetFallback v6 =
     (let address = IPv4 10 0 2 15; msk = CIDRMask32 24; dns = [IPv4 10 0 2 3]
      in \<lparr>ld_Address = address, ld_PrefixLength = 24, ld_CIDR = IPNet_String v6 address msk,
          ld_Gateway = IPv4 10 0 2 2, ld_DNSServers = dns, ld_DomainName = '''',
          ld_LeaseTime = 24 * hour, ld_RenewalTime = 12 * hour, ld_RebindingTime = 18 * hour,
          ld_ResolverContents = renderResolvConf v6 dns ''''\<rparr>)"

definition applyLease :: "netlib \<Rightarrow> link \<Rightarrow> leaseDetails \<Rightarrow> (go_error option) io" where
  "applyLease lib l details w =
     (case nl_ParseAddr lib (ld_CIDR details) of
        Inl e \<Rightarrow> (Some (wrap (''parse CIDR '' @ ld_CIDR details @ '': '') e), w)
      | Inr addr \<Rightarrow>
          (let r = nl_AddrReplace lib w l addr; w = w @ [AddrReplace (lk_Name l) addr]
           in case r of
                Some e \<Rightarrow> (Some (wrap (''replace address '' @ ld_CIDR details @ '': '') e), w)
              | None \<Rightarrow>
                  if ld_Gateway details \<noteq> []
                  then (let r = nl_RouteReplace lib w (lk_Index l) (ld_Gateway details);
                            w = w @ [RouteReplace (lk_Index l) (ld_Gateway details)]
                        in case r of
                             Some e \<Rightarrow> (Some (wrap (''replace default route via ''
                                          @ IP_String (nl_IP6String lib) (ld_Gateway details) @ '': '') e), w)
                           | None \<Rightarrow> (None, w))
                  else (None, w)))"

definition writeResolvConf :: "os \<Rightarrow> string \<Rightarrow> (go_error option) io" where
  "writeResolvConf os contents w =
     (if contents = '''' then (None, w)
      else case mkdirAll os ''/etc'' 0x1ED w of
             (Some e, w) \<Rightarrow> (Some e, w)
           | (None, w) \<Rightarrow> writeFile os resolvConfPath contents 0x1A4 w)"

section \<open>DHCP\<close>

definition newPacketWithTransactionID :: "bytes \<Rightarrow> modifier list \<Rightarrow> DHCPv4" where
  "newPacketWithTransactionID xid modifiers =
     (let packet = \<lparr>dh_OpCode = 1, dh_HWType = 1, dh_ClientHWAddr = replicate 6 (char_of (0 :: nat)),
            dh_HopCount = 0, dh_TransactionID = xid, dh_NumSeconds = 0, dh_Flags = 0,
            dh_ClientIPAddr = IPv4zero, dh_YourIPAddr = IPv4zero, dh_ServerIPAddr = IPv4zero,
            dh_GatewayIPAddr = IPv4zero, dh_Options = []\<rparr>
      in (fold (\<lambda>f p. f p) modifiers packet)\<lparr>dh_TransactionID := xid\<rparr>)"

definition newDiscoveryWithTransactionID :: "netlib \<Rightarrow> hwaddr \<Rightarrow> bytes \<Rightarrow> modifier list \<Rightarrow> DHCPv4 result" where
  "newDiscoveryWithTransactionID lib hw xid modifiers =
     Inr (newPacketWithTransactionID xid (nl_PrependModifiers lib modifiers
       [nl_WithHwAddr lib hw, nl_WithRequestedOptions lib requestedOptions,
        nl_WithMessageType lib MessageTypeDiscover]))"

definition newRequestFromOfferWithTransactionID ::
  "netlib \<Rightarrow> DHCPv4 \<Rightarrow> bytes \<Rightarrow> modifier list \<Rightarrow> DHCPv4 result" where
  "newRequestFromOfferWithTransactionID lib offer xid modifiers =
     Inr (newPacketWithTransactionID xid (nl_PrependModifiers lib modifiers
       [nl_WithReply lib offer, nl_WithMessageType lib MessageTypeRequest,
        nl_WithClientIP lib (dh_ClientIPAddr offer),
        nl_WithOption lib (nl_OptRequestedIPAddress lib (dh_YourIPAddr offer)),
        nl_WithOptionCopied lib offer OptionServerIdentifier,
        nl_WithRequestedOptions lib requestedOptions]))"

definition broadcastMods :: "netlib \<Rightarrow> modifier list" where
  "broadcastMods lib =
     [nl_WithBroadcast lib True, nl_WithOption lib (nl_OptMaxMessageSize lib (nl_MaxMessageSize lib))]"

definition requestLease :: "os \<Rightarrow> netlib \<Rightarrow> int \<Rightarrow> hwaddr \<Rightarrow> bytes \<Rightarrow> ((Lease option) result) io" where
  "requestLease os lib ctx hw xid w =
     (case newDiscoveryWithTransactionID lib hw xid (broadcastMods lib) of
        Inl e \<Rightarrow> (Inl (wrap ''unable to create a discovery request: '' e), w)
      | Inr discover \<Rightarrow>
          (let r = nl_SendAndRead lib w ctx discover (nl_IsMessageType lib [MessageTypeOffer]);
               w = w @ [SendAndRead discover]
           in case r of
                Inl e \<Rightarrow> (Inl (wrap ''got an error while the discovery request: '' e), w)
              | Inr offer \<Rightarrow>
                  (case newRequestFromOfferWithTransactionID lib offer xid (broadcastMods lib) of
                     Inl e \<Rightarrow> (Inl (wrap ''unable to create a request: '' e), w)
                   | Inr request \<Rightarrow>
                       (let r = nl_SendAndRead lib w ctx request
                                  (nl_IsAll lib [nl_IsCorrectServer lib (nl_ServerIdentifier lib offer),
                                     nl_IsMessageType lib [MessageTypeAck, MessageTypeNak]]);
                            w = w @ [SendAndRead request]
                        in case r of
                             Inl e \<Rightarrow> (Inl (wrap ''got an error while processing the request: '' e), w)
                           | Inr response \<Rightarrow>
                               if nl_MessageType lib response = MessageTypeNak
                               then (Inl (nl_ErrNak lib offer response), w)
                               else (case now os w of (t, w) \<Rightarrow>
                                 (Inr (Some \<lparr>ls_ACK = Some response, ls_Offer = Some offer,
                                             ls_CreationTime = t\<rparr>), w))))))"

definition PutUint32 :: "32 word \<Rightarrow> bytes" where
  "PutUint32 x = map (\<lambda>k. char_of (unat (drop_bit k x) mod 256)) [24, 16, 8, 0]"

definition nextTransactionID :: "os \<Rightarrow> netlib \<Rightarrow> 32 word \<Rightarrow> (bytes \<times> 32 word) io" where
  "nextTransactionID os lib xidCounter w =
     (let counter = xidCounter + 1
      in case now os w of (t, w') \<Rightarrow>
           (let seed = xor (xor (xor (word_of_int t) (word_of_nat (nl_Getpid lib))) counter) (nl_Uint32 lib w')
            in ((PutUint32 seed, counter), w')))"

section \<open>Configure\<close>

definition max_int :: "int \<Rightarrow> int \<Rightarrow> int" where
  "max_int a b = (if b < a then a else b)"

definition int64 :: "int \<Rightarrow> int" where
  "int64 x = (x + 2 ^ 63) mod 2 ^ 64 - 2 ^ 63"

definition dhcpDeadline :: "net_Config \<Rightarrow> int" where
  "dhcpDeadline cfg = int64 (nc_Timeout cfg * max_int (nc_Retry cfg) 1)"

definition logInterfaceInventory :: "unit io" where
  "logInterfaceInventory w = ((), w @ [LinkList])"

definition logAppliedState :: "link \<Rightarrow> unit io" where
  "logAppliedState l w = ((), w @ [AddrList (lk_Name l), RouteList (lk_Name l)])"

definition applyDetails ::
  "os \<Rightarrow> netlib \<Rightarrow> link \<Rightarrow> leaseDetails \<Rightarrow> net_Result \<Rightarrow> (net_Result \<times> go_error option) io" where
  "applyDetails os lib l details result w =
     (let result = result\<lparr>nr_Step := ''apply-address''\<rparr>; v6 = nl_IP6String lib
      in case applyLease lib l details w of
           (Some e, w) \<Rightarrow>
             (let e = wrap (''apply DHCP lease on '' @ lk_Name l @ '': '') e
              in ((result\<lparr>nr_Error := err_text e\<rparr>, Some e), w))
         | (None, w) \<Rightarrow>
             (case logAppliedState l w of (_, w) \<Rightarrow>
               (case (if ld_ResolverContents details \<noteq> ''''
                      then (case writeResolvConf os (ld_ResolverContents details) w of
                              (Some e, w) \<Rightarrow>
                                (result\<lparr>nr_Step := ''write-resolver''\<rparr>, Some (wrap (''write '' @ resolvConfPath @ '': '') e), w)
                            | (None, w) \<Rightarrow>
                                (result\<lparr>nr_Step := ''write-resolver'', nr_ResolverConfig := resolvConfPath\<rparr>, None, w))
                      else (result, None, w)) of
                  (result, Some e, w) \<Rightarrow> ((result\<lparr>nr_Error := err_text e\<rparr>, Some e), w)
                | (result, None, w) \<Rightarrow>
                    ((result\<lparr>nr_Step := ''configured'', nr_Configured := True,
                        nr_Address := IP_String v6 (ld_Address details), nr_CIDR := ld_CIDR details,
                        nr_Gateway := (if ld_Gateway details \<noteq> [] then IP_String v6 (ld_Gateway details) else nr_Gateway result),
                        nr_DNSServers := stringifyIPs v6 (ld_DNSServers details),
                        nr_DomainName := ld_DomainName details,
                        nr_LeaseSeconds := nl_Seconds lib (ld_LeaseTime details),
                        nr_RenewalSeconds := nl_Seconds lib (ld_RenewalTime details),
                        nr_RebindingSeconds := nl_Seconds lib (ld_RebindingTime details)\<rparr>, None), w))))"

definition acquire ::
  "os \<Rightarrow> netlib \<Rightarrow> net_Config \<Rightarrow> link \<Rightarrow> bytes \<Rightarrow> net_Result \<Rightarrow>
   (net_Result \<times> leaseDetails result) io" where
  "acquire os lib cfg l xid result w =
     (case requestLease os lib (dhcpDeadline cfg) (lk_HardwareAddr l) xid w of
        (Inl e, w) \<Rightarrow>
          (let result = result\<lparr>nr_DHCPError := err_text e\<rparr>
           in if nc_EnableQEMUFallback cfg
              then ((result\<lparr>nr_Method := ''qemu-usernet-fallback'', nr_Fallback := True, nr_Step := ''fallback-static''\<rparr>,
                     Inr (qemuUsernetFallback (nl_IP6String lib))), w)
              else (let e = wrap (''request DHCP lease on '' @ lk_Name l @ '': '') e
                    in ((result\<lparr>nr_Error := err_text e\<rparr>, Inl e), w)))
      | (Inr lease, w) \<Rightarrow>
          (case detailsFromLease lib lease of
             Inl e \<Rightarrow> (let e = wrap (''decode DHCP lease on '' @ lk_Name l @ '': '') e
                       in ((result\<lparr>nr_Error := err_text e\<rparr>, Inl e), w))
           | Inr details \<Rightarrow> ((result, Inr details), w)))"

definition configureWithClient ::
  "os \<Rightarrow> netlib \<Rightarrow> net_Config \<Rightarrow> link \<Rightarrow> 32 word \<Rightarrow> net_Result \<Rightarrow>
   ((net_Result \<times> go_error option) \<times> 32 word) io" where
  "configureWithClient os lib cfg l xidCounter result w =
     (let result = result\<lparr>nr_Step := ''dhcp-request''\<rparr>
      in case nextTransactionID os lib xidCounter w of ((xid, xidCounter), w) \<Rightarrow>
        (case acquire os lib cfg l xid result w of
           ((result, Inl e), w) \<Rightarrow> (((result, Some e), xidCounter), w @ [CloseClient])
         | ((result, Inr details), w) \<Rightarrow>
             (case applyDetails os lib l details result w of (r, w) \<Rightarrow> ((r, xidCounter), w @ [CloseClient]))))"

definition net_Result0 :: net_Result where
  "net_Result0 = \<lparr>nr_Method = ''userspace-dhcp'', nr_Configured = False, nr_Fallback = False,
     nr_InterfaceName = '''', nr_HardwareAddr = '''', nr_OperState = '''', nr_LinkFlags = [], nr_MTU = 0,
     nr_Address = '''', nr_CIDR = '''', nr_Gateway = '''', nr_DNSServers = [], nr_DomainName = '''',
     nr_LeaseSeconds = 0, nr_RenewalSeconds = 0, nr_RebindingSeconds = 0, nr_ResolverConfig = '''',
     nr_Step = ''init'', nr_DHCPError = '''', nr_Error = ''''\<rparr>"

definition withLink :: "link \<Rightarrow> net_Result \<Rightarrow> net_Result" where
  "withLink l result = result\<lparr>nr_InterfaceName := lk_Name l,
     nr_HardwareAddr := HardwareAddr_String (lk_HardwareAddr l), nr_OperState := lk_OperState l,
     nr_LinkFlags := formatFlags (lk_Flags l), nr_MTU := lk_MTU l, nr_Step := ''link-up''\<rparr>"

definition refreshLink :: "netlib \<Rightarrow> link \<Rightarrow> net_Result \<Rightarrow> net_Result io" where
  "refreshLink lib l result w =
     ((case nl_LinkByName lib w (lk_Name l) of
         Inl e \<Rightarrow> result
       | Inr updated \<Rightarrow> result\<lparr>nr_OperState := lk_OperState updated,
           nr_LinkFlags := formatFlags (lk_Flags updated), nr_MTU := lk_MTU updated\<rparr>), w @ [LinkByName (lk_Name l)])"

definition configureLink ::
  "os \<Rightarrow> netlib \<Rightarrow> net_Config \<Rightarrow> link \<Rightarrow> 32 word \<Rightarrow> net_Result \<Rightarrow>
   ((net_Result \<times> go_error option) \<times> 32 word) io" where
  "configureLink os lib cfg l xidCounter result w =
     (let result = withLink l result;
          r = nl_LinkSetUp lib w l; w = w @ [LinkSetUp (lk_Name l)]
      in case r of
           Some e \<Rightarrow> (let e = wrap (''set link '' @ lk_Name l @ '' up: '') e
                      in (((result\<lparr>nr_Error := err_text e\<rparr>, Some e), xidCounter), w))
         | None \<Rightarrow>
             (case refreshLink lib l result w of (result, w) \<Rightarrow>
              (case logAppliedState l w of (_, w) \<Rightarrow>
               (let r = nl_NewRawUDPConn lib w (lk_Name l) (nl_ClientPort lib);
                    w = w @ [NewRawUDPConn (lk_Name l) (nl_ClientPort lib)]
                in case r of
                     Some e \<Rightarrow> (let e = wrap (''open raw DHCP socket on '' @ lk_Name l @ '': '') e
                                in (((result\<lparr>nr_Error := err_text e\<rparr>, Some e), xidCounter), w))
                   | None \<Rightarrow>
                       (let r = nl_NewWithConn lib w (lk_Name l) (lk_HardwareAddr l) (nc_Timeout cfg) (nc_Retry cfg);
                            w = w @ [NewWithConn (lk_Name l) (lk_HardwareAddr l) (nc_Timeout cfg) (nc_Retry cfg)]
                        in case r of
                             Some e \<Rightarrow> (let e = wrap (''create DHCP client on '' @ lk_Name l @ '': '') e
                                        in (((result\<lparr>nr_Error := err_text e\<rparr>, Some e), xidCounter), w))
                           | None \<Rightarrow> configureWithClient os lib cfg l xidCounter result w)))))"

definition Configure ::
  "os \<Rightarrow> netlib \<Rightarrow> environ \<Rightarrow> 32 word \<Rightarrow> ((net_Result \<times> go_error option) \<times> 32 word) io" where
  "Configure os lib env xidCounter w =
     (let cfg = LoadConfigFromEnv os env; result = net_Result0
      in case logInterfaceInventory w of (_, w) \<Rightarrow>
           if \<not> nc_EnableDHCP cfg
           then (((result\<lparr>nr_Method := ''disabled'', nr_Step := ''disabled''\<rparr>, None), xidCounter), w)
           else (case selectLink lib (nc_PreferredInterface cfg) w of
                   (Inl e, w) \<Rightarrow> (((result\<lparr>nr_Error := err_text e\<rparr>, Some e), xidCounter), w)
                 | (Inr l, w) \<Rightarrow> configureLink os lib cfg l xidCounter result w))"

section \<open>Masks and prefixes\<close>

lemma octet_char_of [simp]: "n < 256 \<Longrightarrow> octet (char_of n) = n"
  by (simp add: octet_def)

lemma char_of_octet [simp]: "char_of (octet c) = c"
  by (simp add: octet_def)

lemma octet_less [simp]: "octet c < 256"
  by (simp add: octet_def)

lemma leadingOnes_table:
  "list_all (\<lambda>v. v = 255 \<or> (case leadingOnes 8 v of (n, r) \<Rightarrow> r \<noteq> 0 \<or> n < 8 \<and> v = maskByte n)) [0..<256]"
  by code_simp

lemma leadingOnes_maskByte_table: "list_all (\<lambda>n. leadingOnes 8 (maskByte n) = (n, 0)) [0..<8]"
  by code_simp

lemma leadingOnes_byte:
  assumes "leadingOnes 8 (octet c) = (n, 0)" "octet c \<noteq> 255"
  shows "n < 8 \<and> octet c = maskByte n"
proof -
  have "octet c \<in> set [0..<256]" by simp
  with leadingOnes_table have "octet c = 255 \<or>
      (case leadingOnes 8 (octet c) of (n, r) \<Rightarrow> r \<noteq> 0 \<or> n < 8 \<and> octet c = maskByte n)"
    unfolding list_all_iff by (rule bspec)
  with assms show ?thesis by (simp del: maskByte.simps)
qed

lemma leadingOnes_maskByte: "n < 8 \<Longrightarrow> leadingOnes 8 (maskByte n) = (n, 0)"
  using leadingOnes_maskByte_table by (simp add: list_all_iff del: maskByte.simps upt_conv_Cons)

lemma maskByte_less [simp]: "maskByte n < 256"
  by simp

lemma maskByte_0: "maskByte 0 = 0"
  by simp

lemma maskByte_255: "n < 8 \<Longrightarrow> maskByte n \<noteq> 255"
proof -
  assume "n < 8"
  then have "(2 :: nat) ^ 1 \<le> 2 ^ (8 - n)" by (intro power_increasing) auto
  with \<open>n < 8\<close> show ?thesis by simp
qed

definition prefixMask :: "nat \<Rightarrow> nat \<Rightarrow> ipmask" where
  "prefixMask b n = map (\<lambda>k. char_of (maskByte (n - 8 * k))) [0..<b]"

lemma prefixMask_Suc: "prefixMask (Suc b) n = char_of (maskByte n) # prefixMask b (n - 8)"
  by (simp add: prefixMask_def upt_conv_Cons map_Suc_upt [symmetric] comp_def del: maskByte.simps upt_Suc)

lemma prefixMask_zero: "prefixMask b 0 = replicate b (char_of (0 :: nat))"
  by (simp add: prefixMask_def map_replicate_const)

lemma CIDRMask32_prefix: "CIDRMask32 n = prefixMask 4 n"
  by (simp add: CIDRMask32_def prefixMask_def upt_rec numeral_eq_Suc del: maskByte.simps)

lemma simpleMaskLength_prefix: "n \<le> 8 * b \<Longrightarrow> simpleMaskLength (prefixMask b n) = Some n"
proof (induction b arbitrary: n)
  case 0
  then show ?case by (simp add: prefixMask_def)
next
  case (Suc b)
  show ?case
  proof (cases "8 \<le> n")
    case True
    then have "maskByte n = 255" by simp
    with True Suc show ?thesis by (simp add: prefixMask_Suc del: maskByte.simps)
  next
    case False
    then have "n - 8 = 0" by simp
    with False show ?thesis
      using maskByte_255 [of n] leadingOnes_maskByte [of n]
      by (simp add: prefixMask_Suc prefixMask_zero list_ex_iff del: maskByte.simps)
  qed
qed

lemma simpleMaskLength_only_prefix:
  "simpleMaskLength m = Some n \<Longrightarrow> n \<le> 8 * length m \<and> m = prefixMask (length m) n"
proof (induction m arbitrary: n)
  case Nil
  then show ?case by (simp add: prefixMask_def)
next
  case (Cons c m)
  show ?case
  proof (cases "octet c = 255")
    case True
    with Cons.prems obtain k where k: "simpleMaskLength m = Some k" "n = 8 + k" by (auto split: option.splits)
    have "c = char_of (255 :: nat)" using True by (metis char_of_octet)
    with Cons.IH [OF k(1)] k(2) show ?thesis by (simp add: prefixMask_Suc)
  next
    case False
    with Cons.prems have l: "leadingOnes 8 (octet c) = (n, 0)" "\<forall>d\<in>set m. octet d = 0"
      by (auto simp: list_ex_iff split: prod.splits if_splits)
    note lb = leadingOnes_byte [OF l(1) False]
    have "c = char_of (maskByte n)" using lb by (metis char_of_octet)
    moreover have "m = replicate (length m) (char_of (0 :: nat))"
      using l(2) by (metis char_of_octet replicate_length_same)
    ultimately show ?thesis using lb by (simp add: prefixMask_Suc prefixMask_zero del: maskByte.simps)
  qed
qed

lemma mask_Size_4:
  assumes "length m = 4"
  shows "mask_Size m = (n, 32) \<longleftrightarrow> n \<le> 32 \<and> m = CIDRMask32 n"
    and "snd (mask_Size m) = 0 \<longleftrightarrow> (\<forall>n\<le>32. m \<noteq> CIDRMask32 n)"
proof -
  show "mask_Size m = (n, 32) \<longleftrightarrow> n \<le> 32 \<and> m = CIDRMask32 n"
    using simpleMaskLength_only_prefix [of m n] simpleMaskLength_prefix [of n 4] assms
    by (auto simp: mask_Size_def CIDRMask32_prefix split: option.splits)
  show "snd (mask_Size m) = 0 \<longleftrightarrow> (\<forall>n\<le>32. m \<noteq> CIDRMask32 n)"
    using simpleMaskLength_only_prefix [of m] simpleMaskLength_prefix [of _ 4] assms
    by (auto simp: mask_Size_def CIDRMask32_prefix split: option.splits)
qed

lemma length_To4: "To4 i = [] \<or> length (To4 i) = 4"
  by (auto simp: To4_def)

lemma To4_4 [simp]: "length i = 4 \<Longrightarrow> To4 i = i"
  by (simp add: To4_def)

lemma To4_IPv4 [simp]: "To4 (IPv4 a b c d) = ip4 a b c d"
  by (simp add: To4_def IPv4_def v4InV6Prefix_def ip4_def)

lemma ipv4Only_4: "i \<in> set (ipv4Only is) \<Longrightarrow> length i = 4"
  using length_To4 by (induction "is") (auto split: if_splits)

lemma IPNet_String_4:
  assumes "length (To4 i) = 4" "n \<le> 32"
  shows "IPNet_String v6 i (CIDRMask32 n) = dotted (To4 i) @ ''/'' @ digits 10 n"
proof -
  have "length (CIDRMask32 n) = 4" by (simp add: CIDRMask32_def del: maskByte.simps)
  moreover have "simpleMaskLength (CIDRMask32 n) = Some n"
    using simpleMaskLength_prefix [of n 4] assms(2) by (simp add: CIDRMask32_prefix)
  ultimately show ?thesis
    using assms(1) by (auto simp: IPNet_String_def IP_String_def Let_def)
qed

text \<open>
  C30. A lease is decoded exactly when the acknowledgement has an IPv4 address and a contiguous
  subnet mask (given that the DHCP library returns a mask option as four bytes). The CIDR is
  then the dotted address and the prefix length of that mask, and the gateway and the name
  servers are IPv4 addresses: anything else in those options is dropped.
\<close>

theorem detailsFromLease_spec:
  assumes ack: "ls_ACK lease = Some ack"
    and mask4: "\<And>m. nl_SubnetMask lib ack = Some m \<Longrightarrow> length m = 4"
  shows "((\<exists>d. detailsFromLease lib (Some lease) = Inr d) \<longleftrightarrow>
       To4 (dh_YourIPAddr ack) \<noteq> [] \<and> (\<exists>n\<le>32. nl_SubnetMask lib ack = Some (CIDRMask32 n))) \<and>
     (\<forall>d. detailsFromLease lib (Some lease) = Inr d \<longrightarrow>
        ld_PrefixLength d \<le> 32 \<and> nl_SubnetMask lib ack = Some (CIDRMask32 (ld_PrefixLength d)) \<and>
        ld_Address d = To4 (dh_YourIPAddr ack) \<and> length (ld_Address d) = 4 \<and>
        ld_CIDR d = dotted (ld_Address d) @ ''/'' @ digits 10 (ld_PrefixLength d) \<and>
        (ld_Gateway d = [] \<or> length (ld_Gateway d) = 4) \<and> (\<forall>s\<in>set (ld_DNSServers d). length s = 4))"
proof (cases "To4 (dh_YourIPAddr ack) = [] \<or> nl_SubnetMask lib ack = None")
  case True
  then show ?thesis by (auto simp: detailsFromLease_def ack Let_def)
next
  case False
  then obtain m where m: "nl_SubnetMask lib ack = Some m" by auto
  then have m4: "length m = 4" by (rule mask4)
  have a4: "length (To4 (dh_YourIPAddr ack)) = 4" using False length_To4 by blast
  show ?thesis
  proof (cases "\<exists>n\<le>32. m = CIDRMask32 n")
    case False
    then have "snd (mask_Size m) = 0" using mask_Size_4(2) [OF m4] by blast
    with False m show ?thesis
      by (auto simp: detailsFromLease_def ack Let_def split: prod.splits)
  next
    case True
    then obtain n where n: "n \<le> 32" "m = CIDRMask32 n" by blast
    then have sz: "mask_Size m = (n, 32)" using mask_Size_4(1) [OF m4] by blast
    have gw: "(case nl_Router lib ack of [] \<Rightarrow> [] | r # _ \<Rightarrow> To4 r) = [] \<or>
        length (case nl_Router lib ack of [] \<Rightarrow> [] | r # _ \<Rightarrow> To4 r) = 4"
      using length_To4 by (auto split: list.split)
    have ci: "IPNet_String v6 (To4 (dh_YourIPAddr ack)) m = dotted (To4 (dh_YourIPAddr ack)) @ ''/'' @ digits 10 n" for v6
      using IPNet_String_4 [of "To4 (dh_YourIPAddr ack)" n] a4 n by simp
    have ne: "To4 (dh_YourIPAddr ack) \<noteq> []" using a4 by auto
    show ?thesis
      using n m sz gw a4 ne ci by (auto simp: detailsFromLease_def ack Let_def dest: ipv4Only_4)
  qed
qed

section \<open>Interfaces\<close>


definition usable :: "InterfaceChoice \<Rightarrow> bool" where
  "usable c = (\<not> ic_Loopback c \<and> ic_HardwareAddr c \<noteq> '''')"

lemma findChoice_find: "findChoice cs p = List.find (\<lambda>c. ic_Name c = p) cs"
  by (induction cs) auto

lemma firstUsable_find: "firstUsable cs = List.find usable cs"
  by (induction cs) (auto simp: usable_def)

lemma find_member: "List.find P xs = Some x \<Longrightarrow> x \<in> set xs \<and> P x"
  by (auto simp: find_Some_iff)

lemma linkTable_last:
  "l \<in> set ls \<Longrightarrow> \<exists>l'\<in>set ls. linkTable ls (lk_Name l) = Some l' \<and> lk_Name l' = lk_Name l"
  unfolding linkTable_def by (induction ls rule: rev_induct) auto

text \<open>
  \<^verbatim>\<open>selectLink\<close> succeeds exactly when the links can be listed and one qualifies: the one with
  the preferred name, or, with no preference, one that is no loopback and has a hardware
  address. The link it returns is one of the listed ones, has the name of the first that
  qualifies, and the error for an interface that disappeared is never returned.
\<close>

theorem selectLink_spec:
  "(\<forall>e. nl_LinkList lib w = Inl e \<longrightarrow> fst (selectLink lib preferred w) = Inl (wrap ''list links: '' e)) \<and>
   (\<forall>ls. nl_LinkList lib w = Inr ls \<longrightarrow>
      (case List.find (\<lambda>l. if preferred \<noteq> '''' then lk_Name l = preferred else usable (choiceOf l)) ls of
         Some first \<Rightarrow> \<exists>l\<in>set ls. fst (selectLink lib preferred w) = Inr l \<and> lk_Name l = lk_Name first
       | None \<Rightarrow> fst (selectLink lib preferred w) =
           Inl (errorf (if preferred \<noteq> '''' then ''preferred interface '' @ quote preferred @ '' not found''
                        else ''no suitable non-loopback interface found''))))"
proof (intro conjI allI impI)
  fix e assume "nl_LinkList lib w = Inl e"
  then show "fst (selectLink lib preferred w) = Inl (wrap ''list links: '' e)" by (simp add: selectLink_def Let_def)
next
  fix ls assume ls: "nl_LinkList lib w = Inr ls"
  let ?P = "\<lambda>l. if preferred \<noteq> '''' then lk_Name l = preferred else usable (choiceOf l)"
  have sel: "SelectInterface (map choiceOf ls) preferred =
      (case List.find ?P ls of Some l \<Rightarrow> Inr (choiceOf l)
       | None \<Rightarrow> Inl (errorf (if preferred \<noteq> '''' then ''preferred interface '' @ quote preferred @ '' not found''
                        else ''no suitable non-loopback interface found'')))"
    unfolding SelectInterface_def findChoice_find firstUsable_find
    by (induction ls) (auto simp: choiceOf_def split: option.splits)
  show "case List.find ?P ls of
         Some first \<Rightarrow> \<exists>l\<in>set ls. fst (selectLink lib preferred w) = Inr l \<and> lk_Name l = lk_Name first
       | None \<Rightarrow> fst (selectLink lib preferred w) =
           Inl (errorf (if preferred \<noteq> '''' then ''preferred interface '' @ quote preferred @ '' not found''
                        else ''no suitable non-loopback interface found''))"
  proof (cases "List.find ?P ls")
    case None
    with sel ls show ?thesis by (simp add: selectLink_def Let_def)
  next
    case (Some first)
    then have "first \<in> set ls" by (rule find_member [THEN conjunct1])
    from linkTable_last [OF this] Some sel ls show ?thesis
      by (auto simp: selectLink_def Let_def choiceOf_def)
  qed
qed

section \<open>Transactions\<close>

lemma newPacket_xid [simp]: "dh_TransactionID (newPacketWithTransactionID xid mods) = xid"
  by (simp add: newPacketWithTransactionID_def Let_def)

lemma requestLease_calls:
  "\<exists>ps t. snd (requestLease os lib ctx hw xid w) = w @ map SendAndRead ps @ t \<and>
     length ps \<in> {1, 2} \<and> (t = [] \<or> t = [Now]) \<and> (\<forall>p\<in>set ps. dh_TransactionID p = xid) \<and>
     (\<forall>ls. fst (requestLease os lib ctx hw xid w) = Inr ls \<longrightarrow>
        length ps = 2 \<and> t = [Now] \<and> (\<exists>l ack. ls = Some l \<and> ls_ACK l = Some ack \<and> nl_MessageType lib ack \<noteq> MessageTypeNak))"
proof -
  obtain d where d: "newDiscoveryWithTransactionID lib hw xid (broadcastMods lib) = Inr d" "dh_TransactionID d = xid"
    by (simp add: newDiscoveryWithTransactionID_def)
  show ?thesis
  proof (cases "nl_SendAndRead lib w ctx d (nl_IsMessageType lib [MessageTypeOffer])")
    case (Inl e)
    with d show ?thesis by (intro exI [of _ "[d]"] exI [of _ "[]"]) (simp add: requestLease_def Let_def)
  next
    case o: (Inr offer)
    obtain q where q: "newRequestFromOfferWithTransactionID lib offer xid (broadcastMods lib) = Inr q"
        "dh_TransactionID q = xid"
      by (simp add: newRequestFromOfferWithTransactionID_def)
    let ?r = "nl_SendAndRead lib (w @ [SendAndRead d]) ctx q
      (nl_IsAll lib [nl_IsCorrectServer lib (nl_ServerIdentifier lib offer),
         nl_IsMessageType lib [MessageTypeAck, MessageTypeNak]])"
    consider (err) e where "?r = Inl e" | (nak) a where "?r = Inr a" "nl_MessageType lib a = MessageTypeNak"
      | (ack) a where "?r = Inr a" "nl_MessageType lib a \<noteq> MessageTypeNak"
      by (cases ?r) auto
    then show ?thesis
    proof cases
      case err
      with d o q show ?thesis by (intro exI [of _ "[d, q]"] exI [of _ "[]"]) (simp add: requestLease_def Let_def)
    next
      case nak
      with d o q show ?thesis by (intro exI [of _ "[d, q]"] exI [of _ "[]"]) (simp add: requestLease_def Let_def)
    next
      case ack
      with d o q show ?thesis
        by (intro exI [of _ "[d, q]"] exI [of _ "[Now]"]) (auto simp: requestLease_def Let_def now_def)
    qed
  qed
qed


lemma base256:
  assumes "n < 2 ^ 32"
  shows "n mod 256 + 256 * (n div 256 mod 256) + 65536 * (n div 65536 mod 256) + 16777216 * (n div 16777216 mod 256) = (n :: nat)"
proof -
  have q: "n div 65536 = n div 256 div 256" "n div 16777216 = n div 256 div 256 div 256"
    by (simp_all add: div_mult2_eq [symmetric])
  have "n div 16777216 < 256" using assms by (intro less_mult_imp_div_less) simp
  then have "n div 16777216 mod 256 = n div 256 div 256 div 256" by (simp add: q)
  then show ?thesis
    using div_mult_mod_eq [of n 256] div_mult_mod_eq [of "n div 256" 256] div_mult_mod_eq [of "n div 256 div 256" 256]
    unfolding q by linarith
qed

lemma PutUint32_inj: "PutUint32 x = PutUint32 y \<Longrightarrow> x = y"
proof -
  assume "PutUint32 x = PutUint32 y"
  then have "map octet (PutUint32 x) = map octet (PutUint32 y)" by simp
  then have e: "unat (drop_bit k x) mod 256 = unat (drop_bit k y) mod 256" if "k \<in> {24, 16, 8, 0}" for k
    using that by (auto simp: PutUint32_def octet_def)
  have dm: "unat (drop_bit k z) = unat z div 2 ^ k" for k and z :: "32 word"
    unfolding unat_drop_bit_eq by (rule drop_bit_eq_div)
  have d: "unat x mod 256 = unat y mod 256" "unat x div 256 mod 256 = unat y div 256 mod 256"
    "unat x div 65536 mod 256 = unat y div 65536 mod 256" "unat x div 16777216 mod 256 = unat y div 16777216 mod 256"
    using e [of 0] e [of 8] e [of 16] e [of 24] by (simp_all add: dm)
  have "unat x = unat y"
    using base256 [OF unat32_less [of x]] base256 [OF unat32_less [of y]] unfolding d by (rule trans [OF sym])
  then show "x = y" by (rule unsigned_word_eqI)
qed

lemma xor_cancel32: "xor a b = xor a c \<Longrightarrow> b = (c :: 32 word)"
proof -
  assume "xor a b = xor a c"
  then have "xor a (xor a b) = xor a (xor a c)" by simp
  then show "b = c" by (simp add: xor.assoc [symmetric])
qed

text \<open>
  Two lease attempts get different transaction ids even when the clock, the process id and
  the random number are the same for both: the counter differs, all 32 bits of it count,
  and it repeats only after \<open>2 ^ 32\<close> attempts.
\<close>

theorem nextTransactionID_distinct:
  assumes "nextTransactionID os lib c w = ((x, c'), w1)" "nextTransactionID os lib d w = ((y, d'), w2)" "c \<noteq> d"
  shows "x \<noteq> y \<and> length x = 4 \<and> c' = c + 1 \<and> d' = d + 1"
proof -
  let ?s = "\<lambda>c. xor (xor (xor (word_of_int (os_Now os w)) (word_of_nat (nl_Getpid lib))) (c + 1 :: 32 word))
    (nl_Uint32 lib (w @ [Now]))"
  have xy: "x = PutUint32 (?s c)" "y = PutUint32 (?s d)" "c' = c + 1" "d' = d + 1"
    using assms(1,2) by (auto simp: nextTransactionID_def now_def Let_def)
  have "?s c \<noteq> ?s d"
  proof
    assume "?s c = ?s d"
    then have "c + 1 = d + 1" using xor_cancel32 by (metis xor.commute)
    with assms(3) show False by simp
  qed
  with xy show ?thesis using PutUint32_inj by (auto simp: PutUint32_def)
qed

lemma int64_id: "0 \<le> x \<Longrightarrow> x < 2 ^ 63 \<Longrightarrow> int64 x = x"
  by (simp add: int64_def)

lemma config_positive: "0 < nc_Timeout (LoadConfigFromEnv os env) \<and> 0 < nc_Retry (LoadConfigFromEnv os env)"
  by (auto simp: LoadConfigFromEnv_def durationEnv_def intEnv_def defaultDHCPTimeout_def defaultDHCPRetry_def
      second_def Let_def split: option.splits)

lemma int64_iff: "0 \<le> x \<Longrightarrow> int64 x = x \<longleftrightarrow> x < 2 ^ 63"
proof
  assume "int64 x = x"
  moreover have "(x + 2 ^ 63) mod 2 ^ 64 < 2 ^ 64" by (rule pos_mod_bound) simp
  ultimately show "x < 2 ^ 63" by (simp add: int64_def)
qed (simp add: int64_id)

lemma int64_wrap: "2 ^ 63 \<le> x \<Longrightarrow> x < 2 ^ 64 \<Longrightarrow> int64 x < 0"
proof -
  assume x: "2 ^ 63 \<le> x" "x < 2 ^ 64"
  have "(x + 2 ^ 63) mod 2 ^ 64 = (x + 2 ^ 63 - 2 ^ 64) mod 2 ^ 64" by (rule minus_mod_self2 [symmetric])
  also have "\<dots> = x + 2 ^ 63 - 2 ^ 64" using x by (intro mod_pos_pos_trivial) simp_all
  finally show ?thesis using x by (simp add: int64_def)
qed

text \<open>
  The deadline of the whole DHCP exchange is the timeout times the number of tries exactly
  while that product fits in 63 bits. Both come from the environment and are positive, but
  nothing bounds them: a larger product wraps, and a wrapped product below \<open>2 ^ 64\<close> is
  negative, a deadline that has passed before the exchange starts.
\<close>

theorem dhcpDeadline_exact:
  assumes "cfg = LoadConfigFromEnv os env"
  shows "(dhcpDeadline cfg = nc_Timeout cfg * nc_Retry cfg \<longleftrightarrow> nc_Timeout cfg * nc_Retry cfg < 2 ^ 63) \<and>
     0 < nc_Timeout cfg * nc_Retry cfg \<and>
     (2 ^ 63 \<le> nc_Timeout cfg * nc_Retry cfg \<and> nc_Timeout cfg * nc_Retry cfg < 2 ^ 64 \<longrightarrow> dhcpDeadline cfg < 0)"
proof -
  have p: "0 < nc_Timeout cfg" "0 < nc_Retry cfg" using config_positive assms(1) by auto
  then have "max_int (nc_Retry cfg) 1 = nc_Retry cfg" by (simp add: max_int_def)
  moreover have "0 < nc_Timeout cfg * nc_Retry cfg" using p by simp
  ultimately show ?thesis using int64_iff [of "nc_Timeout cfg * nc_Retry cfg"] int64_wrap
    by (simp add: dhcpDeadline_def)
qed

section \<open>Configure\<close>

text \<open>What \<^verbatim>\<open>Configure\<close> does to the guest once it has its details, in this order.\<close>

definition apply_events :: "link \<Rightarrow> leaseDetails \<Rightarrow> string \<Rightarrow> world" where
  "apply_events l d addr =
     [AddrReplace (lk_Name l) addr] @
     (if ld_Gateway d \<noteq> [] then [RouteReplace (lk_Index l) (ld_Gateway d)] else []) @
     [AddrList (lk_Name l), RouteList (lk_Name l)] @
     (if ld_ResolverContents d \<noteq> ''''
      then [MkdirAll ''/etc'' 0x1ED, WriteFile resolvConfPath (ld_ResolverContents d) 0x1A4] else [])"

lemma applyLease_ok:
  "applyLease lib l d w = (None, w') \<Longrightarrow>
   \<exists>addr. nl_ParseAddr lib (ld_CIDR d) = Inr addr \<and> w' = w @ AddrReplace (lk_Name l) addr #
     (if ld_Gateway d \<noteq> [] then [RouteReplace (lk_Index l) (ld_Gateway d)] else [])"
  by (auto simp: applyLease_def Let_def split: sum.splits option.splits if_splits)

lemma writeResolvConf_ok:
  "writeResolvConf os s w = (None, w') \<Longrightarrow> s \<noteq> '''' \<Longrightarrow>
   w' = w @ [MkdirAll ''/etc'' 0x1ED, WriteFile resolvConfPath s 0x1A4]"
  by (auto simp: writeResolvConf_def call_defs split: option.splits)

definition failed :: "net_Result \<Rightarrow> go_error option \<Rightarrow> bool" where
  "failed r e = (\<exists>err. e = Some err \<and> nr_Error r = err_text err \<and> \<not> nr_Configured r)"

text \<open>The outcome of applying details: an error that the result reports, or all of the calls.\<close>

definition applied :: "netlib \<Rightarrow> link \<Rightarrow> leaseDetails \<Rightarrow> net_Result \<Rightarrow> world \<Rightarrow> bool" where
  "applied lib l d r es =
     (nr_Configured r \<and> nr_Step r = ''configured'' \<and> nr_CIDR r = ld_CIDR d \<and>
      nr_DNSServers r = stringifyIPs (nl_IP6String lib) (ld_DNSServers d) \<and>
      (nr_ResolverConfig r = resolvConfPath \<longleftrightarrow> ld_ResolverContents d \<noteq> '''') \<and>
      (\<exists>addr. nl_ParseAddr lib (ld_CIDR d) = Inr addr \<and> es = apply_events l d addr))"

lemma applyDetails_outcome:
  assumes a: "applyDetails os lib l d r w = ((r', e), w')" and r: "\<not> nr_Configured r" "nr_ResolverConfig r = ''''"
  shows "(failed r' e \<or> e = None \<and> (\<exists>es. w' = w @ es \<and> applied lib l d r' es)) \<and>
     nr_Fallback r' = nr_Fallback r \<and> nr_InterfaceName r' = nr_InterfaceName r \<and> nr_Method r' = nr_Method r"
proof (cases "applyLease lib l d w")
  case (Pair q w1)
  show ?thesis
  proof (cases q)
    case (Some err)
    with a Pair r show ?thesis by (auto simp: applyDetails_def Let_def failed_def)
  next
    case None
    with Pair obtain addr where p: "nl_ParseAddr lib (ld_CIDR d) = Inr addr"
      and w1: "w1 = w @ AddrReplace (lk_Name l) addr # (if ld_Gateway d \<noteq> [] then [RouteReplace (lk_Index l) (ld_Gateway d)] else [])"
      using applyLease_ok by blast
    let ?w2 = "w1 @ [AddrList (lk_Name l), RouteList (lk_Name l)]"
    note d = applyDetails_def Let_def Pair None logAppliedState_def
    show ?thesis
    proof (cases "ld_ResolverContents d = ''''")
      case True
      with a r p w1 show ?thesis
        by (auto simp: d applied_def apply_events_def resolvConfPath_def)
    next
      case nz: False
      obtain q2 w3 where q2: "writeResolvConf os (ld_ResolverContents d) ?w2 = (q2, w3)" by fastforce
      show ?thesis
      proof (cases q2)
        case (Some err)
        with a r nz q2 show ?thesis by (auto simp: d failed_def)
      next
        case None
        with writeResolvConf_ok [of os "ld_ResolverContents d" ?w2 w3] nz q2 have
          "w3 = ?w2 @ [MkdirAll ''/etc'' 0x1ED, WriteFile resolvConfPath (ld_ResolverContents d) 0x1A4]" by simp
        with None a r nz q2 p w1 show ?thesis
          by (auto simp: d applied_def apply_events_def)
      qed
    qed
  qed
qed

text \<open>Nothing of the guest's configuration changes before the details are there.\<close>

definition quiet :: "world \<Rightarrow> bool" where
  "quiet es = (\<forall>e\<in>set es. case e of AddrReplace _ _ \<Rightarrow> False | RouteReplace _ _ \<Rightarrow> False
     | WriteFile _ _ _ \<Rightarrow> False | MkdirAll _ _ \<Rightarrow> False | CloseClient \<Rightarrow> False | _ \<Rightarrow> True)"

lemma quiet_append [simp]: "quiet (a @ b) = (quiet a \<and> quiet b)"
  by (auto simp: quiet_def)

lemma requestLease_quiet: "\<exists>es. snd (requestLease os lib ctx hw xid w) = w @ es \<and> quiet es"
  using requestLease_calls [of os lib ctx hw xid w] by (fastforce simp: quiet_def)

definition source_ok :: "netlib \<Rightarrow> net_Config \<Rightarrow> leaseDetails \<Rightarrow> net_Result \<Rightarrow> bool" where
  "source_ok lib cfg d r =
     (if nr_Fallback r
      then nc_EnableQEMUFallback cfg \<and> nr_Method r = ''qemu-usernet-fallback'' \<and>
           d = qemuUsernetFallback (nl_IP6String lib)
      else nr_Method r = ''userspace-dhcp'' \<and> (\<exists>lease. detailsFromLease lib lease = Inr d))"

definition fresh :: "net_Result \<Rightarrow> bool" where
  "fresh r = (\<not> nr_Configured r \<and> nr_ResolverConfig r = '''')"

lemma acquire_outcome:
  assumes a: "acquire os lib cfg l xid r w = ((r', q), w')"
    and r: "fresh r" "\<not> nr_Fallback r" "nr_Method r = ''userspace-dhcp''"
  shows "(\<exists>es. w' = w @ es \<and> quiet es) \<and> nr_InterfaceName r' = nr_InterfaceName r \<and>
     (case q of Inl e \<Rightarrow> failed r' (Some e) | Inr d \<Rightarrow> fresh r' \<and> source_ok lib cfg d r')"
proof -
  obtain x v where x: "requestLease os lib (dhcpDeadline cfg) (lk_HardwareAddr l) xid w = (x, v)" by fastforce
  have w': "w' = v" using a by (auto simp: acquire_def x Let_def split: sum.splits if_splits)
  have "\<exists>es. v = w @ es \<and> quiet es" using requestLease_quiet [of os lib "dhcpDeadline cfg" "lk_HardwareAddr l" xid w] x by simp
  with a r w' show ?thesis
    by (auto simp: acquire_def x Let_def failed_def fresh_def source_ok_def split: sum.splits if_splits)
qed

lemma configureWithClient_outcome:
  assumes a: "configureWithClient os lib cfg l c r w = (((r', e), c'), w')"
    and r: "fresh r" "\<not> nr_Fallback r" "nr_Method r = ''userspace-dhcp''"
  shows "(failed r' e \<or> e = None \<and> (\<exists>d pre es. w' = w @ pre @ es @ [CloseClient] \<and> quiet pre \<and>
       applied lib l d r' es \<and> source_ok lib cfg d r')) \<and> nr_InterfaceName r' = nr_InterfaceName r"
proof -
  obtain xid c1 w1 where x: "nextTransactionID os lib c w = ((xid, c1), w1)" by (metis prod.exhaust)
  then have w1: "w1 = w @ [Now]" by (auto simp: nextTransactionID_def now_def Let_def)
  let ?r = "r\<lparr>nr_Step := ''dhcp-request''\<rparr>"
  obtain r2 q w2 where q: "acquire os lib cfg l xid ?r w1 = ((r2, q), w2)" by (metis prod.exhaust)
  have o: "(\<exists>es. w2 = w1 @ es \<and> quiet es) \<and> nr_InterfaceName r2 = nr_InterfaceName r \<and>
     (case q of Inl e \<Rightarrow> failed r2 (Some e) | Inr d \<Rightarrow> fresh r2 \<and> source_ok lib cfg d r2)"
    using acquire_outcome [OF q] r by (simp add: fresh_def)
  show ?thesis
  proof (cases q)
    case (Inl err)
    with a q o show ?thesis by (auto simp: configureWithClient_def x Let_def)
  next
    case (Inr d)
    obtain r3 e3 w3 where p: "applyDetails os lib l d r2 w2 = ((r3, e3), w3)" by (metis prod.exhaust)
    have f: "fresh r2" "source_ok lib cfg d r2" using o Inr by auto
    from applyDetails_outcome [OF p] f(1) have
      ao: "failed r3 e3 \<or> e3 = None \<and> (\<exists>es. w3 = w2 @ es \<and> applied lib l d r3 es)"
        "nr_Fallback r3 = nr_Fallback r2" "nr_InterfaceName r3 = nr_InterfaceName r2" "nr_Method r3 = nr_Method r2"
      by (auto simp: fresh_def)
    have so: "source_ok lib cfg d r3" using f(2) ao(2,4) by (simp add: source_ok_def)
    have res: "r' = r3" "e = e3" "w' = w3 @ [CloseClient]"
      using a q p Inr by (auto simp: configureWithClient_def x Let_def)
    obtain es where es: "w2 = w1 @ es" "quiet es" using o by blast
    then have pre: "w2 = w @ Now # es" "quiet (Now # es)" using w1 by (simp_all add: quiet_def)
    show ?thesis
    proof (cases "failed r3 e3")
      case True
      with res ao o show ?thesis by simp
    next
      case False
      with ao obtain es2 where "e3 = None" "w3 = w2 @ es2" "applied lib l d r3 es2" by blast
      with pre so res ao(3) o show ?thesis by (metis append.assoc)
    qed
  qed
qed

lemma withLink_keeps [simp]: "nr_Configured (withLink l r) = nr_Configured r" "fresh (withLink l r) = fresh r"
  "nr_Fallback (withLink l r) = nr_Fallback r" "nr_Method (withLink l r) = nr_Method r"
  "nr_InterfaceName (withLink l r) = lk_Name l"
  by (simp_all add: withLink_def fresh_def)

lemma configureLink_outcome:
  assumes a: "configureLink os lib cfg l c r w = (((r', e), c'), w')"
    and r: "fresh r" "\<not> nr_Fallback r" "nr_Method r = ''userspace-dhcp''"
  shows "failed r' e \<or> e = None \<and> (\<exists>d pre es. w' = w @ [LinkSetUp (lk_Name l)] @ pre @ es @ [CloseClient] \<and> quiet pre \<and>
       applied lib l d r' es \<and> source_ok lib cfg d r' \<and> nr_InterfaceName r' = lk_Name l)"
proof (cases "failed r' e")
  case False
  let ?w1 = "w @ [LinkSetUp (lk_Name l)]"
  obtain r2 w2 where r2: "refreshLink lib l (withLink l r) ?w1 = (r2, w2)" by fastforce
  have k: "fresh r2" "\<not> nr_Fallback r2" "nr_Method r2 = ''userspace-dhcp''" "nr_InterfaceName r2 = lk_Name l"
    using r r2 withLink_keeps(2) [of l r] by (auto simp: refreshLink_def fresh_def split: sum.splits)
  have "w2 = ?w1 @ [LinkByName (lk_Name l)]" using r2 by (simp add: refreshLink_def)
  let ?es = "[LinkByName (lk_Name l), AddrList (lk_Name l), RouteList (lk_Name l),
    NewRawUDPConn (lk_Name l) (nl_ClientPort lib),
    NewWithConn (lk_Name l) (lk_HardwareAddr l) (nc_Timeout cfg) (nc_Retry cfg)]"
  have "configureWithClient os lib cfg l c r2 (?w1 @ ?es) = (((r', e), c'), w')"
    using a False k(1) r(1) \<open>w2 = _\<close>
    by (auto simp: configureLink_def Let_def r2 logAppliedState_def failed_def fresh_def split: option.splits)
  from configureWithClient_outcome [OF this k(1-3)] False obtain d pre es where
    "w' = (?w1 @ ?es) @ pre @ es @ [CloseClient]" "quiet pre" "applied lib l d r' es" "source_ok lib cfg d r'"
    "e = None" "nr_InterfaceName r' = lk_Name l" using k(4) by auto
  then show ?thesis
    by (intro disjI2 conjI exI [of _ d] exI [of _ "?es @ pre"] exI [of _ es]) (simp_all add: quiet_def)
qed simp

lemma Configure_cases:
  assumes "Configure os lib env c w = (((r, e), c'), w')"
  shows "if \<not> nc_EnableDHCP (LoadConfigFromEnv os env)
     then e = None \<and> nr_Step r = ''disabled'' \<and> \<not> nr_Configured r \<and> w' = w @ [LinkList]
     else failed r e \<or> e = None \<and>
       (\<exists>l d pre es. w' = w @ [LinkList, LinkList, LinkSetUp (lk_Name l)] @ pre @ es @ [CloseClient] \<and> quiet pre \<and>
          applied lib l d r es \<and> source_ok lib (LoadConfigFromEnv os env) d r \<and> nr_InterfaceName r = lk_Name l)"
proof -
  let ?cfg = "LoadConfigFromEnv os env"
  have f: "fresh net_Result0" "\<not> nr_Fallback net_Result0" "nr_Method net_Result0 = ''userspace-dhcp''"
    by (simp_all add: net_Result0_def fresh_def)
  show ?thesis
  proof (cases "nc_EnableDHCP ?cfg")
    case False
    with assms show ?thesis by (auto simp: Configure_def Let_def logInterfaceInventory_def net_Result0_def)
  next
    case True
    obtain q v where q: "selectLink lib (nc_PreferredInterface ?cfg) (w @ [LinkList]) = (q, v)" by fastforce
    then have v: "v = w @ [LinkList, LinkList]"
      by (auto simp: selectLink_def Let_def split: sum.splits option.splits)
    show ?thesis
    proof (cases q)
      case (Inl err)
      with assms True q show ?thesis
        by (auto simp: Configure_def Let_def logInterfaceInventory_def failed_def net_Result0_def)
    next
      case (Inr l)
      then have "configureLink os lib ?cfg l c net_Result0 v = (((r, e), c'), w')"
        using assms True q by (simp add: Configure_def Let_def logInterfaceInventory_def)
      from configureLink_outcome [OF this f] True v show ?thesis by auto
    qed
  qed
qed


section \<open>The fallback\<close>

lemma qemuUsernetFallback_values:
  "ld_CIDR (qemuUsernetFallback v6) = ''10.0.2.15/24''"
  "ld_Gateway (qemuUsernetFallback v6) = IPv4 10 0 2 2"
  "ld_ResolverContents (qemuUsernetFallback v6) = ''nameserver 10.0.2.3'' @ [CHR 0x0A]"
  "ld_DNSServers (qemuUsernetFallback v6) = [IPv4 10 0 2 3]"
proof -
  have d: "dotted (ip4 10 0 2 15) @ ''/'' @ digits 10 24 = ''10.0.2.15/24''" "dotted (ip4 10 0 2 3) = ''10.0.2.3''"
    by code_simp+
  have n: "ip4 10 0 2 3 \<noteq> []" "length (ip4 10 0 2 15) = 4" "IPv4 10 0 2 3 \<noteq> []"
    by (simp_all add: ip4_def IPv4_def)
  show "ld_CIDR (qemuUsernetFallback v6) = ''10.0.2.15/24''"
    using IPNet_String_4 [of "IPv4 10 0 2 15" 24 v6] n d(1) by (simp add: qemuUsernetFallback_def Let_def)
  show "ld_ResolverContents (qemuUsernetFallback v6) = ''nameserver 10.0.2.3'' @ [CHR 0x0A]"
    using n d(2) by (simp add: qemuUsernetFallback_def Let_def renderResolvConf_def IP_String_def)
qed (simp_all add: qemuUsernetFallback_def Let_def)

text \<open>An environment in which netlink and the file system work but no DHCP server answers.\<close>

definition no_server :: "os \<Rightarrow> netlib \<Rightarrow> link \<Rightarrow> bool" where
  "no_server os lib l =
     ((\<forall>w. nl_LinkList lib w = Inr [l]) \<and> (\<forall>w. nl_LinkSetUp lib w l = None) \<and>
      (\<forall>w n p. nl_NewRawUDPConn lib w n p = None) \<and> (\<forall>w n h t r. nl_NewWithConn lib w n h t r = None) \<and>
      (\<forall>w c p m. \<exists>e. nl_SendAndRead lib w c p m = Inl e) \<and>
      (\<exists>a. nl_ParseAddr lib ''10.0.2.15/24'' = Inr a \<and> (\<forall>w. nl_AddrReplace lib w l a = None)) \<and>
      (\<forall>w. nl_RouteReplace lib w (lk_Index l) (IPv4 10 0 2 2) = None) \<and>
      (\<forall>w. os_MkdirAll os w ''/etc'' 0x1ED = None) \<and> (\<forall>w c. os_WriteFile os w resolvConfPath c 0x1A4 = None))"

lemma no_serverD:
  assumes "no_server os lib l"
  shows "nl_LinkList lib w = Inr [l]" "nl_LinkSetUp lib w l = None" "nl_NewRawUDPConn lib w n p = None"
    "nl_NewWithConn lib w n h t r = None" "\<exists>e. nl_SendAndRead lib w x q m = Inl e"
    "nl_RouteReplace lib w (lk_Index l) (IPv4 10 0 2 2) = None"
    "os_MkdirAll os w ''/etc'' 0x1ED = None" "os_WriteFile os w resolvConfPath b 0x1A4 = None"
  using assms unfolding no_server_def by blast+

lemma fallback_request:
  assumes "no_server os lib l"
  shows "\<exists>e v. requestLease os lib ctx hw xid u = (Inl e, v)"
proof -
  obtain d where d: "newDiscoveryWithTransactionID lib hw xid (broadcastMods lib) = Inr d"
    by (simp add: newDiscoveryWithTransactionID_def)
  obtain e where "nl_SendAndRead lib u ctx d (nl_IsMessageType lib [MessageTypeOffer]) = Inl e"
    using no_serverD(5) [OF assms] by blast
  then show ?thesis by (simp add: requestLease_def d Let_def)
qed

definition on_fallback :: "link \<Rightarrow> net_Result \<Rightarrow> bool" where
  "on_fallback l r = (nr_Configured r \<and> nr_Fallback r \<and> nr_CIDR r = ''10.0.2.15/24'' \<and>
     nr_Gateway r = ''10.0.2.2'' \<and> nr_DNSServers r = [''10.0.2.3''] \<and> nr_InterfaceName r = lk_Name l)"

definition resolver_write :: syscall where
  "resolver_write = WriteFile resolvConfPath (''nameserver 10.0.2.3'' @ [CHR 0x0A]) 0x1A4"

lemma fallback_apply:
  assumes ns: "no_server os lib l" and r: "nr_Fallback r" "nr_InterfaceName r = lk_Name l"
  shows "\<exists>r2 v. applyDetails os lib l (qemuUsernetFallback (nl_IP6String lib)) r u = ((r2, None), v @ [resolver_write])
     \<and> on_fallback l r2"
proof -
  let ?d = "qemuUsernetFallback (nl_IP6String lib)"
  obtain a where a: "nl_ParseAddr lib ''10.0.2.15/24'' = Inr a" "\<And>w. nl_AddrReplace lib w l a = None"
    using ns unfolding no_server_def by blast
  have dd: "dotted (ip4 10 0 2 2) = ''10.0.2.2''" "dotted (ip4 10 0 2 3) = ''10.0.2.3''" by code_simp+
  have nn: "ip4 10 0 2 2 \<noteq> []" "ip4 10 0 2 3 \<noteq> []" "IPv4 10 0 2 2 \<noteq> []" "IPv4 10 0 2 3 \<noteq> []"
    by (simp_all add: ip4_def IPv4_def)
  have "\<exists>v. applyLease lib l ?d u = (None, v)" for u
    by (simp add: applyLease_def qemuUsernetFallback_values a nn no_serverD(6) [OF ns] Let_def)
  then obtain v where v: "applyLease lib l ?d u = (None, v)" by blast
  have w: "writeResolvConf os (ld_ResolverContents ?d) x = (None, x @ [MkdirAll ''/etc'' 0x1ED, resolver_write])" for x
    by (simp add: writeResolvConf_def qemuUsernetFallback_values call_defs no_serverD(7,8) [OF ns] resolver_write_def)
  have ne: "ld_ResolverContents ?d \<noteq> ''''" by (simp add: qemuUsernetFallback_values)
  show ?thesis
    using r nn by (simp add: applyDetails_def v w ne Let_def logAppliedState_def on_fallback_def IP_String_def dd
        qemuUsernetFallback_values(1,2,4))
qed

lemma fallback_client:
  assumes ns: "no_server os lib l" and r: "nr_InterfaceName r = lk_Name l" and cf: "nc_EnableQEMUFallback cfg"
  shows "\<exists>r2 c2 v. configureWithClient os lib cfg l c r u = (((r2, None), c2), v @ [resolver_write, CloseClient])
     \<and> on_fallback l r2"
proof -
  obtain xid c1 w1 where x: "nextTransactionID os lib c u = ((xid, c1), w1)" by (metis prod.exhaust)
  obtain e v where e: "requestLease os lib (dhcpDeadline cfg) (lk_HardwareAddr l) xid w1 = (Inl e, v)"
    using fallback_request [OF ns] by blast
  obtain r1 where r1: "acquire os lib cfg l xid (r\<lparr>nr_Step := ''dhcp-request''\<rparr>) w1 =
      ((r1, Inr (qemuUsernetFallback (nl_IP6String lib))), v)" "nr_Fallback r1" "nr_InterfaceName r1 = lk_Name l"
    using cf r by (simp add: acquire_def e Let_def)
  obtain r2 v2 where ad: "applyDetails os lib l (qemuUsernetFallback (nl_IP6String lib)) r1 v = ((r2, None), v2 @ [resolver_write])"
      "on_fallback l r2"
    using fallback_apply [OF ns r1(2,3), of v] by blast
  have "configureWithClient os lib cfg l c r u = (((r2, None), c1), v2 @ [resolver_write, CloseClient])"
    by (simp add: configureWithClient_def x r1(1) ad(1) Let_def)
  with ad(2) show ?thesis by blast
qed

lemma fallback_link:
  assumes ns: "no_server os lib l"
  shows "\<exists>r u2. configureLink os lib cfg l c net_Result0 u = configureWithClient os lib cfg l c r u2 \<and>
     nr_InterfaceName r = lk_Name l"
proof -
  obtain r w2 where r: "refreshLink lib l (withLink l net_Result0) (u @ [LinkSetUp (lk_Name l)]) = (r, w2)" by fastforce
  then have "nr_InterfaceName r = lk_Name l" by (auto simp: refreshLink_def split: sum.splits)
  moreover have "\<exists>u2. configureLink os lib cfg l c net_Result0 u = configureWithClient os lib cfg l c r u2"
    by (simp add: configureLink_def Let_def r logAppliedState_def no_serverD(2-4) [OF ns]) blast
  ultimately show ?thesis by blast
qed

text \<open>
  C31. Without a DHCP server the guest still gets its network: if DHCP and the fallback are
  enabled, the one link qualifies and netlink and the file system work, \<^verbatim>\<open>Configure\<close> succeeds
  with QEMU's fixed address, gateway and name server, writes the resolver file and closes the
  DHCP client.
\<close>

theorem Configure_fallback:
  assumes ns: "no_server os lib l" and us: "usable (choiceOf l)"
    and cf: "nc_EnableDHCP (LoadConfigFromEnv os env)" "nc_EnableQEMUFallback (LoadConfigFromEnv os env)"
      "nc_PreferredInterface (LoadConfigFromEnv os env) = ''''"
  shows "\<exists>r c' w'. Configure os lib env c w = (((r, None), c'), w') \<and> nr_Configured r \<and> nr_Fallback r \<and>
     nr_CIDR r = ''10.0.2.15/24'' \<and> nr_Gateway r = ''10.0.2.2'' \<and> nr_DNSServers r = [''10.0.2.3''] \<and>
     nr_InterfaceName r = lk_Name l \<and> CloseClient \<in> set w' \<and>
     WriteFile resolvConfPath (''nameserver 10.0.2.3'' @ [CHR 0x0A]) 0x1A4 \<in> set w'"
proof -
  let ?u = "w @ [LinkList, LinkList]" and ?cfg = "LoadConfigFromEnv os env"
  have "selectLink lib '''' v = (Inr l, v @ [LinkList])" for v
    using us by (simp add: selectLink_def SelectInterface_def firstUsable_find linkTable_def choiceOf_def Let_def
        no_serverD(1) [OF ns])
  then have "Configure os lib env c w = configureLink os lib ?cfg l c net_Result0 ?u"
    using cf by (simp add: Configure_def Let_def logInterfaceInventory_def)
  moreover obtain r u2 where "configureLink os lib ?cfg l c net_Result0 ?u = configureWithClient os lib ?cfg l c r u2"
      and i: "nr_InterfaceName r = lk_Name l"
    using fallback_link [OF ns] by blast
  moreover obtain r2 c2 v where "configureWithClient os lib ?cfg l c r u2 = (((r2, None), c2), v @ [resolver_write, CloseClient])"
      "on_fallback l r2"
    using fallback_client [OF ns i cf(2)] by blast
  ultimately show ?thesis by (simp add: on_fallback_def resolver_write_def)
qed

section \<open>Instances\<close>

text \<open>
  A concrete library for the instances: one Ethernet link, netlink calls that succeed and
  either no DHCP answer or a fixed one.
\<close>

definition eth0 :: link where
  "eth0 = \<lparr>lk_Name = ''eth0'', lk_HardwareAddr = ''abcdef'', lk_Flags = 3, lk_MTU = 1500, lk_OperState = ''up'', lk_Index = 2\<rparr>"

definition ack1 :: DHCPv4 where
  "ack1 = newPacketWithTransactionID ''wxyz'' [\<lambda>p. p\<lparr>dh_YourIPAddr := ip4 10 0 2 15\<rparr>]"

definition net1 :: "DHCPv4 result \<Rightarrow> netlib" where
  "net1 answer = \<lparr>
     nl_LinkList = \<lambda>_. Inr [eth0], nl_LinkSetUp = \<lambda>_ _. None, nl_LinkByName = \<lambda>_ _. Inr eth0,
     nl_ParseAddr = Inr, nl_AddrReplace = \<lambda>_ _ _. None, nl_RouteReplace = \<lambda>_ _ _. None,
     nl_NewRawUDPConn = \<lambda>_ _ _. None, nl_NewWithConn = \<lambda>_ _ _ _ _. None,
     nl_SendAndRead = \<lambda>_ _ _ _. answer, nl_IsMessageType = \<lambda>_ _. True, nl_IsCorrectServer = \<lambda>_ _. True,
     nl_IsAll = \<lambda>_ _. True, nl_ErrNak = \<lambda>_ _. errorf ''nak'', nl_MaxMessageSize = 1500, nl_ClientPort = 68,
     nl_MessageType = \<lambda>_. 5, nl_SubnetMask = \<lambda>_. Some (CIDRMask32 24), nl_Router = \<lambda>_. [ip4 10 0 2 2],
     nl_DNS = \<lambda>_. [], nl_DomainName = \<lambda>_. '''', nl_ServerIdentifier = \<lambda>_. ip4 10 0 2 2,
     nl_LeaseTime = \<lambda>_ d. d, nl_RenewalTime = \<lambda>_ d. d, nl_RebindingTime = \<lambda>_ d. d,
     nl_PrependModifiers = \<lambda>m other. other @ m, nl_WithHwAddr = \<lambda>a p. p\<lparr>dh_ClientHWAddr := a\<rparr>,
     nl_WithRequestedOptions = \<lambda>_ p. p, nl_WithMessageType = \<lambda>_ p. p, nl_WithReply = \<lambda>_ p. p,
     nl_WithClientIP = \<lambda>_ p. p, nl_WithBroadcast = \<lambda>_ p. p, nl_WithOption = \<lambda>_ p. p, nl_WithOptionCopied = \<lambda>_ _ p. p,
     nl_OptMaxMessageSize = \<lambda>n. (57, []), nl_OptRequestedIPAddress = \<lambda>i. (50, i), nl_IP6String = \<lambda>_. ''::'',
     nl_Seconds = \<lambda>d. d div second, nl_Getpid = 1, nl_Uint32 = \<lambda>_. 7\<rparr>"

lemma no_server_net1: "no_server good_os (net1 (Inl (errorf ''timeout''))) eth0"
  by (simp add: no_server_def net1_def good_os_def)

lemma usable_eth0: "usable (choiceOf eth0)"
  by code_simp

lemma default_config: "nc_EnableDHCP (LoadConfigFromEnv os Map.empty)" "nc_EnableQEMUFallback (LoadConfigFromEnv os Map.empty)"
  "nc_PreferredInterface (LoadConfigFromEnv os Map.empty) = ''''"
  by (simp_all add: LoadConfigFromEnv_def boolEnv_def getenv_def)

theorem Configure_fallback_witness:
  "\<exists>r c' w'. Configure good_os (net1 (Inl (errorf ''timeout''))) Map.empty 0 [] = (((r, None), c'), w') \<and>
     nr_Configured r \<and> nr_CIDR r = ''10.0.2.15/24''"
  using Configure_fallback [OF no_server_net1 usable_eth0 default_config, of 0 "[]"] by blast


theorem detailsFromLease_spec_witness:
  "\<exists>d. detailsFromLease (net1 (Inr ack1)) (Some \<lparr>ls_ACK = Some ack1, ls_Offer = None, ls_CreationTime = 0\<rparr>) = Inr d"
proof -
  have "nl_SubnetMask (net1 (Inr ack1)) ack1 = Some m \<Longrightarrow> length m = 4" for m
    by (auto simp: net1_def CIDRMask32_def)
  note t = detailsFromLease_spec [of "\<lparr>ls_ACK = Some ack1, ls_Offer = None, ls_CreationTime = 0\<rparr>" ack1, OF _ this]
  have "To4 (dh_YourIPAddr ack1) \<noteq> []"
    by (simp add: ack1_def newPacketWithTransactionID_def Let_def To4_def ip4_def)
  moreover have "\<exists>n\<le>32. nl_SubnetMask (net1 (Inr ack1)) ack1 = Some (CIDRMask32 n)"
    by (intro exI [of _ 24]) (simp add: net1_def)
  ultimately show ?thesis using t by simp
qed

theorem selectLink_spec_witness:
  "\<exists>l\<in>set [eth0]. fst (selectLink (net1 (Inr ack1)) ''eth0'' []) = Inr l \<and> lk_Name l = lk_Name eth0"
  using selectLink_spec [of "net1 (Inr ack1)" "[]" "''eth0''"] by (simp add: net1_def eth0_def)


theorem nextTransactionID_distinct_witness:
  "fst (fst (nextTransactionID good_os (net1 (Inr ack1)) 0 [])) \<noteq> fst (fst (nextTransactionID good_os (net1 (Inr ack1)) 1 []))"
proof -
  obtain x c1 w1 where x: "nextTransactionID good_os (net1 (Inr ack1)) 0 [] = ((x, c1), w1)" by (metis prod.exhaust)
  obtain y d1 w2 where y: "nextTransactionID good_os (net1 (Inr ack1)) 1 [] = ((y, d1), w2)" by (metis prod.exhaust)
  show ?thesis using nextTransactionID_distinct [OF x y] by (simp add: x y)
qed

theorem dhcpDeadline_exact_witness:
  "dhcpDeadline (LoadConfigFromEnv (good_os\<lparr>os_ParseDuration := \<lambda>_. Some 4000000000000000000\<rparr>)
     (Map.empty(''GO_INIT_DHCP_TIMEOUT'' \<mapsto> ''x''))) < 0"
proof -
  let ?os = "good_os\<lparr>os_ParseDuration := \<lambda>_. Some 4000000000000000000\<rparr>"
  let ?env = "Map.empty(''GO_INIT_DHCP_TIMEOUT'' \<mapsto> ''x'')"
  have "TrimSpace ''x'' = ''x''" by code_simp
  then have "nc_Timeout (LoadConfigFromEnv ?os ?env) = 4000000000000000000" "nc_Retry (LoadConfigFromEnv ?os ?env) = 3"
    by (simp_all add: LoadConfigFromEnv_def durationEnv_def intEnv_def getenv_def defaultDHCPRetry_def)
  with dhcpDeadline_exact [of "LoadConfigFromEnv ?os ?env" ?os ?env, OF refl]
  show ?thesis by simp
qed

end
