(* ===== verification/LogLines.thy ===== *)
theory LogLines
  imports LogStore Kmod Storage SharedState Entropy Boot Networking
begin

text \<open>
  What the guest logs and where it goes. \<^verbatim>\<open>log.Logger\<close> writes a message, after a header with the time, as one call
  of \<^verbatim>\<open>Write\<close>; in the guest the writer is an \<^verbatim>\<open>io.MultiWriter\<close> of the console and the log store. The
  texts the packages log are functions of what they log; a logger that may be nil is an option. The theory also
  has the parts of \<^verbatim>\<open>internal/networking\<close> that exist for logging: the wrapped DHCP socket and the goroutine
  that reports a slow DHCP server.
\<close>

section \<open>Loggers\<close>

type_synonym logger = "(string list) option"

definition Printf :: "string \<Rightarrow> logger \<Rightarrow> logger" where
  "Printf msg l = map_option (\<lambda>ls. ls @ [msg]) l"

lemma Printf_simps [simp]: "Printf m None = None" "Printf m (Some ls) = Some (ls @ [m])"
  by (simp_all add: Printf_def)

text \<open>\<^verbatim>\<open>Logger.Output\<close>: a line end is added unless the message has one.\<close>

definition logLine :: "string \<Rightarrow> string \<Rightarrow> bytes" where
  "logLine header msg =
     (let line = header @ msg in if line = [] \<or> last line \<noteq> CHR 0x0A then line @ [CHR 0x0A] else line)"

text \<open>\<^verbatim>\<open>io.MultiWriter(os.Stdout, logStore.Writer("guest"))\<close>: when the console fails, the store gets nothing.\<close>

definition MultiWrite ::
  "'d log_env \<Rightarrow> (bytes \<Rightarrow> go_error option) \<Rightarrow> bytes \<Rightarrow> log_writer option \<Rightarrow> 'd log_state \<Rightarrow> log_writer option \<times> 'd log_state" where
  "MultiWrite env console p wr st =
     (case console p of Some _ \<Rightarrow> (wr, st) | None \<Rightarrow> (case WriteLog env p wr st of (_, wr, st) \<Rightarrow> (wr, st)))"

fun logAll ::
  "'d log_env \<Rightarrow> (bytes \<Rightarrow> go_error option) \<Rightarrow> (string \<times> string) list \<Rightarrow> log_writer option \<Rightarrow> 'd log_state \<Rightarrow>
   log_writer option \<times> 'd log_state" where
  "logAll env console [] wr st = (wr, st)"
| "logAll env console ((header, msg) # calls) wr st =
     (case MultiWrite env console (logLine header msg) wr st of (wr, st) \<Rightarrow> logAll env console calls wr st)"

section \<open>What the packages log\<close>

text \<open>The verbs \<^verbatim>\<open>%t\<close>, \<^verbatim>\<open>%v\<close> of a list of strings, and \<^verbatim>\<open>%#x\<close>.\<close>

definition fmt_t :: "bool \<Rightarrow> string" where "fmt_t b = (if b then ''true'' else ''false'')"

definition fmt_list :: "string list \<Rightarrow> string" where "fmt_list xs = ''['' @ Join '' '' xs @ '']''"

definition fmt_hex :: "nat \<Rightarrow> string" where "fmt_hex n = ''0x'' @ digits 16 n"

definition kmod_line :: "kmod_Result \<Rightarrow> string" where
  "kmod_line r = ''kmod: module='' @ km_ModulePath r @ '' attempted='' @ fmt_t (km_Attempted r) @ '' loaded='' @ fmt_t (km_Loaded r) @
     '' already_loaded='' @ fmt_t (km_AlreadyLoaded r) @ '' step='' @ km_Step r @ '' error='' @ quote (km_Error r)"

definition storage_line :: "storage_Result \<Rightarrow> string" where
  "storage_line r = ''storage: enabled='' @ fmt_t (sr_Enabled r) @ '' device='' @ sr_Device r @ '' mount_point='' @ sr_MountPoint r @
     '' fs='' @ sr_Filesystem r @ '' ready='' @ fmt_t (sr_DeviceReady r) @ '' mounted='' @ fmt_t (sr_Mounted r) @
     '' step='' @ sr_Step r @ '' error='' @ quote (sr_Error r) @ '' dirs='' @ fmt_list (sr_Directories r)"

definition sharedstate_line :: "shared_Result \<Rightarrow> string" where
  "sharedstate_line r = ''sharedstate: enabled='' @ fmt_t (hr_Enabled r) @ '' required='' @ fmt_t (hr_Required r) @
     '' tag='' @ hr_MountTag r @ '' mount_point='' @ hr_MountPoint r @ '' fs='' @ hr_Filesystem r @ '' mounted='' @ fmt_t (hr_Mounted r) @
     '' step='' @ hr_Step r @ '' error='' @ quote (hr_Error r) @ '' dirs='' @ fmt_list (hr_Directories r)"

definition entropy_line :: "string \<Rightarrow> entropy_Result \<Rightarrow> string" where
  "entropy_line label r = ''entropy: action='' @ label @ '' entropy_avail='' @ formatEntropy r @ '' hwrng='' @ fmt_t (en_HWRNGDevice r) @
     '' rng_current='' @ quote (emptyIfBlank (en_RNGCurrent r) ''<none>'') @
     '' rng_available='' @ emptyIfBlank (Join '','' (en_RNGAvailable r)) ''<none>'' @
     '' virtio_rng_visible='' @ fmt_t (en_VirtioRNGVisible r) @ '' warnings='' @ emptyIfBlank (Join '','' (en_Warnings r)) ''<none>''"

definition mount_line :: "mountSpec \<Rightarrow> MountResult \<Rightarrow> bool \<Rightarrow> string" where
  "mount_line spec r mkdirFailed =
     (if mr_Mounted r then ''mounted '' @ ms_source spec @ '' on '' @ ms_target spec @ '' ('' @ ms_fsType spec @ '')''
      else if mkdirFailed then ''mkdir '' @ ms_target spec @ '' failed: '' @ mr_Error r
      else ''mount '' @ ms_source spec @ '' on '' @ ms_target spec @ '' failed: '' @ mr_Error r)"

fun reap_line :: "reap_log \<Rightarrow> string" where
  "reap_line (Reaped pid st) = ''reaped child pid='' @ Itoa pid @ '' status='' @ fmt_hex st"
| "reap_line (WaitFailed e) = ''wait4 failed: '' @ err_text e"

section \<open>Lines and rows\<close>

definition rows_of_text :: "string \<Rightarrow> string list" where
  "rows_of_text text = filter (\<lambda>l. TrimSpace l \<noteq> '''') (Split LFc text)"

lemma Split_last: "s \<noteq> [] \<Longrightarrow> last s = c \<Longrightarrow> Split c s = Split c (butlast s) @ [[]]"
  using Split_snoc [of c "butlast s"] by (metis append_butlast_last_id)

lemma logLine_Split:
  "last (Split LFc (logLine header msg)) = [] \<and>
   filter (\<lambda>l. TrimSpace l \<noteq> '''') (butlast (Split LFc (logLine header msg))) = rows_of_text (header @ msg)"
proof (cases "header @ msg = [] \<or> last (header @ msg) \<noteq> LFc")
  case True
  then have "logLine header msg = (header @ msg) @ [LFc]" by (simp add: logLine_def Let_def)
  then show ?thesis by (simp only: Split_snoc rows_of_text_def) simp
next
  case False
  then have "logLine header msg = header @ msg" by (simp add: logLine_def Let_def)
  moreover have "Split LFc (header @ msg) = Split LFc (butlast (header @ msg)) @ [[]]" using False by (intro Split_last) simp_all
  ultimately show ?thesis by (simp only: rows_of_text_def) simp
qed

lemma MultiWrite_rows:
  assumes "console (logLine header msg) = None" "wr_buf v = []" "snd (snd st) \<noteq> None"
  shows "MultiWrite env console (logLine header msg) (Some v) st =
    (Some v, fold (insertLine env (wr_source v)) (rows_of_text (header @ msg)) st)"
proof -
  have "v\<lparr>wr_buf := []\<rparr> = v" using assms(2) by (cases v) simp
  then show ?thesis
    using WriteLog_drain [OF assms(3), of env "logLine header msg" v] assms(1,2) logLine_Split [of header msg]
    by (simp add: MultiWrite_def store_lines.drain_lines)
qed


section \<open>A report is one row\<close>

lemma rows_of_one: "LFc \<notin> set t \<Longrightarrow> visible c \<Longrightarrow> t = a @ c # b \<Longrightarrow> rows_of_text t = [t]"
  by (simp add: rows_of_text_def Split_free TrimSpace_visible)

lemma fmt_rows: "LFc \<notin> set (fmt_t b)" "\<forall>x\<in>set xs. LFc \<notin> set x \<Longrightarrow> LFc \<notin> set (fmt_list xs)"
  by (auto simp: fmt_t_def fmt_list_def dest: set_Join)

lemma storage_line_row:
  assumes "LFc \<notin> set (sr_Device r)" "LFc \<notin> set (sr_MountPoint r)" "LFc \<notin> set (sr_Filesystem r)" "LFc \<notin> set (sr_Step r)"
    "\<forall>x\<in>set (sr_Directories r). LFc \<notin> set x" "LFc \<notin> set h"
  shows "rows_of_text (h @ storage_line r) = [h @ storage_line r]"
proof (rule rows_of_one)
  show "LFc \<notin> set (h @ storage_line r)" using assms by (simp add: storage_line_def quote_row fmt_rows)
  show "visible (CHR ''s'')" by (simp add: visible_def)
  show "h @ storage_line r = h @ CHR ''s'' # tl (storage_line r)" by (simp add: storage_line_def)
qed

lemma sharedstate_line_row:
  assumes "LFc \<notin> set (hr_MountTag r)" "LFc \<notin> set (hr_MountPoint r)" "LFc \<notin> set (hr_Filesystem r)" "LFc \<notin> set (hr_Step r)"
    "\<forall>x\<in>set (hr_Directories r). LFc \<notin> set x" "LFc \<notin> set h"
  shows "rows_of_text (h @ sharedstate_line r) = [h @ sharedstate_line r]"
proof (rule rows_of_one)
  show "LFc \<notin> set (h @ sharedstate_line r)" using assms by (simp add: sharedstate_line_def quote_row fmt_rows)
  show "visible (CHR ''s'')" by (simp add: visible_def)
  show "h @ sharedstate_line r = h @ CHR ''s'' # tl (sharedstate_line r)" by (simp add: sharedstate_line_def)
qed

lemma path_row: "LFc \<notin> set a \<Longrightarrow> LFc \<notin> set b \<Longrightarrow> LFc \<notin> set (PathJoin [a, b])"
  by (auto dest: set_PathJoin)

lemma storage_prepare_rows:
  assumes "Storage.prepare os cfg w = Some ((r, e), w')"
  shows "sr_Device r = sc_Device cfg \<and> sr_MountPoint r = sc_MountPoint cfg \<and> sr_Filesystem r = sc_Filesystem cfg \<and>
    LFc \<notin> set (sr_Step r) \<and> (sr_Directories r = [] \<or> sr_Directories r = map (\<lambda>(p, m). PathJoin [sc_MountPoint cfg, p]) stateDirectories)"
  using assms ensureDirs_ok
  by (fastforce simp: Storage.prepare_def Let_def call_defs ensureStateDirectories_def
      split: option.splits sum.splits prod.splits if_splits)

lemma shared_prepare_rows:
  assumes "SharedState.prepare os cfg w = ((r, e), w')"
  shows "hr_MountTag r = hc_MountTag cfg \<and> hr_MountPoint r = hc_MountPoint cfg \<and> hr_Filesystem r = hc_Filesystem cfg \<and>
    LFc \<notin> set (hr_Step r) \<and> (hr_Directories r = [] \<or> hr_Directories r = share_dirs (hc_MountPoint cfg))"
  using assms
  by (auto simp: SharedState.prepare_def Let_def call_defs ensureDirectories_def
      split: option.splits sum.splits prod.splits if_splits)

lemma plain_dirs:
  assumes "LFc \<notin> set root"
  shows "x \<in> set (map (\<lambda>(p, m). PathJoin [root, p]) stateDirectories) \<Longrightarrow> LFc \<notin> set x"
    and "x \<in> set (share_dirs root) \<Longrightarrow> LFc \<notin> set x"
  using assms by (auto simp: stateDirectories_def share_dirs_def dest!: set_PathJoin)

text \<open>
  C38. Whatever an error of the kernel says, the report of \<^verbatim>\<open>Prepare\<close> on the storage disk and the one on the
  shared directory are one row of the log each: \<^verbatim>\<open>%q\<close> escapes line ends, so an error text cannot forge
  further rows, as long as the settings have no line end.
\<close>

theorem report_rows:
  assumes "Storage.prepare os sc w = Some ((r, e), w')" and "SharedState.prepare os hc v = ((q, f), v')"
    and "\<forall>t\<in>{sc_Device sc, sc_MountPoint sc, sc_Filesystem sc, hc_MountTag hc, hc_MountPoint hc, hc_Filesystem hc, header}. LFc \<notin> set t"
  shows "rows_of_text (header @ storage_line r) = [header @ storage_line r] \<and>
    rows_of_text (header @ sharedstate_line q) = [header @ sharedstate_line q]"
proof
  show "rows_of_text (header @ storage_line r) = [header @ storage_line r]"
    using storage_prepare_rows [OF assms(1)] assms(3) plain_dirs(1) [of "sc_MountPoint sc"]
    by (intro storage_line_row) (auto simp del: list.map set_map)
  show "rows_of_text (header @ sharedstate_line q) = [header @ sharedstate_line q]"
    using shared_prepare_rows [OF assms(2)] assms(3) plain_dirs(2) [of "hc_MountPoint hc"]
    by (intro sharedstate_line_row) auto
qed

section \<open>Instances\<close>


text \<open>An operating system on which every mount fails with an error text of two lines.\<close>

definition bad_mount :: os where
  "bad_mount = good_os\<lparr>os_Mount := \<lambda>_ _ _ _ _ _. Some (errorf (''no'' @ [LFc] @ ''fatal: forged''))\<rparr>"

theorem report_rows_witness:
  "\<exists>r e w. Storage.prepare bad_mount witness_cfg [] = Some ((r, e), w) \<and> rows_of_text (''t '' @ storage_line r) = [''t '' @ storage_line r]"
proof -
  have "clock_ok bad_mount" using good_os_clock by (simp add: clock_ok_def bad_mount_def)
  from prepare_total [OF this] obtain r e w where p: "Storage.prepare bad_mount witness_cfg [] = Some ((r, e), w)" by metis
  obtain q f v where "SharedState.prepare bad_mount share_cfg [] = ((q, f), v)" by (metis surj_pair)
  from report_rows [OF p this, of "''t ''"] p show ?thesis by (simp add: witness_cfg_def share_cfg_def)
qed

end
