(* ===== verification/NetLog.thy ===== *)
theory NetLog
  imports LogLines
begin

text \<open>
  The parts of \<^verbatim>\<open>internal/networking\<close> that exist for logging: the raw DHCP socket wrapped in one that logs, the
  goroutine that reports a slow DHCP server, the logger given to the DHCP library and the texts
  \<^verbatim>\<open>Configure\<close> logs. A logger may be nil, and every one of these then does nothing.
\<close>

section \<open>Durations as text\<close>

text \<open>\<^verbatim>\<open>time.Duration.String\<close> and \<^verbatim>\<open>Round\<close>; \<open>fraction\<close> is the decimal fraction without trailing zeros.\<close>

definition fraction :: "nat \<Rightarrow> nat \<Rightarrow> string" where
  "fraction v prec =
     (let d = digits 10 v; t = TrimRight1 (CHR ''0'') (replicate (prec - length d) (CHR ''0'') @ d)
      in if t = '''' then '''' else ''.'' @ t)"

definition micro :: string where "micro = [CHR 0xC2, CHR 0xB5, CHR ''s'']"

definition Duration_String :: "int \<Rightarrow> string" where
  "Duration_String d =
     (let u = nat \<bar>d\<bar>; neg = (if d < 0 then ''-'' else '''')
      in if u = 0 then ''0s''
         else neg @
           (if u < 1000 then digits 10 u @ ''ns''
            else if u < 1000000 then digits 10 (u div 1000) @ fraction (u mod 1000) 3 @ micro
            else if u < 1000000000 then digits 10 (u div 1000000) @ fraction (u mod 1000000) 6 @ ''ms''
            else let s = u div 1000000000
                 in (if 3600 \<le> s then digits 10 (s div 3600) @ ''h'' else '''') @
                    (if 60 \<le> s then digits 10 (s div 60 mod 60) @ ''m'' else '''') @
                    digits 10 (s mod 60) @ fraction (u mod 1000000000) 9 @ ''s''))"

definition Round_ms :: "int \<Rightarrow> int" where
  "Round_ms d =
     (let m = 1000000; r = \<bar>d\<bar> mod m
      in if d < 0 then (if r + r < m then d + r else d - m + r)
         else if r + r < m then d - r else d + m - r)"

lemma Duration_String_examples:
  "Duration_String 0 = ''0s'' \<and> Duration_String 15000000000 = ''15s'' \<and> Duration_String 5400000000000 = ''1h30m0s'' \<and>
   Duration_String 1500000 = ''1.5ms'' \<and> Duration_String (- 2050000000) = ''-2.05s''"
  by (simp add: Duration_String_def fraction_def TrimRight1_def digits.simps digit_char_def char_of_def bit_0)

section \<open>The logging socket\<close>

text \<open>
  A \<^verbatim>\<open>net.PacketConn\<close> with a state of its own. \<^verbatim>\<open>ReadFrom\<close> gets a buffer and returns the count, the address
  (nil when there is none), the error and the buffer filled.
\<close>

record 's packet_conn =
  pc_ReadFrom :: "bytes \<Rightarrow> 's \<Rightarrow> (int \<times> string option \<times> go_error option \<times> bytes) \<times> 's"
  pc_WriteTo :: "bytes \<Rightarrow> string option \<Rightarrow> 's \<Rightarrow> (int \<times> go_error option) \<times> 's"

definition fmt_addr :: "string option \<Rightarrow> string" where
  "fmt_addr a = (case a of None \<Rightarrow> ''<nil>'' | Some t \<Rightarrow> t)"

definition read_line :: "string \<Rightarrow> int \<Rightarrow> string option \<Rightarrow> go_error option \<Rightarrow> string" where
  "read_line label n addr err = ''networking: '' @ label @
     (case err of Some e \<Rightarrow> '' read error: '' @ err_text e
      | None \<Rightarrow> '' read '' @ Itoa n @ '' bytes from '' @ fmt_addr addr)"

definition write_start_line :: "string \<Rightarrow> bytes \<Rightarrow> string option \<Rightarrow> string" where
  "write_start_line label b addr =
     ''networking: '' @ label @ '' write start bytes='' @ Itoa (int (length b)) @ '' addr='' @ fmt_addr addr"

definition write_end_line :: "string \<Rightarrow> int \<Rightarrow> string option \<Rightarrow> go_error option \<Rightarrow> string" where
  "write_end_line label n addr err = ''networking: '' @ label @
     (case err of Some e \<Rightarrow> '' write error after '' @ Itoa n @ '' bytes: '' @ err_text e
      | None \<Rightarrow> '' write complete bytes='' @ Itoa n @ '' addr='' @ fmt_addr addr)"

definition ReadFrom ::
  "'s packet_conn \<Rightarrow> string \<Rightarrow> bytes \<Rightarrow> 's \<times> logger \<Rightarrow> (int \<times> string option \<times> go_error option \<times> bytes) \<times> 's \<times> logger" where
  "ReadFrom c label b st =
     (case pc_ReadFrom c b (fst st) of ((n, addr, err, b), s) \<Rightarrow>
        ((n, addr, err, b), s, if snd st \<noteq> None then Printf (read_line label n addr err) (snd st) else snd st))"

definition WriteTo ::
  "'s packet_conn \<Rightarrow> string \<Rightarrow> bytes \<Rightarrow> string option \<Rightarrow> 's \<times> logger \<Rightarrow> (int \<times> go_error option) \<times> 's \<times> logger" where
  "WriteTo c label b addr st =
     (let l = (if snd st \<noteq> None then Printf (write_start_line label b addr) (snd st) else snd st)
      in case pc_WriteTo c b addr (fst st) of ((n, err), s) \<Rightarrow>
           ((n, err), s, if l \<noteq> None then Printf (write_end_line label n addr err) l else l))"

definition loggingPacketConn :: "string \<Rightarrow> 's packet_conn \<Rightarrow> ('s \<times> logger) packet_conn" where
  "loggingPacketConn label c = \<lparr>pc_ReadFrom = ReadFrom c label, pc_WriteTo = WriteTo c label\<rparr>"

text \<open>
  A client of a socket, here the DHCP library, chooses its next call from what it has seen; \<open>talk\<close> runs it
  for at most \<open>n\<close> calls and returns the transcript.
\<close>

datatype exchange =
    Read bytes int "string option" "go_error option" bytes
  | Wrote bytes "string option" int "go_error option"

datatype call = CallRead bytes | CallWrite bytes "string option"

fun talk :: "nat \<Rightarrow> (exchange list \<Rightarrow> call option) \<Rightarrow> 's packet_conn \<Rightarrow> exchange list \<Rightarrow> 's \<Rightarrow> exchange list \<times> 's" where
  "talk 0 client c seen s = (seen, s)"
| "talk (Suc n) client c seen s =
     (case client seen of
        None \<Rightarrow> (seen, s)
      | Some (CallRead b) \<Rightarrow> (case pc_ReadFrom c b s of ((k, a, e, b'), s) \<Rightarrow> talk n client c (seen @ [Read b k a e b']) s)
      | Some (CallWrite b a) \<Rightarrow> (case pc_WriteTo c b a s of ((k, e), s) \<Rightarrow> talk n client c (seen @ [Wrote b a k e]) s))"

fun exchange_lines :: "string \<Rightarrow> exchange \<Rightarrow> string list" where
  "exchange_lines label (Read b k a e b') = [read_line label k a e]"
| "exchange_lines label (Wrote b a k e) = [write_start_line label b a, write_end_line label k a e]"



lemma loggingPacketConn_calls:
  "pc_ReadFrom c b s = ((k, a, e, b'), s') \<Longrightarrow>
   pc_ReadFrom (loggingPacketConn label c) b (s, l) = ((k, a, e, b'), s', map_option (\<lambda>ls. ls @ [read_line label k a e]) l)"
  "pc_WriteTo c b a s = ((n, err), s') \<Longrightarrow>
   pc_WriteTo (loggingPacketConn label c) b a (s, l) =
     ((n, err), s', map_option (\<lambda>ls. ls @ [write_start_line label b a, write_end_line label n a err]) l)"
  by (cases l; simp add: loggingPacketConn_def ReadFrom_def WriteTo_def Let_def)+

lemma logging_talk:
  "\<exists>new. talk n client (loggingPacketConn label c) seen (s, l) =
     (seen @ new, snd (talk n client c seen s), map_option (\<lambda>ls. ls @ concat (map (exchange_lines label) new)) l) \<and>
     fst (talk n client c seen s) = seen @ new"
proof (induction n arbitrary: seen s l)
  case (Suc n)
  show ?case
  proof (cases "client seen")
    case None
    then show ?thesis by (simp add: option.map_ident)
  next
    case (Some call)
    show ?thesis
    proof (cases call)
      case (CallRead b)
      obtain k a e b' s' where p: "pc_ReadFrom c b s = ((k, a, e, b'), s')" by (metis surj_pair)
      obtain new where "talk n client (loggingPacketConn label c) (seen @ [Read b k a e b'])
          (s', map_option (\<lambda>ls. ls @ [read_line label k a e]) l) =
        (seen @ Read b k a e b' # new, snd (talk n client c (seen @ [Read b k a e b']) s'),
         map_option (\<lambda>ls. ls @ concat (map (exchange_lines label) (Read b k a e b' # new))) l) \<and>
        fst (talk n client c (seen @ [Read b k a e b']) s') = seen @ Read b k a e b' # new"
        using Suc [of "seen @ [Read b k a e b']" s' "map_option (\<lambda>ls. ls @ [read_line label k a e]) l"]
        by (auto simp: option.map_comp comp_def)
      then show ?thesis by (intro exI [of _ "Read b k a e b' # new"]) (simp add: Some CallRead p loggingPacketConn_calls(1) [OF p])
    next
      case (CallWrite b a)
      obtain k e s' where p: "pc_WriteTo c b a s = ((k, e), s')" by (metis surj_pair)
      obtain new where "talk n client (loggingPacketConn label c) (seen @ [Wrote b a k e])
          (s', map_option (\<lambda>ls. ls @ [write_start_line label b a, write_end_line label k a e]) l) =
        (seen @ Wrote b a k e # new, snd (talk n client c (seen @ [Wrote b a k e]) s'),
         map_option (\<lambda>ls. ls @ concat (map (exchange_lines label) (Wrote b a k e # new))) l) \<and>
        fst (talk n client c (seen @ [Wrote b a k e]) s') = seen @ Wrote b a k e # new"
        using Suc [of "seen @ [Wrote b a k e]" s' "map_option (\<lambda>ls. ls @ [write_start_line label b a, write_end_line label k a e]) l"]
        by (auto simp: option.map_comp comp_def)
      then show ?thesis by (intro exI [of _ "Wrote b a k e # new"]) (simp add: Some CallWrite p loggingPacketConn_calls(2) [OF p])
    qed
  qed
qed (simp add: option.map_ident)

text \<open>
  C37. Wrapping the DHCP socket changes nothing the DHCP library can see: whatever it decides to read and
  write, it gets the same answers and leaves the socket in the same state. The log gets one line for every
  read and two for every write, in the order of the calls, with counts and addresses but not the data.
\<close>

theorem loggingPacketConn_transparent:
  "talk n client (loggingPacketConn label c) [] (s, l) =
     (fst (talk n client c [] s), snd (talk n client c [] s),
      map_option (\<lambda>ls. ls @ concat (map (exchange_lines label) (fst (talk n client c [] s)))) l)"
  using logging_talk [of n client label c "[]" s l] by auto

section \<open>Waiting for the DHCP server\<close>

text \<open>
  What \<^verbatim>\<open>select\<close> picks in a round of \<^verbatim>\<open>logDHCPWait\<close>: the request is done, the context has ended, or the ticker
  of five seconds has fired; the last two with the time since the start. The goroutine returns the log.
\<close>

datatype wait_event = RequestDone | CtxDone int go_error | Tick int

definition tick_line :: "string \<Rightarrow> string \<Rightarrow> int \<Rightarrow> string" where
  "tick_line iface xid t = ''networking: still waiting for DHCP on '' @ iface @ '' xid='' @ xid @
     '' elapsed='' @ Duration_String (Round_ms t)"

definition ctx_line :: "string \<Rightarrow> string \<Rightarrow> int \<Rightarrow> go_error \<Rightarrow> string" where
  "ctx_line iface xid t e = ''networking: DHCP wait on '' @ iface @ '' xid='' @ xid @
     '' ended via context after '' @ Duration_String (Round_ms t) @ '' err='' @ err_text e"

partial_function (option) waitSelect ::
  "(nat \<Rightarrow> wait_event) \<Rightarrow> string \<Rightarrow> string \<Rightarrow> nat \<Rightarrow> logger \<Rightarrow> logger option" where
  "waitSelect ev iface xid i l =
     (case ev i of
        RequestDone \<Rightarrow> Some l
      | CtxDone t e \<Rightarrow> Some (Printf (ctx_line iface xid t e) l)
      | Tick t \<Rightarrow> waitSelect ev iface xid (Suc i) (Printf (tick_line iface xid t) l))"

definition logDHCPWait :: "(nat \<Rightarrow> wait_event) \<Rightarrow> string \<Rightarrow> string \<Rightarrow> logger \<Rightarrow> logger option" where
  "logDHCPWait ev iface xid l = (if l = None then Some None else waitSelect ev iface xid 0 l)"

fun final_lines :: "string \<Rightarrow> string \<Rightarrow> wait_event \<Rightarrow> string list" where
  "final_lines iface xid RequestDone = []"
| "final_lines iface xid (CtxDone t e) = [ctx_line iface xid t e]"
| "final_lines iface xid (Tick t) = []"

lemma waitSelect_ticks:
  "(\<And>j. j < k \<Longrightarrow> ev (i + j) = Tick (t (i + j))) \<Longrightarrow>
   waitSelect ev iface xid i (Some ls) =
   waitSelect ev iface xid (i + k) (Some (ls @ map (\<lambda>j. tick_line iface xid (t (i + j))) [0..<k]))"
proof (induction k arbitrary: ls)
  case (Suc k)
  have "waitSelect ev iface xid i (Some ls) =
    waitSelect ev iface xid (i + k) (Some (ls @ map (\<lambda>j. tick_line iface xid (t (i + j))) [0..<k]))"
    using Suc by simp
  then show ?case using Suc.prems [of k] waitSelect.simps [of ev iface xid "i + k"] by simp
qed simp

lemma waitSelect_never:
  assumes "\<forall>i. \<exists>t. ev i = Tick t"
  shows "waitSelect ev iface xid i l = None"
proof -
  have "waitSelect ev iface xid i l = Some y \<Longrightarrow> \<exists>i. \<forall>t. ev i \<noteq> Tick t" for y
    by (erule waitSelect.raw_induct [where P = "\<lambda>ev _ _ _ _ _. \<exists>i. \<forall>t. ev i \<noteq> Tick t", rotated])
       (auto split: wait_event.splits; metis wait_event.distinct)
  with assms show ?thesis by (cases "waitSelect ev iface xid i l") fastforce+
qed

text \<open>
  The goroutine that reports a slow DHCP server ends exactly when something other than its ticker is
  picked: it has then logged one line for every tick before, and a last one when the context ended; without
  that it never ends. It never touches a nil logger.
\<close>

theorem logDHCPWait_ends:
  "(\<forall>n t. (\<forall>j<n. ev j = Tick (t j)) \<and> (\<forall>u. ev n \<noteq> Tick u) \<longrightarrow>
      logDHCPWait ev iface xid (Some ls) = Some (Some (ls @ map (\<lambda>j. tick_line iface xid (t j)) [0..<n] @ final_lines iface xid (ev n)))) \<and>
   (logDHCPWait ev iface xid (Some ls) = None \<longleftrightarrow> (\<forall>j. \<exists>t. ev j = Tick t)) \<and>
   logDHCPWait ev iface xid None = Some None"
  (is "?ends \<and> (?none \<longleftrightarrow> ?ticks) \<and> ?nil")
proof (intro conjI)
  show e: ?ends
  proof (intro allI impI)
    fix n t assume a: "(\<forall>j<n. ev j = Tick (t j)) \<and> (\<forall>u. ev n \<noteq> Tick u)"
    then have "logDHCPWait ev iface xid (Some ls) = waitSelect ev iface xid n (Some (ls @ map (\<lambda>j. tick_line iface xid (t j)) [0..<n]))"
      using waitSelect_ticks [of n ev 0 t] by (simp add: logDHCPWait_def)
    with a show "logDHCPWait ev iface xid (Some ls) =
      Some (Some (ls @ map (\<lambda>j. tick_line iface xid (t j)) [0..<n] @ final_lines iface xid (ev n)))"
      by (subst (asm) waitSelect.simps) (cases "ev n"; simp)
  qed
  show "?none \<longleftrightarrow> ?ticks"
  proof
    assume n: ?none
    show ?ticks
    proof (rule ccontr)
      assume "\<not> ?ticks"
      then obtain m where m: "\<forall>u. ev m \<noteq> Tick u" "\<forall>j<m. \<exists>t. ev j = Tick t"
        using exists_least_iff [of "\<lambda>j. \<forall>u. ev j \<noteq> Tick u"] by auto
      then obtain t where "\<forall>j<m. ev j = Tick (t j)" by metis
      with e m(1) n show False by auto
    qed
  qed (simp add: logDHCPWait_def waitSelect_never)
qed (simp add: logDHCPWait_def)

section \<open>The logger of the DHCP library\<close>

text \<open>\<^verbatim>\<open>dhcpLogger\<close>; the summary of a message, which may be nil, and the formatted text are the library's.\<close>

definition PrintMessage :: "string \<Rightarrow> string option \<Rightarrow> logger \<Rightarrow> logger" where
  "PrintMessage pfx message l =
     (case message of None \<Rightarrow> l | Some summary \<Rightarrow> if l = None then l else Printf (''dhcp: '' @ pfx @ '' '' @ summary) l)"

definition dhcpPrintf :: "string \<Rightarrow> logger \<Rightarrow> logger" where
  "dhcpPrintf msg l = (if l = None then l else Printf (''dhcp: '' @ msg) l)"

section \<open>What Configure logs\<close>

definition emptyIfBlank :: "string \<Rightarrow> string \<Rightarrow> string" where
  "emptyIfBlank value fallback = (if value = '''' then fallback else value)"

text \<open>The links before one is selected. Without a logger the links are not listed.\<close>

definition link_summary :: "link \<Rightarrow> string" where
  "link_summary l = lk_Name l @ ''(mac='' @ HardwareAddr_String (lk_HardwareAddr l) @ '' oper='' @ lk_OperState l @
     '' flags='' @ Join '','' (formatFlags (lk_Flags l)) @ '' mtu='' @ Itoa (lk_MTU l) @ '')''"

definition inventory_line :: "(link list) result \<Rightarrow> string" where
  "inventory_line r =
     (case r of Inl e \<Rightarrow> ''networking: unable to enumerate links for debug logging: '' @ err_text e
      | Inr links \<Rightarrow> ''networking: discovered links => '' @ Join '' | '' (map link_summary links))"

definition logInventory :: "netlib \<Rightarrow> logger \<Rightarrow> logger io" where
  "logInventory lib l w =
     (if l = None then (l, w) else (Printf (inventory_line (nl_LinkList lib w)) l, w @ [LinkList]))"

text \<open>The addresses and routes of a link; what the kernel lists is given by two functions of the world.\<close>

definition state_values :: "string \<Rightarrow> string list \<Rightarrow> string" where
  "state_values sep values = Join sep (if values = [] then [''<none>''] else values)"

definition addresses_line :: "string \<Rightarrow> string \<Rightarrow> (string list) result \<Rightarrow> string" where
  "addresses_line label name r =
     (case r of Inl e \<Rightarrow> ''networking: '' @ label @ '' address list failed on '' @ name @ '': '' @ err_text e
      | Inr addrs \<Rightarrow> ''networking: '' @ label @ '' addresses on '' @ name @ '' => '' @ state_values '','' addrs)"

definition routes_line :: "string \<Rightarrow> string \<Rightarrow> (string list) result \<Rightarrow> string" where
  "routes_line label name r =
     (case r of Inl e \<Rightarrow> ''networking: '' @ label @ '' route list failed on '' @ name @ '': '' @ err_text e
      | Inr routes \<Rightarrow> ''networking: '' @ label @ '' routes on '' @ name @ '' => '' @ state_values '' | '' routes)"

definition logState ::
  "(world \<Rightarrow> string \<Rightarrow> (string list) result) \<Rightarrow> (world \<Rightarrow> string \<Rightarrow> (string list) result) \<Rightarrow> link option \<Rightarrow> string \<Rightarrow>
   logger \<Rightarrow> logger io" where
  "logState addrList routeList lnk phase l w =
     (case lnk of
        None \<Rightarrow> (l, w)
      | Some k \<Rightarrow>
          if l = None then (l, w)
          else (let label = (if phase = '''' then ''state'' else phase);
                    l = Printf (addresses_line label (lk_Name k) (addrList w (lk_Name k))) l; w = w @ [AddrList (lk_Name k)];
                    l = Printf (routes_line label (lk_Name k) (routeList w (lk_Name k))) l
                in (l, w @ [RouteList (lk_Name k)])))"

text \<open>
  These two are the steps \<^const>\<open>logInterfaceInventory\<close> and \<^const>\<open>logAppliedState\<close> of \<^verbatim>\<open>Configure\<close>, which
  always has a logger.
\<close>

lemma logInventory_step: "snd (logInventory lib (Some ls) w) = snd (logInterfaceInventory w)"
  by (simp add: logInventory_def logInterfaceInventory_def)

lemma logState_step: "snd (logState al rl (Some k) phase (Some ls) w) = snd (logAppliedState k w)"
  by (simp add: logState_def logAppliedState_def Let_def)

text \<open>The lines about the lease, from the details that are applied and from the result.\<close>

definition selected_line :: "link \<Rightarrow> string" where
  "selected_line l = ''networking: selected interface='' @ lk_Name l @ '' mac='' @ HardwareAddr_String (lk_HardwareAddr l) @
     '' mtu='' @ Itoa (lk_MTU l) @ '' oper='' @ lk_OperState l @ '' flags='' @ Join '','' (formatFlags (lk_Flags l))"

definition requesting_line :: "net_Config \<Rightarrow> string \<Rightarrow> string \<Rightarrow> string" where
  "requesting_line cfg name xid = ''networking: requesting DHCP lease on '' @ name @ '' xid='' @ xid @
     '' deadline='' @ Duration_String (dhcpDeadline cfg)"

definition fallback_line :: "(ip \<Rightarrow> string) \<Rightarrow> leaseDetails \<Rightarrow> string" where
  "fallback_line v6 d = ''networking: fallback address='' @ ld_CIDR d @ '' gateway='' @ IP_String v6 (ld_Gateway d) @
     '' dns='' @ Join '','' (stringifyIPs v6 (ld_DNSServers d))"

definition applying_line :: "(ip \<Rightarrow> string) \<Rightarrow> string \<Rightarrow> leaseDetails \<Rightarrow> string" where
  "applying_line v6 name d = ''networking: applying configuration on '' @ name @ '' cidr='' @ ld_CIDR d @
     '' gateway='' @ emptyIfBlank (IP_String v6 (ld_Gateway d)) ''<none>'' @
     '' dns='' @ emptyIfBlank (Join '','' (stringifyIPs v6 (ld_DNSServers d))) ''<none>''"

definition configured_line :: "net_Result \<Rightarrow> string" where
  "configured_line r = ''networking: configured '' @ nr_InterfaceName r @ '' with '' @ nr_CIDR r @
     '' gateway='' @ emptyIfBlank (nr_Gateway r) ''<none>'' @ '' dns='' @ emptyIfBlank (Join '','' (nr_DNSServers r)) ''<none>''"

text \<open>
  A missing gateway is never shown as \<^verbatim>\<open><none>\<close> while the configuration is applied: the text of a nil address is
  \<^verbatim>\<open><nil>\<close>, which is not blank.
\<close>

lemma applying_nil_gateway:
  "ld_Gateway d = [] \<Longrightarrow> applying_line v6 name d = ''networking: applying configuration on '' @ name @ '' cidr='' @ ld_CIDR d @
     '' gateway=<nil> dns='' @ emptyIfBlank (Join '','' (stringifyIPs v6 (ld_DNSServers d))) ''<none>''"
  by (simp add: applying_line_def emptyIfBlank_def IP_String_def)

section \<open>The logger of the SSH service\<close>

definition logf :: "string \<Rightarrow> logger \<Rightarrow> logger" where
  "logf msg l = (if l \<noteq> None then Printf msg l else l)"

section \<open>Instances\<close>

theorem logDHCPWait_ends_witness:
  "logDHCPWait (\<lambda>i. if i < 1 then Tick 5000400000 else RequestDone) ''eth0'' ''0x1'' (Some []) =
     Some (Some [''networking: still waiting for DHCP on eth0 xid=0x1 elapsed=5s''])"
proof -
  have "tick_line ''eth0'' ''0x1'' 5000400000 = ''networking: still waiting for DHCP on eth0 xid=0x1 elapsed=5s''"
    by (simp add: tick_line_def Round_ms_def Duration_String_def fraction_def TrimRight1_def digits.simps digit_char_def char_of_def bit_0)
  then show ?thesis
    using logDHCPWait_ends [of "\<lambda>i. if i < 1 then Tick 5000400000 else RequestDone" "''eth0''" "''0x1''" "[]"]
    by (auto dest: spec [of _ "1 :: nat"])
qed

end
