(* ===== verification/AIConcurrent.thy ===== *)
theory AIConcurrent
  imports AIRuntime
begin

text \<open>
  Sessions start concurrently, and each of them resolves the settings of its chat: it looks for the configuration
  directory and then sets \<^verbatim>\<open>XDG_CONFIG_HOME\<close> for the time of a library call, for the whole process. The call is guarded
  by a mutex, the search is not. Here the resolutions of any number of goroutines are interleaved at their
  accesses to the environment.
\<close>

section \<open>The steps of a resolution\<close>

text \<open>The candidates for the directory, by the environment each was read from.\<close>

definition stateCandidates :: "string \<Rightarrow> string list" where
  "stateCandidates stateRoot = (if TrimSpace stateRoot \<noteq> '''' then [Clean (Dir (TrimSpace stateRoot))] else [])"

definition xdgCandidates :: "environ \<Rightarrow> string list" where
  "xdgCandidates env =
     (if TrimSpace (getenv env ''XDG_CONFIG_HOME'') \<noteq> '''' then [Clean (TrimSpace (getenv env ''XDG_CONFIG_HOME''))] else [])"

definition userCandidates :: "environ \<Rightarrow> string list" where
  "userCandidates env = (case UserConfigDir env of Inr home \<Rightarrow> if TrimSpace home \<noteq> '''' then [Clean home] else [] | Inl _ \<Rightarrow> [])"

definition homeCandidates :: "(string option) result \<Rightarrow> string list" where
  "homeCandidates currentUser =
     (case currentUser of Inr (Some home) \<Rightarrow> if TrimSpace home \<noteq> '''' then [PathJoin [home, ''.config'']] else [] | _ \<Rightarrow> [])"

lemma configCandidates_parts:
  "configCandidates cu env root = stateCandidates root @ xdgCandidates env @ userCandidates env @ homeCandidates cu"
  by (simp add: configCandidates_def stateCandidates_def xdgCandidates_def userCandidates_def homeCandidates_def)

text \<open>
  The phases: \<open>Guessing\<close> has the candidate read from \<^verbatim>\<open>XDG_CONFIG_HOME\<close>, \<open>Chosen\<close> the directory; from \<open>Locked\<close> to
  \<open>Restored\<close> the mutex is held, \<open>Saved\<close> and the two after it have the value to restore.
\<close>

datatype 'set phase =
    Idle
  | Guessing "string list"
  | Chosen string
  | Locked string
  | Saved string "string option"
  | Resolving string "string option"
  | Called string "string option" "'set result"
  | Restored string "'set result"
  | Returned string "'set result"

record 'set resolvers =
  rv_st :: ai_st
  rv_owner :: "nat option"
  rv_phase :: "nat \<Rightarrow> 'set phase"

definition enter :: "nat \<Rightarrow> 'set phase \<Rightarrow> 'set resolvers \<Rightarrow> 'set resolvers" where
  "enter i p s = s\<lparr>rv_phase := (rv_phase s)(i := p)\<rparr>"

definition override :: "environ \<Rightarrow> string" where
  "override env = TrimSpace (getenv env ''GO_INIT_PINOCCHIO_CONFIG_HOME'')"

inductive resolve_step ::
  "os \<Rightarrow> ('set, 'any, 'mgr) profile_lib \<Rightarrow> string \<Rightarrow> 'set resolvers \<Rightarrow> 'set resolvers \<Rightarrow> bool" for os lib root where
  overridden: "resolve_step os lib root s (enter i (Chosen (override (a_env (rv_st s)))) s)"
    if "rv_phase s i = Idle" "override (a_env (rv_st s)) \<noteq> ''''"
| read_xdg: "resolve_step os lib root s (enter i (Guessing (xdgCandidates (a_env (rv_st s)))) s)"
    if "rv_phase s i = Idle" "override (a_env (rv_st s)) = ''''"
| guess: "resolve_step os lib root s (enter i (Chosen home) (s\<lparr>rv_st := st\<rparr>))"
    if "rv_phase s i = Guessing xs"
      "firstConfigHome os (stateCandidates root @ xs @ userCandidates (a_env (rv_st s)) @ homeCandidates (pl_CurrentUser lib)) (rv_st s) = (home, st)"
| lock: "resolve_step os lib root s (enter i (Locked home) (s\<lparr>rv_owner := Some i\<rparr>))"
    if "rv_phase s i = Chosen home" "home \<noteq> ''''" "rv_owner s = None"
| lookup: "resolve_step os lib root s (enter i (Saved home (a_env (rv_st s) ''XDG_CONFIG_HOME'')) s)"
    if "rv_phase s i = Locked home"
| set_fails: "resolve_step os lib root s (enter i (Restored home (Inl (wrap ''set XDG_CONFIG_HOME: '' e))) (s\<lparr>rv_st := st\<rparr>))"
    if "rv_phase s i = Saved home old" "Setenv ''XDG_CONFIG_HOME'' home (rv_st s) = (Some e, st)"
| set_env: "resolve_step os lib root s (enter i (Resolving home old) (s\<lparr>rv_st := st\<rparr>))"
    if "rv_phase s i = Saved home old" "Setenv ''XDG_CONFIG_HOME'' home (rv_st s) = (None, st)"
| call: "resolve_step os lib root s (enter i (Called home old (pl_BaseSettings lib (a_env (rv_st s)))) s)"
    if "rv_phase s i = Resolving home old"
| restore: "resolve_step os lib root s (enter i (Restored home r) (s\<lparr>rv_st := restoreConfigHome old (rv_st s)\<rparr>))"
    if "rv_phase s i = Called home old r"
| unlock: "resolve_step os lib root s (enter i (Returned home r) (s\<lparr>rv_owner := None\<rparr>))"
    if "rv_phase s i = Restored home r"

inductive_cases resolve_stepE: "resolve_step os lib root s s'"

section \<open>A resolution alone\<close>

text \<open>From the lock to the return, one goroutine that is not disturbed does what \<^const>\<open>resolveBaseStepSettings\<close> does.\<close>

lemma resolve_alone:
  assumes "rv_phase s i = Chosen home" "home \<noteq> ''''" "rv_owner s = None"
    and "resolveBaseStepSettings (pl_BaseSettings lib) home (rv_st s) = (r, st)"
  shows "(resolve_step os lib root)\<^sup>*\<^sup>* s (enter i (Returned home r) (s\<lparr>rv_st := st\<rparr>))"
proof -
  let ?old = "a_env (rv_st s) ''XDG_CONFIG_HOME''" and ?s = "s\<lparr>rv_owner := Some i\<rparr>"
  let ?a = "enter i (Locked home) ?s" and ?b = "enter i (Saved home ?old) ?s" and ?e = "enter i (Restored home r) (?s\<lparr>rv_st := st\<rparr>)"
  have 1: "resolve_step os lib root s ?a" using assms(1-3) by (rule lock)
  have 2: "resolve_step os lib root ?a ?b"
    using lookup [of ?a i home os lib root] by (simp add: enter_def)
  have "enter i (Returned home r) (?e\<lparr>rv_owner := None\<rparr>) = enter i (Returned home r) (s\<lparr>rv_st := st\<rparr>)"
    using assms(3) by (cases s) (simp add: enter_def)
  then have last: "resolve_step os lib root ?e (enter i (Returned home r) (s\<lparr>rv_st := st\<rparr>))"
    using unlock [of ?e i home r os lib root] by (simp add: enter_def)
  obtain f st1 where f: "Setenv ''XDG_CONFIG_HOME'' home (rv_st s) = (f, st1)" by fastforce
  have "(resolve_step os lib root)\<^sup>*\<^sup>* ?b ?e"
  proof (cases f)
    case (Some x)
    then show ?thesis
      using set_fails [of ?b i home ?old x st1 os lib root] f assms(4)
      by (intro r_into_rtranclp) (auto simp: enter_def resolveBaseStepSettings_def Let_def)
  next
    case None
    have r: "r = pl_BaseSettings lib (a_env st1)" "st = restoreConfigHome ?old st1"
      using f None assms(4) by (simp_all add: resolveBaseStepSettings_def Let_def)
    let ?c = "enter i (Resolving home ?old) (?s\<lparr>rv_st := st1\<rparr>)" and ?d = "enter i (Called home ?old r) (?s\<lparr>rv_st := st1\<rparr>)"
    have 3: "resolve_step os lib root ?b ?c"
      using set_env [of ?b i home ?old st1 os lib root] f None by (simp add: enter_def)
    have 4: "resolve_step os lib root ?c ?d" using call [of ?c i home ?old os lib root] r by (simp add: enter_def)
    have 5: "resolve_step os lib root ?d ?e" using restore [of ?d i home ?old r os lib root] r by (simp add: enter_def)
    show ?thesis using 3 4 5 by (meson converse_rtranclp_into_rtranclp rtranclp.rtrancl_refl)
  qed
  with 1 2 last show ?thesis
    by (meson converse_rtranclp_into_rtranclp rtranclp.rtrancl_into_rtrancl)
qed

section \<open>Resolutions do not disturb each other\<close>

definition temp_env :: "environ \<Rightarrow> string \<Rightarrow> environ" where
  "temp_env env home = env(''XDG_CONFIG_HOME'' \<mapsto> home)"

definition home_alone :: "os \<Rightarrow> (string option) result \<Rightarrow> string \<Rightarrow> ai_st \<Rightarrow> string" where
  "home_alone os currentUser root s =
     (if override (a_env s) \<noteq> [] then override (a_env s) else fst (guessConfigHome os currentUser root s))"

fun in_section :: "'set phase \<Rightarrow> bool" where
  "in_section (Locked _) = True"
| "in_section (Saved _ _) = True"
| "in_section (Resolving _ _) = True"
| "in_section (Called _ _ _) = True"
| "in_section (Restored _ _) = True"
| "in_section _ = False"

fun phase_ok :: "environ \<Rightarrow> string \<Rightarrow> 'set result \<Rightarrow> environ \<Rightarrow> 'set phase \<Rightarrow> bool" where
  "phase_ok env0 home res env Idle = True"
| "phase_ok env0 home res env (Guessing xs) =
     (override env0 = [] \<and> (xs = xdgCandidates env0 \<or> xs = xdgCandidates (temp_env env0 home)))"
| "phase_ok env0 home res env (Chosen h) = (h = home)"
| "phase_ok env0 home res env (Locked h) = (h = home \<and> env = env0)"
| "phase_ok env0 home res env (Saved h old) = (h = home \<and> old = env0 ''XDG_CONFIG_HOME'' \<and> env = env0)"
| "phase_ok env0 home res env (Resolving h old) = (h = home \<and> old = env0 ''XDG_CONFIG_HOME'' \<and> env = temp_env env0 home)"
| "phase_ok env0 home res env (Called h old r) =
     (h = home \<and> old = env0 ''XDG_CONFIG_HOME'' \<and> env = temp_env env0 home \<and> r = res)"
| "phase_ok env0 home res env (Restored h r) = (h = home \<and> env = env0 \<and> r = res)"
| "phase_ok env0 home res env (Returned h r) = (h = home \<and> r = res)"

definition resolvers_ok :: "environ \<Rightarrow> string \<Rightarrow> 'set result \<Rightarrow> 'set resolvers \<Rightarrow> bool" where
  "resolvers_ok env0 home res s =
     ((\<forall>i. phase_ok env0 home res (a_env (rv_st s)) (rv_phase s i)) \<and> (\<forall>i. in_section (rv_phase s i) \<longleftrightarrow> rv_owner s = Some i) \<and>
      (a_env (rv_st s) = env0 \<or> a_env (rv_st s) = temp_env env0 home \<and> rv_owner s \<noteq> None))"

lemma phase_ok_outside: "\<not> in_section p \<Longrightarrow> phase_ok env0 home res env p = phase_ok env0 home res env' p"
  by (cases p) auto

lemma getenv_temp [simp]: "getenv (temp_env env home) ''XDG_CONFIG_HOME'' = home"
  "override (temp_env env home) = override env"
  by (simp_all add: temp_env_def getenv_def override_def)

text \<open>A directory as the resolution finds it on any sensible system: absolute, clean, without blanks around it.\<close>

definition plain_dir :: "string \<Rightarrow> bool" where
  "plain_dir home = (IsAbs home \<and> Clean home = home \<and> TrimSpace home = home \<and> CHR 0x00 \<notin> set home)"

lemma plain_dir_nonempty: "plain_dir home \<Longrightarrow> home \<noteq> []"
  by (auto simp: plain_dir_def IsAbs_def HasPrefix_def)

lemma temp_candidates:
  assumes "plain_dir home"
  shows "xdgCandidates (temp_env env home) = [home]" "userCandidates (temp_env env home) = [home]"
  using assms plain_dir_nonempty [OF assms]
  by (simp_all add: plain_dir_def xdgCandidates_def userCandidates_def UserConfigDir_def)

lemma find_append: "find P (xs @ ys) = (case find P xs of None \<Rightarrow> find P ys | Some x \<Rightarrow> Some x)"
  by (induction xs) auto

text \<open>The search finds the same directory whichever of the two environments each of its reads saw.\<close>

lemma guess_same:
  assumes fs: "\<And>w p. os_Stat os w p = fs p" and d: "plain_dir home"
    and alone: "find (\<lambda>c. c \<noteq> [] \<and> has_config fs c) (configCandidates cu env0 root) = Some home"
    and xs: "xs = xdgCandidates env0 \<or> xs = xdgCandidates (temp_env env0 home)" and e: "e = env0 \<or> e = temp_env env0 home"
  shows "fst (firstConfigHome os (stateCandidates root @ xs @ userCandidates e @ homeCandidates cu) st) = home"
proof -
  have "home \<noteq> [] \<and> has_config fs home" using alone by (auto simp: find_Some_iff)
  then have "find (\<lambda>c. c \<noteq> [] \<and> has_config fs c) (stateCandidates root @ xs @ userCandidates e @ homeCandidates cu) = Some home"
    using alone xs e by (auto simp: configCandidates_parts find_append temp_candidates [OF d] split: option.splits)
  then show ?thesis using firstConfigHome_find [OF fs, where cs = "stateCandidates root @ xs @ userCandidates e @ homeCandidates cu"] by simp
qed

lemma home_alone_find:
  assumes fs: "\<And>w p. os_Stat os w p = fs p" and "home_alone os cu root s = home" "home \<noteq> []" "override (a_env s) = []"
  shows "find (\<lambda>c. c \<noteq> [] \<and> has_config fs c) (configCandidates cu (a_env s) root) = Some home"
  using assms(2-) firstConfigHome_find [OF fs, of "configCandidates cu (a_env s) root" s]
  by (auto simp: home_alone_def guessConfigHome_def split: option.splits)

lemma Setenv_temp:
  "plain_dir home \<Longrightarrow> \<exists>st1. Setenv ''XDG_CONFIG_HOME'' home st = (None, st1) \<and> a_env st1 = temp_env (a_env st) home"
  by (simp add: Setenv_def temp_env_def plain_dir_def)

lemma restore_temp:
  "env_ok env \<Longrightarrow> a_env u = temp_env env home \<Longrightarrow> a_env (restoreConfigHome (env ''XDG_CONFIG_HOME'') u) = env"
  by (cases "env ''XDG_CONFIG_HOME''")
     (auto simp: Setenv_def Unsetenv_def restoreConfigHome_def temp_env_def env_ok_def fun_upd_idem)

lemma resolve_step_ok:
  assumes fs: "\<And>w p. os_Stat os w p = fs p" and d: "plain_dir home" and env: "env_ok env0"
    and alone: "if override env0 \<noteq> [] then home = override env0
                else find (\<lambda>c. c \<noteq> [] \<and> has_config fs c) (configCandidates (pl_CurrentUser lib) env0 root) = Some home"
    and res: "res = pl_BaseSettings lib (temp_env env0 home)"
    and step: "resolve_step os lib root s s'" and inv: "resolvers_ok env0 home res s"
  shows "resolvers_ok env0 home res s'"
proof -
  have env_of: "a_env (rv_st s) = env0 \<or> a_env (rv_st s) = temp_env env0 home" using inv by (auto simp: resolvers_ok_def)
  then have ov: "override (a_env (rv_st s)) = override env0" by auto
  have ph: "phase_ok env0 home res (a_env (rv_st s)) (rv_phase s i)" for i using inv by (simp add: resolvers_ok_def)
  have sec: "in_section (rv_phase s i) \<longleftrightarrow> rv_owner s = Some i" for i using inv by (simp add: resolvers_ok_def)
  have keep: "resolvers_ok env0 home res (enter i p (s\<lparr>rv_st := st\<rparr>))"
    if "in_section p \<longleftrightarrow> in_section (rv_phase s i)" "phase_ok env0 home res (a_env st) p"
      "a_env st = a_env (rv_st s) \<or> rv_owner s = Some i \<and> (a_env st = env0 \<or> a_env st = temp_env env0 home)" for i p st
  proof -
    have "phase_ok env0 home res (a_env st) (rv_phase s j)" if "j \<noteq> i" for j
      using that ph [of j] sec [of j] phase_ok_outside [of "rv_phase s j" env0 home res] \<open>a_env st = _ \<or> _\<close> by fastforce
    then show ?thesis using inv that by (auto simp: resolvers_ok_def enter_def)
  qed
  have same: "s\<lparr>rv_st := rv_st s\<rparr> = s" by simp
  show ?thesis using step
  proof cases
    case (overridden i)
    then show ?thesis using keep [of "Chosen (override (a_env (rv_st s)))" i "rv_st s"] alone by (simp add: ov)
  next
    case (read_xdg i)
    then show ?thesis using keep [of "Guessing (xdgCandidates (a_env (rv_st s)))" i "rv_st s"] env_of by (auto simp: ov)
  next
    case (guess i xs h st)
    have "a_env st = a_env (rv_st s)" using firstConfigHome_looks [OF guess(3)] by (simp add: only_looks_def)
    moreover have "h = home"
      using guess ph [of i] alone guess_same [OF fs d, of "pl_CurrentUser lib" env0 root xs "a_env (rv_st s)" "rv_st s"] env_of
      by (auto split: if_splits)
    ultimately show ?thesis using keep [of "Chosen h" i st] guess(1,2) by simp
  next
    case (lock i h)
    then show ?thesis using inv ph [of i] by (auto simp: resolvers_ok_def enter_def)
  next
    case (lookup i h)
    then show ?thesis using keep [of "Saved h (a_env (rv_st s) ''XDG_CONFIG_HOME'')" i "rv_st s"] ph [of i] by auto
  next
    case (set_fails i h old e st)
    then show ?thesis using ph [of i] Setenv_temp [OF d, of "rv_st s"] by simp
  next
    case (set_env i h old st)
    then show ?thesis using ph [of i] Setenv_temp [OF d, of "rv_st s"] sec [of i] keep [of "Resolving h old" i st] by auto
  next
    case (call i h old)
    then show ?thesis using ph [of i] keep [of "Called h old (pl_BaseSettings lib (a_env (rv_st s)))" i "rv_st s"] res by simp
  next
    case (restore i h old r)
    then show ?thesis using ph [of i] sec [of i] restore_temp [OF env, of "rv_st s" home]
        keep [of "Restored h r" i "restoreConfigHome old (rv_st s)"] by simp
  next
    case (unlock i h r)
    then show ?thesis using inv ph [of i] sec [of i] by (auto simp: resolvers_ok_def enter_def)
  qed
qed

lemma resolvers_reachable:
  assumes fs: "\<And>w p. os_Stat os w p = fs p"
    and home: "home_alone os (pl_CurrentUser lib) root (rv_st s0) = home" "plain_dir home" and env: "env_ok (a_env (rv_st s0))"
    and init: "\<forall>i. rv_phase s0 i = Idle" "rv_owner s0 = None" and run: "(resolve_step os lib root)\<^sup>*\<^sup>* s0 s"
  shows "resolvers_ok (a_env (rv_st s0)) home (pl_BaseSettings lib (temp_env (a_env (rv_st s0)) home)) s"
  using run
proof (induction rule: rtranclp_induct)
  case base
  then show ?case using init by (simp add: resolvers_ok_def)
next
  case (step t u)
  have "if override (a_env (rv_st s0)) \<noteq> [] then home = override (a_env (rv_st s0))
    else find (\<lambda>c. c \<noteq> [] \<and> has_config fs c) (configCandidates (pl_CurrentUser lib) (a_env (rv_st s0)) root) = Some home"
    using home_alone_find [OF fs home(1) plain_dir_nonempty [OF home(2)]] home(1) by (auto simp: home_alone_def)
  from resolve_step_ok [OF fs home(2) env this refl step(2,3)] show ?case .
qed

lemma resolvers_progress:
  assumes ok: "resolvers_ok env0 home res s" and home: "home \<noteq> []" and i: "\<forall>h r. rv_phase s i \<noteq> Returned h r"
  shows "\<exists>s'. resolve_step os lib root s s'"
proof (cases "rv_owner s")
  case (Some j)
  then have "in_section (rv_phase s j)" using ok by (simp add: resolvers_ok_def)
  then show ?thesis
  proof (cases "rv_phase s j")
    case (Saved h old)
    obtain f st where "Setenv ''XDG_CONFIG_HOME'' h (rv_st s) = (f, st)" by fastforce
    with Saved show ?thesis by (cases f) (blast intro: set_fails set_env)+
  qed (auto intro: lookup call restore unlock)
next
  case None
  then have n: "\<not> in_section (rv_phase s i)" and p: "phase_ok env0 home res (a_env (rv_st s)) (rv_phase s i)"
    using ok unfolding resolvers_ok_def by (simp, blast)
  show ?thesis
  proof (cases "rv_phase s i")
    case Idle
    then show ?thesis by (cases "override (a_env (rv_st s)) = []") (blast intro: overridden read_xdg)+
  next
    case (Guessing xs)
    obtain h st where "firstConfigHome os (stateCandidates root @ xs @ userCandidates (a_env (rv_st s)) @ homeCandidates (pl_CurrentUser lib)) (rv_st s) = (h, st)"
      by fastforce
    with Guessing show ?thesis by (blast intro: guess)
  next
    case (Chosen h)
    then show ?thesis using p home None lock [of s i h] by auto
  qed (use n i in auto)
qed


section \<open>Instances\<close>

definition resolvers1 :: "unit resolvers" where
  "resolvers1 = \<lparr>rv_st = ai_st1, rv_owner = None, rv_phase = \<lambda>_. Idle\<rparr>"


end
