(* ===== verification/SSHApp.thy ===== *)
theory SSHApp
  imports Sqlite
begin

text \<open>
  The package \<^verbatim>\<open>internal/sshapp\<close>: configuration, the host key on disk, the SSH service with
  its session counters, and the text a session shows. Files are extracted from the trace of
  calls: \<open>files\<close> replays their effects, and a crash leaves what a prefix of the trace leaves.
  A call can fail at any point (\<open>hk_fault\<close>). The SSH server (\<^verbatim>\<open>wish\<close>), the listener and the key
  generator are parameters.
\<close>

section \<open>Configuration\<close>

definition defaultListenAddr :: string where "defaultListenAddr = '':2222''"

definition defaultHostKey :: string where "defaultHostKey = ''/var/lib/go-init/ssh/ssh_host_ed25519''"

definition defaultBanner :: string where "defaultBanner = ''qemu-go-init Wish SSH app''"

record ssh_Config =
  hk_Enabled :: bool
  hk_ListenAddr :: string
  hk_HostKeyPath :: string
  hk_RequirePTY :: bool
  hk_Banner :: string
  hk_IdleTimeout :: int
  hk_MaxTimeout :: int

definition stringEnv :: "environ \<Rightarrow> string \<Rightarrow> string \<Rightarrow> string" where
  "stringEnv env name fallback = (if getenv env name \<noteq> '''' then getenv env name else fallback)"

definition boolEnv :: "environ \<Rightarrow> string \<Rightarrow> bool \<Rightarrow> bool" where
  "boolEnv env name fallback =
     (let raw = getenv env name
      in if raw = '''' then fallback
         else case ParseBool raw of None \<Rightarrow> fallback | Some v \<Rightarrow> v)"

definition durationEnv :: "os \<Rightarrow> environ \<Rightarrow> string \<Rightarrow> int \<Rightarrow> int" where
  "durationEnv os env name fallback =
     (let raw = getenv env name
      in if raw = '''' then fallback
         else case os_ParseDuration os raw of None \<Rightarrow> fallback | Some v \<Rightarrow> v)"

definition LoadConfigFromEnv :: "os \<Rightarrow> environ \<Rightarrow> ssh_Config" where
  "LoadConfigFromEnv os env =
     \<lparr>hk_Enabled = boolEnv env ''GO_INIT_ENABLE_SSH'' True,
      hk_ListenAddr = stringEnv env ''GO_INIT_SSH_ADDR'' defaultListenAddr,
      hk_HostKeyPath = stringEnv env ''GO_INIT_SSH_HOST_KEY_PATH'' defaultHostKey,
      hk_RequirePTY = boolEnv env ''GO_INIT_SSH_REQUIRE_PTY'' True,
      hk_Banner = stringEnv env ''GO_INIT_SSH_BANNER'' defaultBanner,
      hk_IdleTimeout = durationEnv os env ''GO_INIT_SSH_IDLE_TIMEOUT'' 0,
      hk_MaxTimeout = durationEnv os env ''GO_INIT_SSH_MAX_TIMEOUT'' 0\<rparr>"

section \<open>Files\<close>

type_synonym disk = "string \<rightharpoonup> bytes \<times> file_mode"

record key_os =
  hk_fault :: "world \<Rightarrow> syscall \<Rightarrow> go_error option"
  hk_partial :: "world \<Rightarrow> nat"
  hk_TempName :: "world \<Rightarrow> string \<Rightarrow> string \<Rightarrow> string"
  hk_Keygen :: "world \<Rightarrow> string \<Rightarrow> (bytes \<times> string) result"
  hk_ParseRawPrivateKey :: "bytes \<Rightarrow> bool"

definition ErrNotExist_error :: "string \<Rightarrow> go_error" where
  "ErrNotExist_error p = \<lparr>err_text = ''open '' @ p @ '': no such file or directory'', err_chain = [ErrNotExist]\<rparr>"

text \<open>
  What a call does to the files: nothing when it fails, except that a failed write may have
  written a part. \<^verbatim>\<open>CreateTemp\<close> makes an empty file, \<^verbatim>\<open>Rename\<close> replaces its target in one step.
\<close>

definition effect :: "key_os \<Rightarrow> world \<Rightarrow> syscall \<Rightarrow> disk \<Rightarrow> disk" where
  "effect ko w e fs =
     (let ok = (hk_fault ko w e = None)
      in case e of
           CreateTemp dir pat \<Rightarrow> if ok then fs(hk_TempName ko w dir pat \<mapsto> ([], 0x180)) else fs
         | TempChmod t m \<Rightarrow> if ok then (case fs t of None \<Rightarrow> fs | Some (b, _) \<Rightarrow> fs(t \<mapsto> (b, m))) else fs
         | TempWrite t b \<Rightarrow>
             (case fs t of None \<Rightarrow> fs
              | Some (b0, m) \<Rightarrow> fs(t \<mapsto> (b0 @ (if ok then b else take (hk_partial ko w) b), m)))
         | Rename a b \<Rightarrow> if ok then (case fs a of None \<Rightarrow> fs | Some c \<Rightarrow> (fs(a := None))(b \<mapsto> c)) else fs
         | Remove p \<Rightarrow> if ok then fs(p := None) else fs
         | _ \<Rightarrow> fs)"

fun replay :: "key_os \<Rightarrow> world \<Rightarrow> world \<Rightarrow> disk \<Rightarrow> disk" where
  "replay ko w [] fs = fs"
| "replay ko w (e # es) fs = replay ko (w @ [e]) es (effect ko w e fs)"

text \<open>The files after the trace \<open>w\<close>, on a disk that held \<open>fs0\<close> before the first call.\<close>

definition files :: "key_os \<Rightarrow> disk \<Rightarrow> world \<Rightarrow> disk" where
  "files ko fs0 w = replay ko [] w fs0"

definition call :: "key_os \<Rightarrow> syscall \<Rightarrow> (go_error option) io" where
  "call ko e w = (hk_fault ko w e, w @ [e])"

definition readKey :: "key_os \<Rightarrow> disk \<Rightarrow> string \<Rightarrow> (bytes result) io" where
  "readKey ko fs0 p w =
     (case call ko (ReadFile p) w of
        (Some e, w') \<Rightarrow> (Inl e, w')
      | (None, w') \<Rightarrow> (case files ko fs0 w p of None \<Rightarrow> Inl (ErrNotExist_error p) | Some (b, _) \<Rightarrow> Inr b, w'))"

section \<open>The host key\<close>

definition hostKeyValid :: "key_os \<Rightarrow> disk \<Rightarrow> string \<Rightarrow> (bool result) io" where
  "hostKeyValid ko fs0 path w =
     (case readKey ko fs0 path w of
        (Inl e, w) \<Rightarrow> (if errors_is e ErrNotExist then Inr False else Inl e, w)
      | (Inr data, w) \<Rightarrow>
          (if data = [] then Inr False else if \<not> hk_ParseRawPrivateKey ko data then Inr False else Inr True, w))"

definition writeAtomic :: "key_os \<Rightarrow> string \<Rightarrow> bytes \<Rightarrow> file_mode \<Rightarrow> (go_error option) io" where
  "writeAtomic ko path data mode w =
     (let dir = Dir path; pat = Base path @ ''.tmp-*'';
          temp = hk_TempName ko w dir pat
      in case call ko (CreateTemp dir pat) w of
           (Some e, w) \<Rightarrow> (Some e, w)
         | (None, w) \<Rightarrow>
             (case (case call ko (TempChmod temp mode) w of
                (Some e, w) \<Rightarrow> (Some e, snd (call ko (TempClose temp) w))
              | (None, w) \<Rightarrow>
                  (case call ko (TempWrite temp data) w of
                     (Some e, w) \<Rightarrow> (Some e, snd (call ko (TempClose temp) w))
                   | (None, w) \<Rightarrow>
                       (case call ko (TempSync temp) w of
                          (Some e, w) \<Rightarrow> (Some e, snd (call ko (TempClose temp) w))
                        | (None, w) \<Rightarrow>
                            (case call ko (TempClose temp) w of
                               (Some e, w) \<Rightarrow> (Some e, w)
                             | (None, w) \<Rightarrow>
                                 (case call ko (Rename temp path) w of
                                    (Some e, w) \<Rightarrow> (Some e, w)
                                  | (None, w) \<Rightarrow>
                                      (case call ko (OpenFile dir) w of
                                         (Some e, w) \<Rightarrow> (Some e, w)
                                       | (None, w) \<Rightarrow>
                                           (case call ko (SyncFile dir) w of
                                              (r, w) \<Rightarrow> (r, snd (call ko (CloseFile dir) w))))))))) of
                (r, w) \<Rightarrow> (r, snd (call ko (Remove temp) w))))"

definition ensureHostKey :: "key_os \<Rightarrow> disk \<Rightarrow> string \<Rightarrow> (go_error option) io" where
  "ensureHostKey ko fs0 path w =
     (case call ko (MkdirAll (Dir path) 0x1C0) w of
        (Some e, w) \<Rightarrow> (Some e, w)
      | (None, w) \<Rightarrow>
     (case call ko (Chmod (Dir path) 0x1C0) w of
        (Some e, w) \<Rightarrow> (Some e, w)
      | (None, w) \<Rightarrow>
     (case hostKeyValid ko fs0 path w of
        (Inl e, w) \<Rightarrow> (Some e, w)
      | (Inr valid, w) \<Rightarrow>
          if valid then (None, w)
          else (case call ko (Remove path) w of (_, w) \<Rightarrow>
               (case call ko (Remove (path @ ''.pub'')) w of (_, w) \<Rightarrow>
               (case hk_Keygen ko w path of
                  Inl e \<Rightarrow> (Some e, w @ [KeygenNew path])
                | Inr (private, authorized) \<Rightarrow>
                    (case writeAtomic ko path private 0x180 (w @ [KeygenNew path]) of
                       (Some e, w) \<Rightarrow> (Some e, w)
                     | (None, w) \<Rightarrow>
                         (let pub = TrimSpace authorized @ [CHR 0x0A]
                          in case writeAtomic ko (path @ ''.pub'') pub 0x180 w of
                               (Some e, w) \<Rightarrow> (Some e, w)
                             | (None, w) \<Rightarrow>
                                 (case hostKeyValid ko fs0 path w of
                                    (Inl e, w) \<Rightarrow> (Some e, w)
                                  | (Inr valid, w) \<Rightarrow>
                                      if \<not> valid then (Some (errorf (''generated host key at '' @ path @ '' is not readable'')), w)
                                      else (None, w))))))))))"

definition fileExists :: "key_os \<Rightarrow> disk \<Rightarrow> string \<Rightarrow> bool io" where
  "fileExists ko fs0 path w =
     (if path = '''' then (False, w)
      else (case call ko (Stat path) w of (r, w') \<Rightarrow> (r = None \<and> files ko fs0 w path \<noteq> None, w')))"

section \<open>Crash safety of writeAtomic\<close>

lemma replay_append: "replay ko w (a @ b) fs = replay ko (w @ a) b (replay ko w a fs)"
  by (induction a arbitrary: w fs) auto

lemma files_append: "files ko fs0 (w @ es) = replay ko w es (files ko fs0 w)"
  by (simp add: files_def replay_append)

text \<open>A property of the files at every point of a trace, before and after each call.\<close>

fun along :: "(disk \<Rightarrow> bool) \<Rightarrow> key_os \<Rightarrow> world \<Rightarrow> world \<Rightarrow> disk \<Rightarrow> bool" where
  "along P ko w [] fs = P fs"
| "along P ko w (e # es) fs = (P fs \<and> along P ko (w @ [e]) es (effect ko w e fs))"

lemma along_prefix: "along P ko w es fs \<Longrightarrow> P (replay ko w (take n es) fs)"
proof (induction es arbitrary: w fs n)
  case (Cons e es)
  then show ?case by (cases n) auto
qed simp

text \<open>
  Documented of \<^verbatim>\<open>os.CreateTemp\<close>: the name of the file is the pattern, which has no path
  separator, with its star replaced.
\<close>

definition temp_ok :: "key_os \<Rightarrow> bool" where
  "temp_ok ko = (\<forall>w dir p. slash \<notin> set p \<longrightarrow> (\<exists>r. Base (hk_TempName ko w dir (p @ ''*'')) = p @ r))"

lemma temp_not_path:
  assumes "temp_ok ko" "slash \<notin> set (Base path)"
  shows "hk_TempName ko w (Dir path) (Base path @ ''.tmp-*'') \<noteq> path"
proof
  let ?t = "hk_TempName ko w (Dir path) (Base path @ ''.tmp-*'')"
  assume "?t = path"
  have "Base path @ ''.tmp-*'' = (Base path @ ''.tmp-'') @ ''*''" by simp
  moreover have "slash \<notin> set (Base path @ ''.tmp-'')" using assms(2) by simp
  ultimately obtain r where "Base ?t = (Base path @ ''.tmp-'') @ r" using assms(1) unfolding temp_ok_def by metis
  with \<open>?t = path\<close> show False by simp
qed

text \<open>At every point the path holds the old file or the new one, and no other file but the temporary changes.\<close>

definition old_or_new :: "disk \<Rightarrow> string \<Rightarrow> string \<Rightarrow> bytes \<times> file_mode \<Rightarrow> disk \<Rightarrow> bool" where
  "old_or_new old path temp new fs =
     ((fs path = old path \<or> fs path = Some new) \<and> (\<forall>p. p \<noteq> path \<and> p \<noteq> temp \<longrightarrow> fs p = old p))"

definition temp_only :: "string \<Rightarrow> syscall \<Rightarrow> bool" where
  "temp_only temp e = (case e of TempChmod t _ \<Rightarrow> t = temp | TempWrite t _ \<Rightarrow> t = temp | TempSync _ \<Rightarrow> True
     | TempClose _ \<Rightarrow> True | OpenFile _ \<Rightarrow> True | SyncFile _ \<Rightarrow> True | CloseFile _ \<Rightarrow> True | Remove p \<Rightarrow> p = temp | _ \<Rightarrow> False)"

lemma effect_temp_only: "temp_only temp e \<Longrightarrow> p \<noteq> temp \<Longrightarrow> effect ko w e fs p = fs p"
  by (auto simp: temp_only_def effect_def Let_def split: syscall.splits option.splits)

lemma old_or_new_eq: "(\<And>p. p \<noteq> temp \<Longrightarrow> fs' p = fs p) \<Longrightarrow> temp \<noteq> path \<Longrightarrow>
   old_or_new old path temp new fs' = old_or_new old path temp new fs"
  by (simp add: old_or_new_def)

lemma along_temp_only:
  assumes "temp \<noteq> path" "list_all (temp_only temp) es" "old_or_new old path temp new fs"
  shows "along (old_or_new old path temp new) ko w es fs \<and> replay ko w es fs path = fs path"
  using assms(2,3)
proof (induction es arbitrary: w fs)
  case (Cons e es)
  then have "temp_only temp e" by simp
  then have e: "effect ko w e fs p = fs p" if "p \<noteq> temp" for p using that by (rule effect_temp_only)
  then have "old_or_new old path temp new (effect ko w e fs)"
    using Cons.prems(2) old_or_new_eq [OF e assms(1)] by simp
  from Cons.IH [OF _ this] Cons.prems e assms(1) show ?case by auto
qed simp

lemma along_append: "along P ko w (a @ b) fs \<longleftrightarrow> along P ko w a fs \<and> along P ko (w @ a) b (replay ko w a fs)"
proof (induction a arbitrary: w fs)
  case Nil
  then show ?case by (cases b) auto
qed auto

text \<open>
  The trace of \<^verbatim>\<open>writeAtomic\<close>: either it fails without a rename, or the temporary file was made,
  given its mode, written in full, synced and closed before the rename.
\<close>

definition before_rename :: "string \<Rightarrow> string \<Rightarrow> bytes \<Rightarrow> file_mode \<Rightarrow> world" where
  "before_rename temp path data mode =
     [CreateTemp (Dir path) (Base path @ ''.tmp-*''), TempChmod temp mode, TempWrite temp data, TempSync temp, TempClose temp]"

fun no_faults :: "key_os \<Rightarrow> world \<Rightarrow> world \<Rightarrow> bool" where
  "no_faults ko w [] = True"
| "no_faults ko w (e # es) = (hk_fault ko w e = None \<and> no_faults ko (w @ [e]) es)"

lemma writeAtomic_trace:
  assumes w: "writeAtomic ko path data mode w = (r, w')"
    and t: "temp = hk_TempName ko w (Dir path) (Base path @ ''.tmp-*'')"
  shows "(r \<noteq> None \<and> w' = w @ [CreateTemp (Dir path) (Base path @ ''.tmp-*'')]
            \<and> hk_fault ko w (CreateTemp (Dir path) (Base path @ ''.tmp-*'')) \<noteq> None) \<or>
     (\<exists>es. r \<noteq> None \<and> w' = w @ CreateTemp (Dir path) (Base path @ ''.tmp-*'') # es \<and> list_all (temp_only temp) es) \<or>
     (\<exists>b. w' = w @ before_rename temp path data mode @ Rename temp path # b \<and> list_all (temp_only temp) b \<and>
        no_faults ko w (before_rename temp path data mode) \<and>
        (r = None \<longrightarrow> hk_fault ko (w @ before_rename temp path data mode) (Rename temp path) = None))"
  using w
  by (simp add: writeAtomic_def call_def Let_def t [symmetric] before_rename_def temp_only_def split: option.splits)
     (auto simp: temp_only_def)

lemma before_rename_effect:
  assumes nf: "no_faults ko w (before_rename temp path data mode)"
    and t: "temp = hk_TempName ko w (Dir path) (Base path @ ''.tmp-*'')" "temp \<noteq> path"
  shows "replay ko w (before_rename temp path data mode) fs temp = Some (data, mode)"
    "p \<noteq> temp \<Longrightarrow> replay ko w (before_rename temp path data mode) fs p = fs p"
  using nf t(2) by (simp_all add: before_rename_def effect_def Let_def t(1) [symmetric])

lemma old_or_new_refl: "old_or_new fs path temp new fs"
  by (simp add: old_or_new_def)

lemma CreateTemp_along:
  assumes "temp = hk_TempName ko w dir pat" "temp \<noteq> path"
  shows "old_or_new fs path temp new (effect ko w (CreateTemp dir pat) fs)"
  using assms by (simp add: old_or_new_def effect_def Let_def)

lemma writeAtomic_along:
  assumes w: "writeAtomic ko path data mode w = (r, w')"
    and t: "temp = hk_TempName ko w (Dir path) (Base path @ ''.tmp-*'')" "temp \<noteq> path"
  shows "\<exists>es. w' = w @ es \<and> along (old_or_new fs path temp (data, mode)) ko w es fs \<and>
     (r = None \<longrightarrow> replay ko w es fs path = Some (data, mode))"
proof -
  let ?c = "CreateTemp (Dir path) (Base path @ ''.tmp-*'')" and ?P = "old_or_new fs path temp (data, mode)"
  note cr = CreateTemp_along [OF t, of fs "(data, mode)"]
  from writeAtomic_trace [OF w t(1)] consider (none) "r \<noteq> None" "w' = w @ [?c]"
    | (failed) es where "r \<noteq> None" "w' = w @ ?c # es" "list_all (temp_only temp) es"
    | (renamed) b where "w' = w @ before_rename temp path data mode @ Rename temp path # b" "list_all (temp_only temp) b"
        "no_faults ko w (before_rename temp path data mode)"
        "r = None \<longrightarrow> hk_fault ko (w @ before_rename temp path data mode) (Rename temp path) = None"
    by blast
  then show ?thesis
  proof cases
    case none
    then show ?thesis using cr old_or_new_refl by (intro exI [of _ "[?c]"]) auto
  next
    case (failed es)
    then show ?thesis using cr old_or_new_refl along_temp_only [OF t(2) failed(3) cr, of ko "w @ [?c]"]
      by (intro exI [of _ "?c # es"]) auto
  next
    case (renamed b)
    let ?a = "before_rename temp path data mode"
    let ?w1 = "w @ ?a" and ?f1 = "replay ko w ?a fs"
    obtain a2 where a2: "?a = ?c # a2" "list_all (temp_only temp) a2" by (simp add: before_rename_def temp_only_def)
    have al: "along ?P ko w ?a fs"
      using along_temp_only [OF t(2) a2(2) cr, of ko "w @ [?c]"] old_or_new_refl unfolding a2(1) by simp
    note f1 = before_rename_effect(1) [OF renamed(3) t, of fs] before_rename_effect(2) [OF renamed(3) t, of _ fs]
    let ?f2 = "effect ko ?w1 (Rename temp path) ?f1"
    have p2: "?P ?f2" and new: "r = None \<longrightarrow> ?f2 path = Some (data, mode)"
      using f1 t(2) renamed(4) by (auto simp: old_or_new_def effect_def Let_def)
    note b = along_temp_only [OF t(2) renamed(2) p2, of ko "?w1 @ [Rename temp path]"]
    have "?P ?f1" using f1 t(2) by (simp add: old_or_new_def)
    with al b new show ?thesis unfolding renamed(1)
      by (intro exI [of _ "?a @ Rename temp path # b"]) (auto simp: along_append replay_append)
  qed
qed

text \<open>
  C4. \<^verbatim>\<open>writeAtomic\<close> is atomic and survives a crash or a failure at any point: after any prefix of
  its calls the path holds the file it held before or the complete new one with its mode,
  and no other file but the temporary one has changed. When it returns without an error the
  path holds the new file.
\<close>

theorem writeAtomic_atomic:
  assumes "temp_ok ko" "slash \<notin> set (Base path)" and "writeAtomic ko path data mode w = (r, w')"
  shows "\<exists>es. w' = w @ es \<and>
     (\<forall>n. old_or_new (files ko fs0 w) path (hk_TempName ko w (Dir path) (Base path @ ''.tmp-*'')) (data, mode)
            (files ko fs0 (w @ take n es))) \<and>
     (r = None \<longrightarrow> files ko fs0 w' path = Some (data, mode))"
proof -
  from writeAtomic_along [OF assms(3) refl temp_not_path [OF assms(1,2)], of "files ko fs0 w"] obtain es where
    "w' = w @ es" "along (old_or_new (files ko fs0 w) path (hk_TempName ko w (Dir path) (Base path @ ''.tmp-*'')) (data, mode))
       ko w es (files ko fs0 w)" "r = None \<longrightarrow> replay ko w es (files ko fs0 w) path = Some (data, mode)" by blast
  then show ?thesis by (auto simp: files_append along_prefix)
qed

text \<open>
  Before the rename that publishes it, the new file has been written in full, synced and
  closed, with none of these calls failing.
\<close>

theorem writeAtomic_durable:
  assumes "writeAtomic ko path data mode w = (r, w @ es)"
    and "Rename (hk_TempName ko w (Dir path) (Base path @ ''.tmp-*'')) path \<in> set es"
  shows "prefix (before_rename (hk_TempName ko w (Dir path) (Base path @ ''.tmp-*'')) path data mode) es \<and>
     no_faults ko w (before_rename (hk_TempName ko w (Dir path) (Base path @ ''.tmp-*'')) path data mode)"
proof -
  let ?t = "hk_TempName ko w (Dir path) (Base path @ ''.tmp-*'')"
  have "\<not> temp_only ?t (Rename ?t path)" by (simp add: temp_only_def)
  with writeAtomic_trace [OF assms(1) refl] assms(2) show ?thesis
    by (auto simp: list_all_iff prefix_def)
qed

section \<open>The host key is kept or made\<close>

lemma hostKeyValid_true:
  assumes "hostKeyValid ko fs0 path w = (Inr True, w')"
  shows "w' = w @ [ReadFile path] \<and> (\<exists>b m. files ko fs0 w path = Some (b, m) \<and> b \<noteq> [] \<and> hk_ParseRawPrivateKey ko b)"
  using assms by (auto simp: hostKeyValid_def readKey_def call_def split: option.splits prod.splits sum.splits if_splits)

lemma files_quiet: "effect ko w e (files ko fs0 w) = files ko fs0 w \<Longrightarrow> files ko fs0 (w @ [e]) = files ko fs0 w"
  by (simp add: files_append)

lemma effect_no_file [simp]: "effect ko w (ReadFile p) fs = fs" "effect ko w (MkdirAll p m) fs = fs"
  "effect ko w (Chmod p m) fs = fs" "effect ko w (Stat p) fs = fs" "effect ko w (KeygenNew p) fs = fs"
  by (simp_all add: effect_def)

definition key_at :: "key_os \<Rightarrow> disk \<Rightarrow> string \<Rightarrow> bool" where
  "key_at ko fs path = (case fs path of None \<Rightarrow> False | Some (b, m) \<Rightarrow> b \<noteq> [] \<and> hk_ParseRawPrivateKey ko b)"

lemma hostKeyValid_kept:
  assumes "key_at ko (files ko fs0 w) path" "\<And>e. hk_fault ko w (ReadFile path) = Some e \<Longrightarrow> \<not> errors_is e ErrNotExist"
  shows "(\<exists>e. hostKeyValid ko fs0 path w = (Inl e, w @ [ReadFile path])) \<or>
     hostKeyValid ko fs0 path w = (Inr True, w @ [ReadFile path])"
  using assms by (auto simp: hostKeyValid_def readKey_def call_def key_at_def split: option.splits)

text \<open>
  C10. When \<^verbatim>\<open>ensureHostKey\<close> succeeds, the file at the path is a private key that parses. A key
  that is already there and parses is never replaced, removed or rewritten: no call that
  changes a file is made at all (given that reading a file that exists does not fail with
  \<^verbatim>\<open>ErrNotExist\<close>).
\<close>

theorem ensureHostKey_spec:
  assumes "ensureHostKey ko fs0 path w = (r, w')"
    and "\<And>v e. hk_fault ko v (ReadFile path) = Some e \<Longrightarrow> \<not> errors_is e ErrNotExist"
  shows "(r = None \<longrightarrow> key_at ko (files ko fs0 w') path) \<and>
     (key_at ko (files ko fs0 w) path \<longrightarrow> files ko fs0 w' = files ko fs0 w \<and>
        prefix w' (w @ [MkdirAll (Dir path) 0x1C0, Chmod (Dir path) 0x1C0, ReadFile path]))"
proof
  have v: "key_at ko (files ko fs0 w2) path" if "hostKeyValid ko fs0 path w1 = (Inr True, w2)" for w1 w2
    using hostKeyValid_true [OF that] by (auto simp: files_append key_at_def)
  show "r = None \<longrightarrow> key_at ko (files ko fs0 w') path"
    using assms(1) v
    by (auto simp: ensureHostKey_def call_def Let_def split: option.splits prod.splits sum.splits if_splits)
  show "key_at ko (files ko fs0 w) path \<longrightarrow> files ko fs0 w' = files ko fs0 w \<and>
        prefix w' (w @ [MkdirAll (Dir path) 0x1C0, Chmod (Dir path) 0x1C0, ReadFile path])"
  proof
    let ?a = "MkdirAll (Dir path) 0x1C0" and ?b = "Chmod (Dir path) 0x1C0"
    assume "key_at ko (files ko fs0 w) path"
    then have "key_at ko (files ko fs0 (w @ [?a, ?b])) path" by (simp add: files_append)
    from hostKeyValid_kept [OF this assms(2) [of "w @ [?a, ?b]"]] obtain h where
      "hostKeyValid ko fs0 path (w @ [?a, ?b]) = (h, w @ [?a, ?b, ReadFile path])" "(\<exists>e. h = Inl e) \<or> h = Inr True"
      by auto
    with assms(1) show "files ko fs0 w' = files ko fs0 w \<and> prefix w' (w @ [?a, ?b, ReadFile path])"
      by (auto simp: ensureHostKey_def call_def files_append split: option.splits)
  qed
qed

section \<open>Service\<close>

definition authModeNone :: string where "authModeNone = ''none''"

record ssh_Snapshot =
  ss_Hostname :: string
  ss_PID :: int
  ss_HTTPAddress :: string
  ss_NetworkMethod :: string
  ss_NetworkInterface :: string
  ss_NetworkAddress :: string
  ss_NetworkConfigured :: bool
  ss_EntropyAvail :: int
  ss_EntropyKnown :: bool
  ss_VirtioRNGVisible :: bool

record ssh_Status =
  su_Enabled :: bool
  su_Started :: bool
  su_ListenAddr :: string
  su_HostKeyPath :: string
  su_HostKeyPresent :: bool
  su_RequirePTY :: bool
  su_AuthMode :: string
  su_StartedAt :: string
  su_Uptime :: string
  su_ActiveSessions :: "64 word"
  su_TotalSessions :: "64 word"
  su_Error :: string

datatype middleware = LoggingMiddleware | AppMiddleware nat | SessionMiddleware | ActiveTermMiddleware

datatype ssh_option = WithHostKeyPath string | WithMiddleware "middleware list" | WithBanner string
  | WithIdleTimeout int | WithMaxTimeout int

record Service =
  sv_cfg :: ssh_Config
  sv_server :: "(ssh_option list) option"
  sv_listener :: "string option"
  sv_active :: "64 word"
  sv_total :: "64 word"
  sv_started :: bool
  sv_startedAt :: int
  sv_hostKey :: bool
  sv_errText :: string

record ssh_lib =
  sl_NewServer :: "ssh_option list \<Rightarrow> go_error option"
  sl_Listen :: "world \<Rightarrow> string \<Rightarrow> string result"
  sl_Shutdown :: "go_error option"
  sl_FormatTime :: "int \<Rightarrow> string"
  sl_Uptime :: "int \<Rightarrow> string"

definition middlewares :: "ssh_Config \<Rightarrow> middleware list \<Rightarrow> middleware list" where
  "middlewares cfg appMiddlewares =
     (let ms = [LoggingMiddleware];
          ms = (if 0 < length appMiddlewares then ms @ appMiddlewares else ms @ [SessionMiddleware])
      in if hk_RequirePTY cfg then ms @ [ActiveTermMiddleware] else ms)"

definition server_options :: "ssh_Config \<Rightarrow> middleware list \<Rightarrow> ssh_option list" where
  "server_options cfg appMiddlewares =
     [WithHostKeyPath (hk_HostKeyPath cfg), WithMiddleware (middlewares cfg appMiddlewares)] @
     (if hk_Banner cfg \<noteq> '''' then [WithBanner (hk_Banner cfg)] else []) @
     (if 0 < hk_IdleTimeout cfg then [WithIdleTimeout (hk_IdleTimeout cfg)] else []) @
     (if 0 < hk_MaxTimeout cfg then [WithMaxTimeout (hk_MaxTimeout cfg)] else [])"

definition Start ::
  "os \<Rightarrow> key_os \<Rightarrow> disk \<Rightarrow> ssh_lib \<Rightarrow> ssh_Config \<Rightarrow> middleware list \<Rightarrow> (Service result) io" where
  "Start os ko fs0 lib cfg appMiddlewares w =
     (let service = \<lparr>sv_cfg = cfg, sv_server = None, sv_listener = None, sv_active = 0, sv_total = 0,
            sv_started = False, sv_startedAt = 0, sv_hostKey = False, sv_errText = ''''\<rparr>
      in if \<not> hk_Enabled cfg then (Inr service, w)
         else (case ensureHostKey ko fs0 (hk_HostKeyPath cfg) w of
                 (Some e, w) \<Rightarrow> (Inl (wrap ''ensure ssh host key: '' e), w)
               | (None, w) \<Rightarrow>
                   (let options = server_options cfg appMiddlewares
                    in case sl_NewServer lib options of
                         Some e \<Rightarrow> (Inl (wrap ''create wish server: '' e), w)
                       | None \<Rightarrow>
                           (case fileExists ko fs0 (hk_HostKeyPath cfg) w of (present, w) \<Rightarrow>
                             (let service = service\<lparr>sv_server := Some options, sv_hostKey := present\<rparr>
                              in case sl_Listen lib w (hk_ListenAddr cfg) of
                                   Inl e \<Rightarrow> (Inl (wrap (''listen on '' @ hk_ListenAddr cfg @ '': '') e), w)
                                 | Inr addr \<Rightarrow>
                                     (case now os w of (t, w) \<Rightarrow>
                                       (Inr (service\<lparr>sv_listener := Some addr, sv_started := True, sv_startedAt := t\<rparr>), w)))))))"

definition Status :: "os \<Rightarrow> ssh_lib \<Rightarrow> Service \<Rightarrow> ssh_Status io" where
  "Status os lib s w =
     (let status = \<lparr>su_Enabled = hk_Enabled (sv_cfg s), su_Started = sv_started s, su_ListenAddr = '''',
            su_HostKeyPath = hk_HostKeyPath (sv_cfg s), su_HostKeyPresent = sv_hostKey s,
            su_RequirePTY = hk_RequirePTY (sv_cfg s), su_AuthMode = authModeNone, su_StartedAt = '''', su_Uptime = '''',
            su_ActiveSessions = sv_active s, su_TotalSessions = sv_total s, su_Error = sv_errText s\<rparr>;
          status = (case sv_listener s of Some a \<Rightarrow> status\<lparr>su_ListenAddr := a\<rparr>
                    | None \<Rightarrow> status\<lparr>su_ListenAddr := hk_ListenAddr (sv_cfg s)\<rparr>)
      in if sv_started s
         then (case now os w of (t, w) \<Rightarrow>
                (status\<lparr>su_StartedAt := sl_FormatTime lib (sv_startedAt s), su_Uptime := sl_Uptime lib (t - sv_startedAt s)\<rparr>, w))
         else (status, w))"

definition Shutdown :: "ssh_lib \<Rightarrow> Service \<Rightarrow> go_error option" where
  "Shutdown lib s =
     (if sv_server s = None then None
      else case sl_Shutdown lib of
             None \<Rightarrow> None | Some e \<Rightarrow> if errors_is e SSHServerClosed then None else Some e)"

definition setError :: "go_error option \<Rightarrow> Service \<Rightarrow> Service" where
  "setError e s = (case e of None \<Rightarrow> s\<lparr>sv_errText := ''''\<rparr> | Some e \<Rightarrow> s\<lparr>sv_errText := err_text e\<rparr>)"

text \<open>\<open>result\<close> is what the server's \<^verbatim>\<open>Serve\<close> returned.\<close>

definition serve :: "go_error option \<Rightarrow> Service \<Rightarrow> Service" where
  "serve result s =
     (if sv_server s = None \<or> sv_listener s = None then s
      else case result of
             None \<Rightarrow> s | Some e \<Rightarrow> if errors_is e SSHServerClosed then s else setError (Some e) s)"

section \<open>Session text\<close>

definition fallback :: "string \<Rightarrow> string \<Rightarrow> string" where
  "fallback value alternate = (if value = '''' then alternate else value)"

definition renderBool :: "bool \<Rightarrow> string" where
  "renderBool value = (if value then ''yes'' else ''no'')"

definition renderEntropy :: "int \<Rightarrow> bool \<Rightarrow> string" where
  "renderEntropy value known = (if \<not> known then ''unknown'' else Itoa value)"

definition renderInt :: "int \<Rightarrow> string" where
  "renderInt value = (if value = 0 then ''unknown'' else Itoa value)"

record ssh_session =
  se_User :: string
  se_RemoteAddr :: string
  se_Command :: "string list"
  se_Pty :: "(string \<times> int \<times> int) option"

definition renderSession :: "ssh_session \<Rightarrow> ssh_Snapshot option \<Rightarrow> ssh_Status \<Rightarrow> string" where
  "renderSession session snapshotFn status =
     (let sn = (case snapshotFn of Some s \<Rightarrow> s | None \<Rightarrow>
            \<lparr>ss_Hostname = '''', ss_PID = 0, ss_HTTPAddress = '''', ss_NetworkMethod = '''', ss_NetworkInterface = '''',
             ss_NetworkAddress = '''', ss_NetworkConfigured = False, ss_EntropyAvail = 0, ss_EntropyKnown = False,
             ss_VirtioRNGVisible = False\<rparr>);
          line = (\<lambda>s. s @ LF)
      in line ''qemu-go-init / wish'' @ line ''==================='' @ line ''This guest is a single Go PID 1 runtime.'' @
         line ''It exposes an SSH app, not a general shell.'' @ LF @
         line ''Runtime'' @
         line (''  host: '' @ fallback (ss_Hostname sn) ''unknown'') @
         line (''  pid: '' @ renderInt (ss_PID sn)) @
         line (''  ssh: '' @ fallback (su_ListenAddr status) ''unknown'') @
         line (''  http: '' @ fallback (ss_HTTPAddress sn) ''disabled'') @
         LF @ line ''Network'' @
         (if ss_NetworkConfigured sn
          then line (''  interface: '' @ fallback (ss_NetworkInterface sn) ''unknown'') @
               line (''  address: '' @ fallback (ss_NetworkAddress sn) ''unknown'') @
               line (''  method: '' @ fallback (ss_NetworkMethod sn) ''unknown'')
          else line (''  status: pending ('' @ fallback (ss_NetworkMethod sn) ''unknown'' @ '')'')) @
         LF @ line ''Entropy'' @
         line (''  available: '' @ renderEntropy (ss_EntropyAvail sn) (ss_EntropyKnown sn)) @
         line (''  virtio-rng: '' @ renderBool (ss_VirtioRNGVisible sn)) @
         LF @ line ''Session'' @
         line (''  user: '' @ fallback (se_User session) ''unknown'') @
         line (''  remote: '' @ se_RemoteAddr session) @
         line (''  pty-required: '' @ renderBool (su_RequirePTY status)) @
         line (''  command: ['' @ Join '' '' (map quote (se_Command session)) @ '']'') @
         (case se_Pty session of
            Some (term, width, height) \<Rightarrow> line (''  pty: '' @ term @ '' '' @ Itoa width @ ''x'' @ Itoa height)
          | None \<Rightarrow> line ''  pty: none'') @
         LF @ line ''Host key'' @
         line (''  path: '' @ fallback (su_HostKeyPath status) ''unknown'') @
         line (''  present: '' @ renderBool (su_HostKeyPresent status)) @
         LF @ line ''Connection closed intentionally after status render.'')"

section \<open>Sessions\<close>

text \<open>The counters are atomic: each addition is a step of its own, and \<^verbatim>\<open>^uint64(0)\<close> subtracts one.\<close>

definition countActive :: "Service \<Rightarrow> Service" where
  "countActive s = s\<lparr>sv_active := sv_active s + 1\<rparr>"

definition countTotal :: "Service \<Rightarrow> Service" where
  "countTotal s = s\<lparr>sv_total := sv_total s + 1\<rparr>"

definition uncountActive :: "Service \<Rightarrow> Service" where
  "uncountActive s = s\<lparr>sv_active := sv_active s + not 0\<rparr>"

record session_out =
  so_written :: string
  so_exit :: int

definition sessionMiddleware ::
  "os \<Rightarrow> ssh_lib \<Rightarrow> ssh_Snapshot option \<Rightarrow> (ssh_session \<Rightarrow> (Service \<times> session_out) io) option \<Rightarrow>
   ssh_session \<Rightarrow> Service \<Rightarrow> (Service \<times> session_out) io" where
  "sessionMiddleware os lib snapshot next session s w =
     (let s = countTotal (countActive s)
      in case Status os lib s w of (status, w) \<Rightarrow>
        (let out = \<lparr>so_written = renderSession session snapshot status, so_exit = 0\<rparr>
         in case (case next of None \<Rightarrow> ((s, out), w) | Some f \<Rightarrow> f session w) of
              ((s, out), w) \<Rightarrow> ((uncountActive s, out), w)))"

text \<open>
  Any number of sessions at once: the counts of those that have only counted themselves
  active, of those running, and of those that have ended.
\<close>

record sessions =
  ses_service :: Service
  ses_entering :: nat
  ses_running :: nat
  ses_ended :: nat

inductive session_step :: "sessions \<Rightarrow> sessions \<Rightarrow> bool" where
  enter: "session_step x (x\<lparr>ses_service := countActive (ses_service x), ses_entering := ses_entering x + 1\<rparr>)"
| run: "session_step x (x\<lparr>ses_service := countTotal (ses_service x), ses_entering := ses_entering x - 1,
                          ses_running := ses_running x + 1\<rparr>)" if "0 < ses_entering x"
| leave: "session_step x (x\<lparr>ses_service := uncountActive (ses_service x), ses_running := ses_running x - 1,
                            ses_ended := ses_ended x + 1\<rparr>)" if "0 < ses_running x"
| failed: "session_step x (x\<lparr>ses_service := serve r (ses_service x)\<rparr>)"

inductive_cases session_stepE: "session_step x y"

definition counters_ok :: "sessions \<Rightarrow> bool" where
  "counters_ok x = (sv_active (ses_service x) = of_nat (ses_entering x + ses_running x) \<and>
     sv_total (ses_service x) = of_nat (ses_running x + ses_ended x))"

lemma serve_counters [simp]: "sv_active (serve r s) = sv_active s" "sv_total (serve r s) = sv_total s"
  by (auto simp: serve_def setError_def split: option.splits)

lemma session_step_ok: "session_step x y \<Longrightarrow> counters_ok x \<Longrightarrow> counters_ok y"
proof (induction rule: session_step.induct)
  case (run x)
  then obtain n where "ses_entering x = Suc n" by (metis gr0_implies_Suc)
  with run show ?case by (simp add: counters_ok_def countTotal_def algebra_simps)
next
  case (leave x)
  then obtain n where "ses_running x = Suc n" by (metis gr0_implies_Suc)
  with leave show ?case by (simp add: counters_ok_def uncountActive_def algebra_simps)
qed (simp_all add: counters_ok_def countActive_def algebra_simps)

text \<open>
  C39. In every interleaving of sessions that start and end, and of a server that fails, the
  active counter is the number of open sessions and the total counter the number of sessions
  counted, each modulo \<open>2 ^ 64\<close>; with no session open the active counter is zero, so it never
  drifts or goes below zero.
\<close>

theorem session_counters:
  assumes "session_step\<^sup>*\<^sup>* x y" "sv_active (ses_service x) = 0" "sv_total (ses_service x) = 0"
    "ses_entering x = 0" "ses_running x = 0" "ses_ended x = 0"
  shows "sv_active (ses_service y) = of_nat (ses_entering y + ses_running y) \<and>
     sv_total (ses_service y) = of_nat (ses_running y + ses_ended y) \<and>
     (ses_entering y + ses_running y = 0 \<longrightarrow> sv_active (ses_service y) = 0)"
proof -
  have "counters_ok x" using assms(2-6) by (simp add: counters_ok_def)
  with assms(1) have "counters_ok y" by (induction rule: rtranclp_induct) (auto dest: session_step_ok)
  then show ?thesis by (simp add: counters_ok_def)
qed

text \<open>
  With application middlewares, as the guest passes them, the session middleware is not
  installed: no session is ever counted.
\<close>

lemma app_sessions_uncounted:
  "apps \<noteq> [] \<Longrightarrow> SessionMiddleware \<notin> set apps \<Longrightarrow> SessionMiddleware \<notin> set (middlewares cfg apps)"
  by (simp add: middlewares_def Let_def)

section \<open>Instances\<close>

definition key_os1 :: key_os where
  "key_os1 = \<lparr>hk_fault = \<lambda>_ _. None, hk_partial = \<lambda>_. 0, hk_TempName = \<lambda>_ _ p. butlast p @ ''0'',
     hk_Keygen = \<lambda>_ _. Inr (''k'', ''pub''), hk_ParseRawPrivateKey = \<lambda>b. b = ''k''\<rparr>"

lemma Base_component: "slash \<notin> set c \<Longrightarrow> c \<noteq> '''' \<Longrightarrow> Base c = c"
proof -
  assume c: "slash \<notin> set c" "c \<noteq> ''''"
  obtain xs x where x: "c = xs @ [x]" using c(2) by (cases c rule: rev_exhaust) auto
  have t: "TrimRight1 slash c = c" using c(1) by (auto simp: TrimRight1_def x)
  have w: "takeWhile (\<lambda>x. x \<noteq> slash) (rev c) = rev c" using c by (auto simp: takeWhile_eq_all_conv)
  show ?thesis using c(2) by (simp add: Base_def Let_def t w)
qed

lemma temp_ok1: "temp_ok key_os1"
  by (simp add: temp_ok_def key_os1_def Base_component)

theorem writeAtomic_atomic_witness:
  "\<exists>r w'. writeAtomic key_os1 ''a'' ''new'' 0x180 [] = (r, w') \<and>
     (r = None \<longrightarrow> files key_os1 [''a'' \<mapsto> (''old'', 0)] w' ''a'' = Some (''new'', 0x180))"
proof -
  obtain r w' where a: "writeAtomic key_os1 ''a'' ''new'' 0x180 [] = (r, w')" by fastforce
  have "slash \<notin> set (Base ''a'')" by (simp add: Base_component)
  from writeAtomic_atomic [OF temp_ok1 this a] a show ?thesis by blast
qed

theorem writeAtomic_durable_witness:
  "no_faults key_os1 [] (before_rename (hk_TempName key_os1 [] (Dir ''a'') (Base ''a'' @ ''.tmp-*'')) ''a'' ''n'' 0x180)"
proof -
  let ?t = "hk_TempName key_os1 [] (Dir ''a'') (Base ''a'' @ ''.tmp-*'')"
  obtain es r where "writeAtomic key_os1 ''a'' ''n'' 0x180 [] = (r, [] @ es)" "Rename ?t ''a'' \<in> set es"
    by (simp add: writeAtomic_def call_def key_os1_def Let_def)
  from writeAtomic_durable [OF this] show ?thesis by simp
qed

theorem ensureHostKey_spec_witness:
  "files key_os1 [''a'' \<mapsto> (''k'', 0)] (snd (ensureHostKey key_os1 [''a'' \<mapsto> (''k'', 0)] ''a'' [])) = [''a'' \<mapsto> (''k'', 0)]"
proof -
  obtain r w' where e: "ensureHostKey key_os1 [''a'' \<mapsto> (''k'', 0)] ''a'' [] = (r, w')" by fastforce
  have "files key_os1 [''a'' \<mapsto> (''k'', 0)] [] = [''a'' \<mapsto> (''k'', 0)]" by (simp add: files_def)
  moreover have "key_at key_os1 [''a'' \<mapsto> (''k'', 0)] ''a''" by (simp add: key_at_def key_os1_def)
  moreover have "hk_fault key_os1 v (ReadFile ''a'') = Some x \<Longrightarrow> \<not> errors_is x ErrNotExist" for v x
    by (simp add: key_os1_def)
  ultimately show ?thesis using ensureHostKey_spec [OF e] e by simp
qed

definition sessions0 :: sessions where
  "sessions0 = \<lparr>ses_service = \<lparr>sv_cfg = \<lparr>hk_Enabled = True, hk_ListenAddr = '''', hk_HostKeyPath = '''', hk_RequirePTY = True,
       hk_Banner = '''', hk_IdleTimeout = 0, hk_MaxTimeout = 0\<rparr>, sv_server = None, sv_listener = None, sv_active = 0, sv_total = 0,
       sv_started = True, sv_startedAt = 0, sv_hostKey = True, sv_errText = ''''\<rparr>,
     ses_entering = 0, ses_running = 0, ses_ended = 0\<rparr>"

theorem session_counters_witness: "\<exists>y. session_step\<^sup>*\<^sup>* sessions0 y \<and> ses_entering y = 1 \<and> sv_active (ses_service y) = 1"
proof -
  let ?y = "sessions0\<lparr>ses_service := countActive (ses_service sessions0), ses_entering := ses_entering sessions0 + 1\<rparr>"
  have s: "session_step\<^sup>*\<^sup>* sessions0 ?y" by (intro r_into_rtranclp enter)
  have "ses_entering ?y = 1" "ses_running ?y = 0" by (simp_all add: sessions0_def)
  with session_counters [OF s] s show ?thesis by (intro exI [of _ ?y]) (simp add: sessions0_def)
qed

end
