(* ===== verification/WebUI.thy ===== *)
theory WebUI
  imports Storage SharedState Entropy Boot Networking SSHApp
begin

text \<open>
  The package \<^verbatim>\<open>internal/webui\<close>: the routes of the status server. A request is the path
  \<^verbatim>\<open>http.ServeMux\<close> hands on, already cleaned; a response is its status, its headers and what
  is encoded in its body. The payloads of the three debug pages have a type left open; the
  embedded static files are served by the standard file server, a parameter. The text of times and of the Go
  version are fields of \<open>web_env\<close>.
\<close>

section \<open>Data\<close>

record 'p web_Options =
  wo_ListenAddr :: string
  wo_Mounts :: "MountResult list"
  wo_Storage :: storage_Result
  wo_SharedState :: shared_Result
  wo_Network :: net_Result
  wo_Entropy :: entropy_Result
  wo_VirtioRNGModule :: kmod_Result
  wo_SSHStatus :: "(ssh_Status io) option"
  wo_AIChatDebug :: "(('p result) io) option"
  wo_AIChatHTTPSProbe :: "(('p result) io) option"
  wo_LogDebug :: "(('p result) io) option"

record statusResponse =
  ws_PID :: int
  ws_Hostname :: string
  ws_GoVersion :: string
  ws_GOOS :: string
  ws_GOARCH :: string
  ws_ListenAddr :: string
  ws_StartedAt :: string
  ws_Uptime :: string
  ws_Mounts :: "MountResult list"
  ws_Storage :: storage_Result
  ws_SharedState :: shared_Result
  ws_Network :: net_Result
  ws_Entropy :: entropy_Result
  ws_VirtioRNGModule :: kmod_Result
  ws_SSH :: ssh_Status

datatype 'p payload = StatusPayload statusResponse | DebugPayload 'p | ErrorPayload string

datatype 'p body = Text bytes | JSONText "'p payload" | StaticFile string

record 'p web_response =
  wr_StatusCode :: nat
  wr_Header :: "(string \<times> string) list"
  wr_Body :: "'p body"

record web_env =
  we_os :: os
  we_Getpid :: int
  we_Hostname :: "string result"
  we_GoVersion :: string
  we_GOOS :: string
  we_GOARCH :: string
  we_RFC3339 :: "int \<Rightarrow> string"
  we_Uptime :: "int \<Rightarrow> string"

record 'p web_handler =
  wh_options :: "'p web_Options"
  wh_hostname :: string
  wh_startedAt :: int

definition ssh_Status0 :: ssh_Status where
  "ssh_Status0 = \<lparr>su_Enabled = False, su_Started = False, su_ListenAddr = '''', su_HostKeyPath = '''', su_HostKeyPresent = False,
     su_RequirePTY = False, su_AuthMode = '''', su_StartedAt = '''', su_Uptime = '''', su_ActiveSessions = 0, su_TotalSessions = 0,
     su_Error = ''''\<rparr>"

section \<open>Handlers\<close>

definition writeJSON :: "nat \<Rightarrow> 'p payload \<Rightarrow> 'p web_response" where
  "writeJSON statusCode p =
     \<lparr>wr_StatusCode = statusCode, wr_Header = [(''Content-Type'', ''application/json''), (''Cache-Control'', ''no-store'')],
      wr_Body = JSONText p\<rparr>"

text \<open>\<^verbatim>\<open>fs.Sub\<close> of the embedded files with a constant, valid directory does not fail.\<close>

definition NewHandler :: "web_env \<Rightarrow> 'p web_Options \<Rightarrow> (('p web_handler) result) io" where
  "NewHandler env options w =
     (let hostname = (case we_Hostname env of Inl _ \<Rightarrow> '''' | Inr h \<Rightarrow> h)
      in case now (we_os env) w of (t, w) \<Rightarrow>
           (Inr \<lparr>wh_options = options, wh_hostname = hostname, wh_startedAt = t\<rparr>, w))"

definition status :: "web_env \<Rightarrow> 'p web_handler \<Rightarrow> statusResponse io" where
  "status env h w =
     (let options = wh_options h
      in case (case wo_SSHStatus options of None \<Rightarrow> (ssh_Status0, w) | Some f \<Rightarrow> f w) of (sshStatus, w) \<Rightarrow>
        (case now (we_os env) w of (t, w) \<Rightarrow>
           (\<lparr>ws_PID = we_Getpid env, ws_Hostname = wh_hostname h, ws_GoVersion = we_GoVersion env, ws_GOOS = we_GOOS env,
             ws_GOARCH = we_GOARCH env, ws_ListenAddr = wo_ListenAddr options, ws_StartedAt = we_RFC3339 env (wh_startedAt h),
             ws_Uptime = we_Uptime env (t - wh_startedAt h), ws_Mounts = wo_Mounts options, ws_Storage = wo_Storage options,
             ws_SharedState = wo_SharedState options, ws_Network = wo_Network options, ws_Entropy = wo_Entropy options,
             ws_VirtioRNGModule = wo_VirtioRNGModule options, ws_SSH = sshStatus\<rparr>, w)))"

definition healthz :: "'p web_response" where
  "healthz = \<lparr>wr_StatusCode = 200, wr_Header = [], wr_Body = Text (''ok'' @ [CHR 0x0A])\<rparr>"

definition debugHandler :: "string \<Rightarrow> (('p result) io) option \<Rightarrow> ('p web_response) io" where
  "debugHandler missing hook w =
     (case hook of
        None \<Rightarrow> (writeJSON 501 (ErrorPayload missing), w)
      | Some f \<Rightarrow>
          (case f w of
             (Inl e, w) \<Rightarrow> (writeJSON 500 (ErrorPayload (err_text e)), w)
           | (Inr p, w) \<Rightarrow> (writeJSON 200 (DebugPayload p), w)))"

definition serveMux :: "web_env \<Rightarrow> (string \<Rightarrow> 'p web_response) \<Rightarrow> 'p web_handler \<Rightarrow> string \<Rightarrow> ('p web_response) io" where
  "serveMux env fileserver h path w =
     (let options = wh_options h
      in if path = ''/healthz'' then (healthz, w)
         else if path = ''/api/status'' then (case status env h w of (st, w) \<Rightarrow> (writeJSON 200 (StatusPayload st), w))
         else if path = ''/api/debug/aichat/runtime''
         then debugHandler ''aichat runtime debug is not configured'' (wo_AIChatDebug options) w
         else if path = ''/api/debug/aichat/https-probe''
         then debugHandler ''aichat HTTPS probe is not configured'' (wo_AIChatHTTPSProbe options) w
         else if path = ''/api/debug/logs/runtime''
         then debugHandler ''log runtime debug is not configured'' (wo_LogDebug options) w
         else (fileserver path, w))"

section \<open>Properties\<close>

definition apiPaths :: "string list" where
  "apiPaths = [''/api/status'', ''/api/debug/aichat/runtime'', ''/api/debug/aichat/https-probe'', ''/api/debug/logs/runtime'']"

definition api_response :: "'p web_response \<Rightarrow> bool" where
  "api_response r = (wr_Header r = [(''Content-Type'', ''application/json''), (''Cache-Control'', ''no-store'')] \<and>
     (\<exists>p. wr_Body r = JSONText p \<and> (wr_StatusCode r = 200 \<longleftrightarrow> (\<forall>t. p \<noteq> ErrorPayload t))) \<and> wr_StatusCode r \<in> {200, 500, 501})"

lemma debugHandler_api: "api_response (fst (debugHandler missing hook w))"
  by (auto simp: debugHandler_def writeJSON_def api_response_def split: option.split sum.split prod.split)

lemma debugHandler_status:
  "wr_StatusCode (fst (debugHandler missing hook w)) =
     (case hook of None \<Rightarrow> 501 | Some f \<Rightarrow> case fst (f w) of Inl _ \<Rightarrow> 500 | Inr _ \<Rightarrow> 200)"
  by (auto simp: debugHandler_def writeJSON_def split: option.split sum.split prod.split)

lemma status_fields:
  "ws_Storage (fst (status env h w)) = wo_Storage (wh_options h)" "ws_Network (fst (status env h w)) = wo_Network (wh_options h)"
  "ws_SharedState (fst (status env h w)) = wo_SharedState (wh_options h)" "ws_Entropy (fst (status env h w)) = wo_Entropy (wh_options h)"
  "ws_SSH (fst (status env h w)) = (case wo_SSHStatus (wh_options h) of None \<Rightarrow> ssh_Status0 | Some f \<Rightarrow> fst (f w))"
  by (simp_all add: status_def Let_def split: option.split prod.split)


end
