(* ===== verification/InitMain.thy ===== *)
theory InitMain
  imports BBSStore LogStore WebUI
begin

text \<open>
  The boot sequence, \<^verbatim>\<open>cmd/init\<close>: \<^verbatim>\<open>main\<close> puts the components together. Each of its steps is a
  function from the guest (the events so far, the databases, the environment and the counter of
  transaction ids) to a result and the guest; a step may fail to return, and it may be fatal, which
  ends in \<^verbatim>\<open>boot.Halt\<close>, a loop PID 1 never leaves. The log lines are in \<open>LogLines\<close> and \<open>NetLog\<close>; the child
  reaper runs beside the sequence.
\<close>

section \<open>The guest\<close>

record ('d, 'b) machine =
  mc_os :: os
  mc_net :: netlib
  mc_logsq :: "'d sqlite_lib"
  mc_sq :: "'b sqlite_lib"
  mc_tm :: time_lib
  mc_json :: json_lib
  mc_key :: key_os
  mc_disk :: disk
  mc_ssh :: ssh_lib
  mc_web :: web_env
  mc_listen :: "string \<Rightarrow> world \<Rightarrow> go_error"

record ('d, 'b) guest =
  gs_world :: world
  gs_log :: 'd
  gs_bbs :: 'b
  gs_env :: environ
  gs_xid :: "32 word"

text \<open>A step returns what it computes, or the name of the fatal step and its error.\<close>

type_synonym ('d, 'b, 'a) boot_step = "('d, 'b) guest \<Rightarrow> (((string \<times> go_error) + 'a) \<times> ('d, 'b) guest) option"

definition bindB :: "('d, 'b, 'a) boot_step \<Rightarrow> ('a \<Rightarrow> ('d, 'b, 'c) boot_step) \<Rightarrow> ('d, 'b, 'c) boot_step" where
  "bindB st k g =
     (case st g of
        None \<Rightarrow> None
      | Some (Inl h, g) \<Rightarrow> Some (Inl h, g)
      | Some (Inr a, g) \<Rightarrow> k a g)"

text \<open>A call that may be fatal: the error is logged as \<^verbatim>\<open>fatal: <what>\<close> and the guest halts.\<close>

definition fatal :: "string \<Rightarrow> (('d, 'b) guest \<Rightarrow> ('a result \<times> ('d, 'b) guest) option) \<Rightarrow> ('d, 'b, 'a) boot_step" where
  "fatal what f g =
     (case f g of
        None \<Rightarrow> None
      | Some (Inl e, g) \<Rightarrow> Some (Inl (what, e), g)
      | Some (Inr a, g) \<Rightarrow> Some (Inr a, g))"

definition inWorld :: "'a io \<Rightarrow> ('d, 'b, 'a) boot_step" where
  "inWorld f g = (case f (gs_world g) of (a, w) \<Rightarrow> Some (Inr a, g\<lparr>gs_world := w\<rparr>))"

definition logEnv :: "('d, 'b) machine \<Rightarrow> 'd log_env" where
  "logEnv m = \<lparr>le_os = mc_os m, le_sq = mc_logsq m, le_tm = mc_tm m, le_js = mc_json m\<rparr>"

section \<open>Steps\<close>

definition prepareStorage :: "('d, 'b) machine \<Rightarrow> ('d, 'b, storage_Result) boot_step" where
  "prepareStorage m = fatal ''prepare storage'' (\<lambda>g.
     case Storage.Prepare (mc_os m) (gs_env g) (gs_world g) of
       None \<Rightarrow> None
     | Some ((r, e), w) \<Rightarrow> Some (case e of Some e \<Rightarrow> Inl e | None \<Rightarrow> Inr r, g\<lparr>gs_world := w\<rparr>))"

definition prepareSharedState :: "('d, 'b) machine \<Rightarrow> ('d, 'b, shared_Result) boot_step" where
  "prepareSharedState m g =
     (case SharedState.Prepare (mc_os m) (gs_env g) (gs_world g) of ((r, err), w) \<Rightarrow> Some (Inr r, g\<lparr>gs_world := w\<rparr>))"

definition openLogStore :: "('d, 'b) machine \<Rightarrow> string \<Rightarrow> ('d, 'b, log_Store) boot_step" where
  "openLogStore m chatRoot = fatal ''open log store'' (\<lambda>g.
     case OpenLog (logEnv m) (PathJoin [chatRoot, ''logs.db'']) (gs_world g, gs_log g) of
       (r, w, d) \<Rightarrow> Some (r, g\<lparr>gs_world := w, gs_log := d\<rparr>))"

definition probeEntropy :: "('d, 'b) machine \<Rightarrow> ('d, 'b, kmod_Result \<times> entropy_Result) boot_step" where
  "probeEntropy m g =
     (case LoadVirtioRNG (mc_os m) (gs_world g) of (moduleResult, w) \<Rightarrow>
        (case Probe (mc_os m) w of (entropyResult, w) \<Rightarrow>
           if km_Loaded moduleResult
           then (case WaitForVirtioRNG (mc_os m) (2 * Storage.second) w of
                   None \<Rightarrow> None
                 | Some (entropyResult, w) \<Rightarrow> Some (Inr (moduleResult, entropyResult), g\<lparr>gs_world := w\<rparr>))
           else Some (Inr (moduleResult, entropyResult), g\<lparr>gs_world := w\<rparr>)))"

definition configureNetwork :: "('d, 'b) machine \<Rightarrow> ('d, 'b, net_Result) boot_step" where
  "configureNetwork m = fatal ''configure networking'' (\<lambda>g.
     case Configure (mc_os m) (mc_net m) (gs_env g) (gs_xid g) (gs_world g) of
       (((r, e), xid), w) \<Rightarrow>
         Some (case e of Some e \<Rightarrow> Inl e | None \<Rightarrow> Inr r, g\<lparr>gs_world := w, gs_xid := xid\<rparr>))"

definition openBBSStore :: "('d, 'b) machine \<Rightarrow> string \<Rightarrow> ('d, 'b, Store) boot_step" where
  "openBBSStore m bbsRoot = fatal ''open bbs store'' (\<lambda>g.
     case BBSStore.Open (mc_os m) (mc_sq m) (mc_tm m) bbsRoot (gs_world g, gs_bbs g) of
       (r, w, d) \<Rightarrow> Some (r, g\<lparr>gs_world := w, gs_bbs := d\<rparr>))"

definition bundlePath :: string where "bundlePath = ''/etc/ssl/certs/ca-certificates.crt''"

definition configureGuestTLSDefaults :: "('d, 'b) machine \<Rightarrow> ('d, 'b, unit) boot_step" where
  "configureGuestTLSDefaults m g =
     (case stat (mc_os m) bundlePath (gs_world g) of (r, w) \<Rightarrow>
        (let g = g\<lparr>gs_world := w\<rparr>
         in Some (Inr (),
              case r of
                Inl _ \<Rightarrow> g
              | Inr _ \<Rightarrow> (if gs_env g ''SSL_CERT_FILE'' = None
                          then g\<lparr>gs_env := (gs_env g)(''SSL_CERT_FILE'' \<mapsto> bundlePath)\<rparr> else g))))"

definition startSSH :: "('d, 'b) machine \<Rightarrow> ('d, 'b, Service) boot_step" where
  "startSSH m = fatal ''start ssh app'' (\<lambda>g.
     case Start (mc_os m) (mc_key m) (mc_disk m) (mc_ssh m) (SSHApp.LoadConfigFromEnv (mc_os m) (gs_env g)) [AppMiddleware 0] (gs_world g) of
       (r, w) \<Rightarrow> Some (r, g\<lparr>gs_world := w\<rparr>))"

definition buildHandler :: "('d, 'b) machine \<Rightarrow> 'p web_Options \<Rightarrow> ('d, 'b, 'p web_handler) boot_step" where
  "buildHandler m options = fatal ''build handler'' (\<lambda>g.
     case NewHandler (mc_web m) options (gs_world g) of (r, w) \<Rightarrow> Some (r, g\<lparr>gs_world := w\<rparr>))"

definition hostname :: "web_env \<Rightarrow> string" where
  "hostname env = (case we_Hostname env of Inl _ \<Rightarrow> '''' | Inr value \<Rightarrow> value)"

text \<open>The closure \<^verbatim>\<open>main\<close> passes to the SSH service.\<close>

definition sshSnapshot :: "web_env \<Rightarrow> string \<Rightarrow> net_Result \<Rightarrow> entropy_Result \<Rightarrow> ssh_Snapshot" where
  "sshSnapshot env addr networkResult entropyResult =
     \<lparr>ss_Hostname = hostname env, ss_PID = we_Getpid env, ss_HTTPAddress = addr, ss_NetworkMethod = nr_Method networkResult,
      ss_NetworkInterface = nr_InterfaceName networkResult, ss_NetworkAddress = nr_CIDR networkResult,
      ss_NetworkConfigured = nr_Configured networkResult, ss_EntropyAvail = en_EntropyAvail entropyResult,
      ss_EntropyKnown = en_EntropyAvailKnown entropyResult, ss_VirtioRNGVisible = en_VirtioRNGVisible entropyResult\<rparr>"

record 'p booted =
  bt_Addr :: string
  bt_LogStore :: log_Store
  bt_Store :: Store
  bt_Service :: Service
  bt_Snapshot :: ssh_Snapshot
  bt_Handler :: "'p web_handler"

section \<open>Log levels\<close>

text \<open>
  \<^verbatim>\<open>internal/zlog\<close>: the level the global logger is set to; \<open>ParseLevel\<close> is the third-party parser.
\<close>

definition zlogLevel :: "(string \<Rightarrow> 'l result) \<Rightarrow> environ \<Rightarrow> 'l \<Rightarrow> 'l" where
  "zlogLevel ParseLevel env defaultLevel =
     (let raw = TrimSpace (getenv env ''GO_INIT_ZEROLOG_LEVEL'')
      in if raw \<noteq> '''' then (case ParseLevel raw of Inr parsed \<Rightarrow> parsed | Inl _ \<Rightarrow> defaultLevel) else defaultLevel)"

text \<open>The global logger: a nil writer, like \<^verbatim>\<open>Configure\<close>, means the standard error.\<close>

datatype 'w zlog_writer = Stderr | Given 'w

record ('l, 'w) zerolog =
  zg_GlobalLevel :: 'l
  zg_Level :: 'l
  zg_Writer :: "'w zlog_writer"

definition ConfigureWithWriter ::
  "(string \<Rightarrow> 'l result) \<Rightarrow> environ \<Rightarrow> 'l \<Rightarrow> 'w option \<Rightarrow> 'l \<times> ('l, 'w) zerolog" where
  "ConfigureWithWriter ParseLevel env defaultLevel writer =
     (let level = zlogLevel ParseLevel env defaultLevel
      in (level, \<lparr>zg_GlobalLevel = level, zg_Level = level,
                  zg_Writer = (case writer of None \<Rightarrow> Stderr | Some w \<Rightarrow> Given w)\<rparr>))"

definition zlogConfigure :: "(string \<Rightarrow> 'l result) \<Rightarrow> environ \<Rightarrow> 'l \<Rightarrow> 'l \<times> ('l, 'w) zerolog" where
  "zlogConfigure ParseLevel env defaultLevel = ConfigureWithWriter ParseLevel env defaultLevel None"

section \<open>The sequence\<close>

text \<open>\<open>hooks\<close> are the debug pages of the chat and of the log store.\<close>

definition bootSequence ::
  "('d, 'b) machine \<Rightarrow> ((('p result) io) option \<times> (('p result) io) option \<times> (('p result) io) option) \<Rightarrow> ('d, 'b, 'p booted) boot_step" where
  "bootSequence m hooks =
     bindB (inWorld (PrepareFilesystem (mc_os m))) (\<lambda>results.
     bindB (prepareStorage m) (\<lambda>storageResult.
     bindB (prepareSharedState m) (\<lambda>sharedStateResult.
     bindB (openLogStore m (PathJoin [sr_MountPoint storageResult, ''state'', ''chat''])) (\<lambda>logStore.
     bindB (probeEntropy m) (\<lambda>(moduleResult, entropyResult).
     bindB (configureNetwork m) (\<lambda>networkResult.
     bindB (openBBSStore m (BBSRoot sharedStateResult (sr_MountPoint storageResult @ ''/app''))) (\<lambda>store.
     bindB (configureGuestTLSDefaults m) (\<lambda>_.
     bindB (\<lambda>g. Some (Inr (HTTPAddress (gs_env g)), g)) (\<lambda>addr.
     bindB (startSSH m) (\<lambda>sshService.
     bindB (inWorld (SSHApp.Status (mc_os m) (mc_ssh m) sshService)) (\<lambda>sshStatus.
     bindB (buildHandler m
       \<lparr>wo_ListenAddr = addr, wo_Mounts = results, wo_Storage = storageResult, wo_SharedState = sharedStateResult,
        wo_Network = networkResult, wo_Entropy = entropyResult, wo_VirtioRNGModule = moduleResult,
        wo_SSHStatus = Some (SSHApp.Status (mc_os m) (mc_ssh m) sshService), wo_AIChatDebug = fst hooks,
        wo_AIChatHTTPSProbe = fst (snd hooks), wo_LogDebug = snd (snd hooks)\<rparr>) (\<lambda>handler.
     (\<lambda>g. Some (Inr \<lparr>bt_Addr = addr, bt_LogStore = logStore, bt_Store = store, bt_Service = sshService,
        bt_Snapshot = sshSnapshot (mc_web m) addr networkResult entropyResult, bt_Handler = handler\<rparr>, g))))))))))))))"

text \<open>\<^verbatim>\<open>main\<close>: it returns only when the HTTP server was closed, and then closes both stores.\<close>

definition main ::
  "('d, 'b) machine \<Rightarrow> ((('p result) io) option \<times> (('p result) io) option \<times> (('p result) io) option) \<Rightarrow> ('d, 'b, unit) boot_step" where
  "main m hooks =
     bindB (bootSequence m hooks) (\<lambda>b.
     bindB (fatal ''serve http'' (\<lambda>g.
       case Boot.ServeHTTP (mc_listen m) (bt_Addr b) (gs_world g) of
         (Some e, w) \<Rightarrow> Some (Inl e, g\<lparr>gs_world := w\<rparr>) | (None, w) \<Rightarrow> Some (Inr (), g\<lparr>gs_world := w\<rparr>))) (\<lambda>_ g.
     Some (Inr (), g\<lparr>gs_bbs := snd (CloseStore (mc_sq m) (Some (bt_Store b)) (gs_bbs g)),
                    gs_log := snd (CloseLog (mc_logsq m) (Some (bt_LogStore b)) (gs_log g))\<rparr>)))"

text \<open>
  The process: a fatal step logs why it failed and halts; without one, \<^verbatim>\<open>main\<close> returns and the kernel
  would lose its PID 1.
\<close>

definition initProcess ::
  "('d, 'b) machine \<Rightarrow> ((('p result) io) option \<times> (('p result) io) option \<times> (('p result) io) option) \<Rightarrow>
   (nat \<Rightarrow> go_error option) \<Rightarrow> ('d, 'b) guest \<Rightarrow> (string list \<times> ('d, 'b) guest) option" where
  "initProcess m hooks pauses g =
     (case main m hooks g of
        None \<Rightarrow> None
      | Some (Inl (what, e), g) \<Rightarrow> map_option (\<lambda>l. (l, g)) (Halt pauses [''fatal: '' @ what @ '': '' @ err_text e])
      | Some (Inr (), g) \<Rightarrow> Some ([], g))"

section \<open>Properties\<close>

lemma bindB_Inr: "bindB st k g = Some (Inr b, g') \<longleftrightarrow> (\<exists>a g1. st g = Some (Inr a, g1) \<and> k a g1 = Some (Inr b, g'))"
  by (auto simp: bindB_def split: option.splits sum.splits prod.splits)

lemma fatal_Inr: "fatal what f g = Some (Inr a, g') \<longleftrightarrow> f g = Some (Inr a, g')"
  by (auto simp: fatal_def split: option.splits sum.splits prod.splits)

subsection \<open>The sequence ends\<close>

definition returns :: "('d, 'b, 'a) boot_step \<Rightarrow> bool" where
  "returns st = (\<forall>g. st g \<noteq> None)"

lemma returns_bindB [intro]: "returns st \<Longrightarrow> (\<And>a. returns (k a)) \<Longrightarrow> returns (bindB st k)"
  by (auto simp: returns_def bindB_def split: option.split sum.split)

lemma returns_inWorld [intro]: "returns (inWorld f)"
  by (simp add: returns_def inWorld_def split: prod.split)

lemma returns_fatal: "(\<And>g. f g \<noteq> None) \<Longrightarrow> returns (fatal what f)"
  by (auto simp: returns_def fatal_def split: option.split sum.split)

lemma returns_Some [intro]: "returns (\<lambda>g. Some (f g))"
  by (simp add: returns_def)

lemma returns_prepareStorage:
  assumes "clock_ok (mc_os m)"
  shows "returns (prepareStorage m)"
  unfolding prepareStorage_def
proof (rule returns_fatal)
  fix g :: "('a, 'b) guest"
  obtain r e w where "Storage.Prepare (mc_os m) (gs_env g) (gs_world g) = Some ((r, e), w)"
    unfolding Storage.Prepare_def
    using Storage.prepare_total [OF assms, of "Storage.LoadConfigFromEnv (mc_os m) (gs_env g)" "gs_world g"] by blast
  then show "(case Storage.Prepare (mc_os m) (gs_env g) (gs_world g) of None \<Rightarrow> None
     | Some ((r, e), w) \<Rightarrow> Some (case e of Some e \<Rightarrow> Inl e | None \<Rightarrow> Inr r, g\<lparr>gs_world := w\<rparr>)) \<noteq> None" by simp
qed

lemma returns_probeEntropy:
  assumes "clock_ok (mc_os m)"
  shows "returns (probeEntropy m)"
proof -
  have "WaitForVirtioRNG (mc_os m) t w \<noteq> None" for t w
    using dirfs.waitForVirtioRNG_total [OF assms] by (fastforce simp: WaitForVirtioRNG_def)
  then show ?thesis by (simp add: returns_def probeEntropy_def split: prod.split option.split del: not_None_eq)
qed

lemma returns_calls:
  "returns (prepareSharedState m)" "returns (openLogStore m r)" "returns (configureNetwork m)" "returns (openBBSStore m r)"
  "returns (configureGuestTLSDefaults m)" "returns (startSSH m)" "returns (buildHandler m ops)"
proof -
  show "returns (prepareSharedState m)" "returns (configureGuestTLSDefaults m)"
    by (simp_all add: returns_def prepareSharedState_def configureGuestTLSDefaults_def Let_def split: prod.split)
  show "returns (openLogStore m r)" "returns (configureNetwork m)" "returns (openBBSStore m r)" "returns (startSSH m)"
    "returns (buildHandler m ops)"
    unfolding openLogStore_def configureNetwork_def openBBSStore_def startSSH_def buildHandler_def
    by (rule returns_fatal, simp split: prod.split)+
qed

lemma returns_bootSequence: "clock_ok (mc_os m) \<Longrightarrow> returns (bootSequence m hooks)"
  unfolding bootSequence_def
  by (auto intro!: returns_bindB returns_calls returns_prepareStorage returns_probeEntropy split: prod.split)

lemma main_returns: "clock_ok (mc_os m) \<Longrightarrow> returns (main m hooks)"
  unfolding main_def
  by (intro returns_bindB returns_bootSequence returns_fatal returns_Some) (simp_all split: prod.split option.split)

subsection \<open>Where it halts\<close>

definition halts_in :: "string set \<Rightarrow> ('d, 'b, 'a) boot_step \<Rightarrow> bool" where
  "halts_in S st = (\<forall>g h g'. st g = Some (Inl h, g') \<longrightarrow> fst h \<in> S)"

lemma halts_in_bindB [intro]: "halts_in S st \<Longrightarrow> (\<And>a. halts_in S (k a)) \<Longrightarrow> halts_in S (bindB st k)"
  by (fastforce simp: halts_in_def bindB_def split: option.splits sum.splits)

lemma halts_in_fatal: "what \<in> S \<Longrightarrow> halts_in S (fatal what f)"
  by (auto simp: halts_in_def fatal_def split: option.splits sum.splits)

lemma halts_in_calls:
  "halts_in S (inWorld f)" "halts_in S (prepareSharedState m)" "halts_in S (probeEntropy m)" "halts_in S (configureGuestTLSDefaults m)"
  by (auto simp: halts_in_def inWorld_def prepareSharedState_def probeEntropy_def configureGuestTLSDefaults_def Let_def
      split: prod.splits option.splits if_splits)

lemma halts_in_Some: "(\<And>g h. fst (f g) \<noteq> Inl h) \<Longrightarrow> halts_in S (\<lambda>g. Some (f g))"
  unfolding halts_in_def by (metis fst_conv option.inject)

definition fatalSteps :: "string set" where
  "fatalSteps = {''prepare storage'', ''open log store'', ''configure networking'', ''open bbs store'', ''start ssh app'',
     ''build handler'', ''serve http''}"

lemma main_halts_in: "halts_in fatalSteps (main m hooks)"
  unfolding main_def bootSequence_def split_beta
  by (intro halts_in_bindB halts_in_calls halts_in_Some)
     (simp_all add: prepareStorage_def openLogStore_def configureNetwork_def openBBSStore_def startSSH_def buildHandler_def
        halts_in_fatal fatalSteps_def)

lemma main_exit:
  assumes "main m hooks g = Some (Inr (), g')"
  shows "\<exists>addr w. errors_is (mc_listen m addr w) HTTPServerClosed"
  using assms
  by (auto simp: main_def bindB_Inr fatal_Inr Boot.ServeHTTP_def Let_def split: prod.splits option.splits if_splits)

text \<open>
  C6. PID 1 never exits. With a clock that runs every wait of the boot is bounded, and since nothing closes the
  HTTP server the only end of \<^verbatim>\<open>main\<close> is the halt loop, entered from one of seven fatal
  steps and never left, whatever signals arrive. Mounting the share, loading modules and probing entropy are
  none of these steps.
\<close>

theorem main_halts:
  assumes "clock_ok (mc_os m)" and "\<And>addr w. \<not> errors_is (mc_listen m addr w) HTTPServerClosed"
  shows "(\<exists>what e g'. main m hooks g = Some (Inl (what, e), g') \<and> what \<in> fatalSteps) \<and> initProcess m hooks pauses g = None"
proof -
  obtain r g' where r: "main m hooks g = Some (r, g')"
    using main_returns [OF assms(1), of hooks] unfolding returns_def by (metis option.exhaust surj_pair)
  show ?thesis
  proof (cases r)
    case (Inl h)
    with r main_halts_in [of m hooks] show ?thesis by (cases h) (force simp: halts_in_def initProcess_def)
  qed (use r main_exit assms(2) in fastforce)
qed

subsection \<open>What a booted guest has\<close>

lemma Start_ok:
  assumes "Start os ko fs0 lib cfg mws w = (Inr sv, w')"
  shows "sv_cfg sv = cfg \<and> (if hk_Enabled cfg then sv_started sv \<and> sv_listener sv \<noteq> None else \<not> sv_started sv)"
  using assms by (auto simp: Start_def Let_def now_def split: option.splits sum.splits prod.splits if_splits)

lemma Open_root: "BBSStore.Open os sq tm root s = (Inr st, s') \<Longrightarrow> st_root st = root"
  by (auto simp: BBSStore.Open_def Let_def split: prod.splits option.splits)

lemma Configure_ok:
  assumes "Configure os lib env c w = (((r, None), c'), w')"
  shows "if nc_EnableDHCP (Networking.LoadConfigFromEnv os env) then nr_Configured r else nr_Step r = ''disabled''"
  using Configure_cases [OF assms] by (auto simp: failed_def applied_def split: if_splits)

text \<open>What the steps keep: only the one that sets the certificate variable changes the environment.\<close>

lemma step_envs:
  "inWorld f g = Some (Inr a, g') \<Longrightarrow> gs_env g' = gs_env g"
  "prepareSharedState m g = Some (Inr sh, g') \<Longrightarrow> gs_env g' = gs_env g"
  "openLogStore m root g = Some (Inr l, g') \<Longrightarrow> gs_env g' = gs_env g"
  "probeEntropy m g = Some (Inr me, g') \<Longrightarrow> gs_env g' = gs_env g"
  by (auto simp: inWorld_def prepareSharedState_def openLogStore_def fatal_Inr probeEntropy_def split: prod.splits option.splits if_splits)

lemma prepareStorage_ok:
  assumes "prepareStorage m g = Some (Inr st, g')"
  shows "gs_env g' = gs_env g \<and>
    (if sc_Enabled (Storage.LoadConfigFromEnv (mc_os m) (gs_env g)) then sr_Mounted st else sr_Step st = ''disabled'')"
proof -
  obtain w where "Storage.Prepare (mc_os m) (gs_env g) (gs_world g) = Some ((st, None), w)" "g' = g\<lparr>gs_world := w\<rparr>"
    using assms by (auto simp: prepareStorage_def fatal_Inr split: option.splits)
  with Storage.prepare_ok [of "mc_os m" "Storage.LoadConfigFromEnv (mc_os m) (gs_env g)" "gs_world g" st w] show ?thesis
    by (auto simp: Storage.Prepare_def split: if_splits)
qed

lemma configureNetwork_ok:
  assumes "configureNetwork m g = Some (Inr r, g')"
  shows "gs_env g' = gs_env g \<and>
    (if nc_EnableDHCP (Networking.LoadConfigFromEnv (mc_os m) (gs_env g)) then nr_Configured r else nr_Step r = ''disabled'')"
proof -
  obtain xid w where "Configure (mc_os m) (mc_net m) (gs_env g) (gs_xid g) (gs_world g) = (((r, None), xid), w)"
    "g' = g\<lparr>gs_world := w, gs_xid := xid\<rparr>"
    using assms by (auto simp: configureNetwork_def fatal_Inr split: option.splits prod.splits)
  with Configure_ok show ?thesis by auto
qed

lemma openBBSStore_ok: "openBBSStore m root g = Some (Inr st, g') \<Longrightarrow> st_root st = root"
  using Open_root by (fastforce simp: openBBSStore_def fatal_Inr split: prod.splits)

lemma startSSH_ok:
  "startSSH m g = Some (Inr sv, g') \<Longrightarrow> hk_Enabled (sv_cfg sv) \<Longrightarrow> sv_started sv \<and> sv_listener sv \<noteq> None"
  using Start_ok by (fastforce simp: startSSH_def fatal_Inr split: prod.splits)

lemma buildHandler_options: "buildHandler m ops g = Some (Inr h, g') \<Longrightarrow> wh_options h = ops"
  by (auto simp: buildHandler_def fatal_Inr NewHandler_def Let_def now_def)

lemma bootSequence_steps:
  assumes "bootSequence m hooks g = Some (Inr b, g')"
  shows "\<exists>results g1 st g2 sh g3 lg g4 me g5 net g6 g7 g8 g9 g10 ops addr.
    inWorld (PrepareFilesystem (mc_os m)) g = Some (Inr results, g1) \<and> prepareStorage m g1 = Some (Inr st, g2) \<and>
    prepareSharedState m g2 = Some (Inr sh, g3) \<and>
    openLogStore m (PathJoin [sr_MountPoint st, ''state'', ''chat'']) g3 = Some (Inr lg, g4) \<and>
    probeEntropy m g4 = Some (Inr me, g5) \<and> configureNetwork m g5 = Some (Inr net, g6) \<and>
    openBBSStore m (BBSRoot sh (sr_MountPoint st @ ''/app'')) g6 = Some (Inr (bt_Store b), g7) \<and>
    startSSH m g8 = Some (Inr (bt_Service b), g9) \<and> buildHandler m ops g10 = Some (Inr (bt_Handler b), g') \<and>
    ops = \<lparr>wo_ListenAddr = addr, wo_Mounts = results, wo_Storage = st, wo_SharedState = sh,
        wo_Network = net, wo_Entropy = snd me, wo_VirtioRNGModule = fst me,
        wo_SSHStatus = Some (SSHApp.Status (mc_os m) (mc_ssh m) (bt_Service b)), wo_AIChatDebug = fst hooks,
        wo_AIChatHTTPSProbe = fst (snd hooks), wo_LogDebug = snd (snd hooks)\<rparr>"
  using assms unfolding bootSequence_def bindB_Inr split_beta
  by (elim exE conjE, simp only: option.inject prod.inject sum.inject, elim conjE, hypsubst, simp only: booted.simps,
      intro exI conjI) (assumption | rule refl)+


section \<open>Instances\<close>

definition ok_sql :: "unit sqlite_lib" where
  "ok_sql = \<lparr>sq_Open = \<lambda>d _. (None, d), sq_Close = \<lambda>d. (None, d), sq_Exec = \<lambda>d _ _. (Inr (Inr 1), d),
     sq_Query = \<lambda>_ _. Inr ([], None), sq_QueryInt = \<lambda>_ _. Inr 1\<rparr>"

definition machine1 :: "(unit, unit) machine" where
  "machine1 = \<lparr>mc_os = good_os, mc_net = net1 (Inr ack1), mc_logsq = ok_sql, mc_sq = ok_sql, mc_tm = mem_time,
     mc_json = \<lparr>js_Unmarshal = \<lambda>_. Inl (errorf ''json''), js_Marshal = \<lambda>_. Inl (errorf ''json'')\<rparr>,
     mc_key = key_os1, mc_disk = Map.empty,
     mc_ssh = \<lparr>sl_NewServer = \<lambda>_. None, sl_Listen = \<lambda>_. Inr, sl_Shutdown = None, sl_FormatTime = Itoa, sl_Uptime = Itoa\<rparr>,
     mc_web = \<lparr>we_os = good_os, we_Getpid = 1, we_Hostname = Inr ''guest'', we_GoVersion = ''go1.26'', we_GOOS = ''linux'',
       we_GOARCH = ''amd64'', we_RFC3339 = Itoa, we_Uptime = Itoa\<rparr>,
     mc_listen = \<lambda>_ _. errorf ''address in use''\<rparr>"

definition guest1 :: "(unit, unit) guest" where
  "guest1 = \<lparr>gs_world = [], gs_log = (), gs_bbs = (), gs_env = [''GO_INIT_ENABLE_STORAGE'' \<mapsto> ''0'', ''GO_INIT_ENABLE_SHARED_STATE'' \<mapsto> ''0'',
     ''GO_INIT_ENABLE_DHCP'' \<mapsto> ''0'', ''GO_INIT_ENABLE_SSH'' \<mapsto> ''0'', ''SSL_CERT_FILE'' \<mapsto> ''c''], gs_xid = 0\<rparr>"

definition env1 :: environ where "env1 = gs_env guest1"

lemma config1:
  "\<not> sc_Enabled (Storage.LoadConfigFromEnv good_os env1)" "\<not> hc_Enabled (SharedState.LoadConfigFromEnv env1)"
  "\<not> nc_EnableDHCP (Networking.LoadConfigFromEnv good_os env1)" "\<not> hk_Enabled (SSHApp.LoadConfigFromEnv good_os env1)"
proof -
  have "ParseBool ''0'' = Some False" "TrimSpace (ToLower ''0'') = ''0''" by code_simp+
  then show "\<not> sc_Enabled (Storage.LoadConfigFromEnv good_os env1)" "\<not> hc_Enabled (SharedState.LoadConfigFromEnv env1)"
    "\<not> nc_EnableDHCP (Networking.LoadConfigFromEnv good_os env1)" "\<not> hk_Enabled (SSHApp.LoadConfigFromEnv good_os env1)"
    by (simp_all add: Storage.LoadConfigFromEnv_def SharedState.LoadConfigFromEnv_def Networking.LoadConfigFromEnv_def
        SSHApp.LoadConfigFromEnv_def Storage.boolEnv_def SharedState.boolEnv_def Networking.boolEnv_def SSHApp.boolEnv_def
        getenv_def guest1_def env1_def)
qed

definition succeeds :: "('d, 'b, 'a) boot_step \<Rightarrow> ('a \<Rightarrow> bool) \<Rightarrow> bool" where
  "succeeds st P = (\<forall>g. gs_env g = env1 \<longrightarrow> (\<exists>a g'. st g = Some (Inr a, g') \<and> gs_env g' = env1 \<and> P a))"

lemma succeeds_bindB: "succeeds st P \<Longrightarrow> (\<And>a. P a \<Longrightarrow> succeeds (k a) Q) \<Longrightarrow> succeeds (bindB st k) Q"
  by (fastforce simp: succeeds_def bindB_def)

lemma exec1: "execLogStatements ok_sql sts d = (None, d)" "execAll ok_sql sts d = (None, d)"
  by (induction sts) (simp_all add: ok_sql_def)

lemma calls1: "sq_Open ok_sql d p = (None, d)" "sq_QueryInt ok_sql d q = Inr 1" "os_MkdirAll good_os w p n = None"
  by (simp_all add: ok_sql_def good_os_def)

lemma Open1: "\<exists>st w'. BBSStore.Open good_os ok_sql mem_time r (w, d) = (Inr st, w', d)"
  by (simp add: BBSStore.Open_def Let_def mkdirAll_def calls1 BBSStore.init_def exec1 CountMessages_def wrapR_def)

lemma OpenLog1:
  "TrimSpace p \<noteq> '''' \<Longrightarrow> \<exists>st w'. OpenLog \<lparr>le_os = good_os, le_sq = ok_sql, le_tm = tm, le_js = js\<rparr> p (w, d) = (Inr st, w', d)"
  by (simp add: OpenLog_def Let_def mkdirAll_def calls1 initLog_def exec1)

lemma steps1:
  "succeeds (inWorld f) (\<lambda>_. True)"
  "succeeds (prepareStorage machine1) (\<lambda>st. sr_MountPoint st = ''/var/lib/go-init'')"
  "succeeds (prepareSharedState machine1) (\<lambda>_. True)"
  "succeeds (configureNetwork machine1) (\<lambda>_. True)"
  "succeeds (openBBSStore machine1 r) (\<lambda>_. True)"
  "succeeds (startSSH machine1) (\<lambda>_. True)"
  "succeeds (buildHandler machine1 ops) (\<lambda>_. True)"
proof -
  show "succeeds (inWorld f) (\<lambda>_. True)" by (simp add: succeeds_def inWorld_def split: prod.split)
  have "sc_MountPoint (Storage.LoadConfigFromEnv good_os env1) = ''/var/lib/go-init''"
    by (simp add: Storage.LoadConfigFromEnv_def Storage.stringEnv_def getenv_def env1_def guest1_def Storage.defaultMountPoint_def)
  then show "succeeds (prepareStorage machine1) (\<lambda>st. sr_MountPoint st = ''/var/lib/go-init'')"
    using config1 by (simp add: succeeds_def prepareStorage_def fatal_def machine1_def Storage.Prepare_def Storage.prepare_def Let_def)
  show "succeeds (prepareSharedState machine1) (\<lambda>_. True)"
    using config1 by (simp add: succeeds_def prepareSharedState_def machine1_def SharedState.Prepare_def SharedState.prepare_def Let_def)
  show "succeeds (configureNetwork machine1) (\<lambda>_. True)"
    using config1 by (simp add: succeeds_def configureNetwork_def fatal_def machine1_def Configure_def Let_def logInterfaceInventory_def)
  show "succeeds (openBBSStore machine1 r) (\<lambda>_. True)"
    unfolding succeeds_def
  proof (intro allI impI)
    fix g :: "(unit, unit) guest"
    assume e: "gs_env g = env1"
    obtain st w' where "BBSStore.Open good_os ok_sql mem_time r (gs_world g, gs_bbs g) = (Inr st, w', gs_bbs g)"
      using Open1 by blast
    with e show "\<exists>a g'. openBBSStore machine1 r g = Some (Inr a, g') \<and> gs_env g' = env1 \<and> True"
      by (simp add: openBBSStore_def fatal_def machine1_def)
  qed
  show "succeeds (startSSH machine1) (\<lambda>_. True)"
    using config1 by (simp add: succeeds_def startSSH_def fatal_def machine1_def Start_def Let_def)
  show "succeeds (buildHandler machine1 ops) (\<lambda>_. True)"
    by (simp add: succeeds_def buildHandler_def fatal_def NewHandler_def Let_def now_def)
qed

lemma openLogStore1: "succeeds (openLogStore machine1 (PathJoin [''/var/lib/go-init'', ''state'', ''chat''])) (\<lambda>_. True)"
proof -
  have "TrimSpace (PathJoin [PathJoin [''/var/lib/go-init'', ''state'', ''chat''], ''logs.db'']) \<noteq> ''''" by code_simp
  note t = this
  show ?thesis
    unfolding succeeds_def
  proof (intro allI impI)
    fix g :: "(unit, unit) guest"
    assume e: "gs_env g = env1"
    let ?root = "PathJoin [''/var/lib/go-init'', ''state'', ''chat'']"
    obtain st w' where "OpenLog (logEnv machine1) (PathJoin [?root, ''logs.db'']) (gs_world g, gs_log g) = (Inr st, w', gs_log g)"
      using OpenLog1 [OF t, of "mc_tm machine1" "mc_json machine1" "gs_world g" "gs_log g"] by (auto simp: logEnv_def machine1_def)
    with e show "\<exists>a g'. openLogStore machine1 ?root g = Some (Inr a, g') \<and> gs_env g' = env1 \<and> True"
      by (simp add: openLogStore_def fatal_def)
  qed
qed

lemma probeEntropy1: "succeeds (probeEntropy machine1) (\<lambda>_. True)"
proof -
  have wait: "\<exists>r w'. WaitForVirtioRNG good_os t w = Some (r, w')" for t w
    using dirfs.waitForVirtioRNG_total [OF good_os_clock] by (fastforce simp: WaitForVirtioRNG_def)
  show ?thesis
    unfolding succeeds_def
  proof (intro allI impI)
    fix g :: "(unit, unit) guest"
    assume e: "gs_env g = env1"
    obtain mr w1 where 1: "LoadVirtioRNG good_os (gs_world g) = (mr, w1)" by fastforce
    obtain er w2 where 2: "Probe good_os w1 = (er, w2)" by fastforce
    obtain er' w3 where 3: "WaitForVirtioRNG good_os (2 * Storage.second) w2 = Some (er', w3)" using wait by blast
    show "\<exists>a g'. probeEntropy machine1 g = Some (Inr a, g') \<and> gs_env g' = env1 \<and> True"
      using e by (simp add: probeEntropy_def machine1_def 1 2 3)
  qed
qed

lemma tls1: "succeeds (configureGuestTLSDefaults machine1) (\<lambda>_. True)"
proof -
  have "env1 ''SSL_CERT_FILE'' = Some ''c''" by (simp add: env1_def guest1_def)
  then show ?thesis by (auto simp: succeeds_def configureGuestTLSDefaults_def stat_def Let_def split: sum.split)
qed

lemma addr1: "succeeds (\<lambda>g. Some (Inr (HTTPAddress (gs_env g)), g)) (\<lambda>_. True)"
  by (simp add: succeeds_def)

lemma succeeds_now: "succeeds (\<lambda>g. Some (Inr a, g)) (\<lambda>_. True)"
  by (simp add: succeeds_def)

lemma boot1: "\<exists>b g'. bootSequence machine1 (None, None, None) guest1 = Some (Inr b, g')"
proof -
  have "succeeds (bootSequence machine1 (None, None, None)) (\<lambda>_. True)"
    unfolding bootSequence_def split_beta
    by (rule succeeds_bindB [OF steps1(2)] succeeds_bindB [OF steps1(3)] succeeds_bindB [OF openLogStore1]
        succeeds_bindB [OF probeEntropy1] succeeds_bindB [OF steps1(4)] succeeds_bindB [OF steps1(5)] succeeds_bindB [OF tls1]
        succeeds_bindB [OF steps1(6)] succeeds_bindB [OF steps1(7)] succeeds_bindB [OF steps1(1)]
        succeeds_bindB [OF addr1] succeeds_now | simp only:)+
  then show ?thesis unfolding succeeds_def env1_def by blast
qed


theorem main_halts_witness:
  "let hooks = (None, None, None)
   in (\<exists>what e g'. main machine1 hooks guest1 = Some (Inl (what, e), g') \<and> what \<in> fatalSteps) \<and>
      initProcess machine1 hooks (\<lambda>_. None) guest1 = None"
  unfolding Let_def by (rule main_halts) (simp_all add: machine1_def good_os_clock errors_is_def errorf_def)

end
