(* ===== verification/AIDebug.thy ===== *)
theory AIDebug
  imports AIChat
begin

text \<open>
  \<^verbatim>\<open>internal/aichat/debug.go\<close>: the snapshots the web interface shows of the chat. The settings of the
  third-party library appear with the fields the code reads; \<^verbatim>\<open>time.Duration.String\<close>, the scheme
  \<^verbatim>\<open>url.Parse\<close> finds, the HTTP client and the read-only database are the fields of \<open>debug_lib\<close>. The
  client's run is the trace callbacks it makes and its response.
\<close>

section \<open>Data\<close>

definition defaultOpenAIBaseURL :: string where "defaultOpenAIBaseURL = ''https://api.openai.com/v1''"

definition maxBodyPreviewBytes :: nat where "maxBodyPreviewBytes = 32 * 1024"

definition maxRawSnapshotBytes :: nat where "maxRawSnapshotBytes = 32 * 1024"

record api_settings =
  as_APIKeys :: "string \<rightharpoonup> string"
  as_BaseUrls :: "string \<rightharpoonup> string"

record chat_settings =
  cs_ApiType :: "string option"
  cs_Engine :: "string option"

record client_settings =
  ct_Organization :: "string option"
  ct_UserAgent :: "string option"
  ct_Timeout :: "int option"

record StepSettings =
  ss_API :: "api_settings option"
  ss_Chat :: "chat_settings option"
  ss_Client :: "client_settings option"

record FileSnapshot =
  fs_Path :: string
  fs_Exists :: bool
  fs_Size :: int
  fs_Raw :: string
  fs_Error :: string

definition FileSnapshot0 :: FileSnapshot where
  "FileSnapshot0 = \<lparr>fs_Path = '''', fs_Exists = False, fs_Size = 0, fs_Raw = '''', fs_Error = ''''\<rparr>"

record registry_spec =
  sp_Raw :: string
  sp_Kind :: string
  sp_Path :: string
  sp_DSN :: string

record RegistrySourceSnapshot =
  rg_Raw :: string
  rg_Kind :: string
  rg_Path :: string
  rg_DSN :: string
  rg_File :: FileSnapshot
  rg_Stats :: "(string \<times> string) list"

record ProviderDebug =
  pd_APIType :: string
  pd_Engine :: string
  pd_BaseURL :: string
  pd_ChatRequestURL :: string
  pd_HTTPSProbeURL :: string
  pd_SelectedAPIKeyName :: string
  pd_SelectedAPIKey :: string
  pd_AvailableAPIKeys :: "string \<rightharpoonup> string"
  pd_AvailableBaseURLs :: "string \<rightharpoonup> string"
  pd_Organization :: string
  pd_UserAgent :: string
  pd_Timeout :: string
  pd_UsesHTTPS :: bool
  pd_Notes :: "string list"

record timelineCounts =
  tc_Conversations :: int
  tc_Versions :: int
  tc_Entities :: int

definition timelineCounts0 :: timelineCounts where
  "timelineCounts0 = \<lparr>tc_Conversations = 0, tc_Versions = 0, tc_Entities = 0\<rparr>"

record PersistenceDebugSnapshot =
  ps_Root :: string
  ps_ConversationID :: string
  ps_TurnsDB :: FileSnapshot
  ps_TurnsCount :: int
  ps_TurnsCountError :: string
  ps_TimelineDB :: FileSnapshot
  ps_TimelineCounts :: timelineCounts
  ps_TimelineCountError :: string

record 'any RuntimeDebugSnapshot =
  rn_GeneratedAt :: string
  rn_ConfigHome :: string
  rn_ConfigFile :: FileSnapshot
  rn_Persistence :: PersistenceDebugSnapshot
  rn_ProfileRegistries :: string
  rn_ProfileSlug :: string
  rn_RegistrySources :: "RegistrySourceSnapshot list"
  rn_AvailableProfiles :: "profile_item list"
  rn_ResolvedRegistry :: string
  rn_ResolvedProfile :: string
  rn_RuntimeKey :: string
  rn_RuntimeFingerprint :: string
  rn_SystemPrompt :: string
  rn_StepSettingsPatch :: 'any
  rn_ProfileMetadata :: 'any
  rn_EffectiveSettings :: "StepSettings option"
  rn_Provider :: ProviderDebug

datatype trace_call = DNSStart string | DNSDone bool string "go_error option" | ConnectStart string string
  | ConnectDone string string "go_error option" | TLSHandshakeStart | TLSHandshakeDone nat bool "go_error option"
  | GotConn bool bool | WroteRequest "go_error option" | GotFirstResponseByte

record HTTPTraceEvent =
  ht_At :: string
  ht_Event :: string
  ht_Detail :: string

record request =
  rq_Method :: string
  rq_URL :: string
  rq_Header :: "(string \<times> string) list"

record response =
  rp_StatusCode :: int
  rp_Status :: string
  rp_Headers :: "(string \<times> string list) list"
  rp_Body :: bytes
  rp_BodyError :: "go_error option"

record HTTPSProbeResult =
  pb_GeneratedAt :: string
  pb_Provider :: ProviderDebug
  pb_Method :: string
  pb_RequestURL :: string
  pb_Duration :: string
  pb_StatusCode :: int
  pb_Status :: string
  pb_ResponseHeaders :: "(string \<times> string list) list"
  pb_BodyPreview :: string
  pb_Trace :: "HTTPTraceEvent list"
  pb_Error :: string

text \<open>The client's run: its trace callbacks with the text of the time since the start, then its answer.\<close>

type_synonym client_run = "(string \<times> trace_call) list \<times> response result"

record debug_lib =
  db_OpenAI :: string
  db_OpenAIResponses :: string
  db_SQLiteDSNKind :: string
  db_Duration :: "int \<Rightarrow> string"
  db_Scheme :: "string \<Rightarrow> string option"
  db_RFC3339 :: "int \<Rightarrow> string"
  db_SourceEntries :: "string \<Rightarrow> (string list) result"
  db_SourceSpecs :: "string list \<Rightarrow> (registry_spec list) result"
  db_OpenReadOnly :: "string \<Rightarrow> go_error option"
  db_Count :: "string \<Rightarrow> string \<Rightarrow> int result"
  db_NewRequest :: "string \<Rightarrow> go_error option"
  db_Since :: "world \<Rightarrow> string"
  db_Do :: "int \<Rightarrow> request \<Rightarrow> client_run"

section \<open>Files and databases\<close>

definition shouldExposeRawSnapshot :: "string \<Rightarrow> bytes \<Rightarrow> bool" where
  "shouldExposeRawSnapshot path body =
     (if length body = 0 \<or> maxRawSnapshotBytes < length body then False
      else if List.member [''.db'', ''.wal'', ''.shm'', ''.ko'', ''.img''] (ToLower (Ext path)) then False
      else \<not> List.member body (CHR 0x00))"

definition snapshotFile :: "os \<Rightarrow> string \<Rightarrow> FileSnapshot io" where
  "snapshotFile os path w =
     (let path = TrimSpace path
      in if path = '''' then (FileSnapshot0, w)
         else case stat os path w of
                (Inl e, w) \<Rightarrow> (FileSnapshot0\<lparr>fs_Path := path, fs_Error := err_text e\<rparr>, w)
              | (Inr info, w) \<Rightarrow>
                  (let snapshot = FileSnapshot0\<lparr>fs_Path := path, fs_Exists := True, fs_Size := st_size info\<rparr>
                   in if st_dir info then (snapshot\<lparr>fs_Error := ''path is a directory''\<rparr>, w)
                      else (case readFile os path w of
                              (Inl e, w) \<Rightarrow> (snapshot\<lparr>fs_Error := err_text e\<rparr>, w)
                            | (Inr body, w) \<Rightarrow>
                                (if shouldExposeRawSnapshot path body then snapshot\<lparr>fs_Raw := body\<rparr> else snapshot, w))))"

text \<open>\<^verbatim>\<open>Inr None\<close> is a nil database without an error; otherwise the result is the DSN opened.\<close>

definition openReadOnlySQLite :: "os \<Rightarrow> debug_lib \<Rightarrow> string \<Rightarrow> ((string option) result) io" where
  "openReadOnlySQLite os lib path w =
     (let path = TrimSpace path
      in if path = '''' then (Inr None, w)
         else case stat os path w of
                (Inl e, w) \<Rightarrow> (if errors_is e ErrNotExist then Inr None else Inl e, w)
              | (Inr _, w) \<Rightarrow>
                  (let dsn = ''file:'' @ path @ ''?mode=ro&_busy_timeout=5000''
                   in case db_OpenReadOnly lib dsn of Some e \<Rightarrow> (Inl e, w) | None \<Rightarrow> (Inr (Some dsn), w)))"

definition selectCount :: "string \<Rightarrow> string" where
  "selectCount table = ''SELECT COUNT('' @ ''*) FROM '' @ table"

definition queryTurnsCount :: "os \<Rightarrow> debug_lib \<Rightarrow> string \<Rightarrow> (int result) io" where
  "queryTurnsCount os lib path w =
     (if TrimSpace path = '''' then (Inr 0, w)
      else case openReadOnlySQLite os lib path w of
             (Inl e, w) \<Rightarrow> (Inl e, w)
           | (Inr None, w) \<Rightarrow> (Inr 0, w)
           | (Inr (Some db), w) \<Rightarrow> (db_Count lib db (selectCount ''turns''), w))"

definition queryTimelineCounts :: "os \<Rightarrow> debug_lib \<Rightarrow> string \<Rightarrow> (timelineCounts result) io" where
  "queryTimelineCounts os lib path w =
     (if TrimSpace path = '''' then (Inr timelineCounts0, w)
      else case openReadOnlySQLite os lib path w of
             (Inl e, w) \<Rightarrow> (Inl e, w)
           | (Inr None, w) \<Rightarrow> (Inr timelineCounts0, w)
           | (Inr (Some db), w) \<Rightarrow>
               (bindR (db_Count lib db (selectCount ''timeline_conversations'')) (\<lambda>c.
                bindR (db_Count lib db (selectCount ''timeline_versions'')) (\<lambda>v.
                bindR (db_Count lib db (selectCount ''timeline_entities'')) (\<lambda>e.
                Inr \<lparr>tc_Conversations = c, tc_Versions = v, tc_Entities = e\<rparr>))), w))"

fun snapshotSpecs :: "os \<Rightarrow> debug_lib \<Rightarrow> registry_spec list \<Rightarrow> (RegistrySourceSnapshot list) io" where
  "snapshotSpecs os lib [] w = ([], w)"
| "snapshotSpecs os lib (spec # specs) w =
     (case snapshotFile os (sp_Path spec) w of (f, w) \<Rightarrow>
        (let item = \<lparr>rg_Raw = sp_Raw spec, rg_Kind = sp_Kind spec, rg_Path = sp_Path spec, rg_DSN = sp_DSN spec, rg_File = f, rg_Stats = []\<rparr>;
             item = (if sp_Kind spec = db_SQLiteDSNKind lib
                     then item\<lparr>rg_File := FileSnapshot0, rg_Stats := [(''dsn'', sp_DSN spec)]\<rparr> else item)
         in case snapshotSpecs os lib specs w of (rest, w) \<Rightarrow> (item # rest, w)))"

definition snapshotRegistrySources :: "os \<Rightarrow> debug_lib \<Rightarrow> string \<Rightarrow> ((RegistrySourceSnapshot list) result) io" where
  "snapshotRegistrySources os lib raw w =
     (case bindR (db_SourceEntries lib raw) (db_SourceSpecs lib) of
        Inl e \<Rightarrow> (Inl e, w)
      | Inr specs \<Rightarrow> (case snapshotSpecs os lib specs w of (ret, w) \<Rightarrow> (Inr ret, w)))"

section \<open>The provider\<close>

definition lookupAPIKey :: "StepSettings option \<Rightarrow> string \<Rightarrow> string" where
  "lookupAPIKey settings key =
     (case Option.bind settings ss_API of None \<Rightarrow> ''''
      | Some api \<Rightarrow> TrimSpace (case as_APIKeys api key of Some v \<Rightarrow> v | None \<Rightarrow> ''''))"

definition lookupBaseURL :: "StepSettings option \<Rightarrow> string \<Rightarrow> string \<Rightarrow> string" where
  "lookupBaseURL settings key fallback =
     (case Option.bind settings ss_API of None \<Rightarrow> fallback
      | Some api \<Rightarrow>
          (let value = TrimSpace (case as_BaseUrls api key of Some v \<Rightarrow> v | None \<Rightarrow> '''')
           in if value \<noteq> '''' then value else fallback))"

definition joinURL :: "string \<Rightarrow> string \<Rightarrow> string" where
  "joinURL baseURL suff =
     (let trimmed = TrimRight1 slash (TrimSpace baseURL) in if trimmed = '''' then '''' else trimmed @ suff)"

definition providerTimeout :: "StepSettings option \<Rightarrow> int" where
  "providerTimeout settings =
     (case Option.bind (Option.bind settings ss_Client) ct_Timeout of
        Some t \<Rightarrow> if 0 < t then t else 15 * 1000000000
      | None \<Rightarrow> 15 * 1000000000)"

definition ProviderDebug0 :: "string \<Rightarrow> ProviderDebug" where
  "ProviderDebug0 timeout = \<lparr>pd_APIType = '''', pd_Engine = '''', pd_BaseURL = '''', pd_ChatRequestURL = '''', pd_HTTPSProbeURL = '''',
     pd_SelectedAPIKeyName = '''', pd_SelectedAPIKey = '''', pd_AvailableAPIKeys = Map.empty, pd_AvailableBaseURLs = Map.empty,
     pd_Organization = '''', pd_UserAgent = '''', pd_Timeout = timeout, pd_UsesHTTPS = False, pd_Notes = []\<rparr>"

definition fromSettings :: "StepSettings \<Rightarrow> ProviderDebug \<Rightarrow> ProviderDebug" where
  "fromSettings settings provider =
     (let provider = (case ss_API settings of None \<Rightarrow> provider
            | Some api \<Rightarrow> provider\<lparr>pd_AvailableAPIKeys := as_APIKeys api, pd_AvailableBaseURLs := as_BaseUrls api\<rparr>);
          provider = (case ss_Chat settings of None \<Rightarrow> provider
            | Some chat \<Rightarrow> provider\<lparr>pd_APIType := (case cs_ApiType chat of Some t \<Rightarrow> t | None \<Rightarrow> ''''),
                                    pd_Engine := (case cs_Engine chat of Some e \<Rightarrow> e | None \<Rightarrow> '''')\<rparr>)
      in case ss_Client settings of None \<Rightarrow> provider
         | Some client \<Rightarrow> provider\<lparr>pd_Organization := (case ct_Organization client of Some v \<Rightarrow> TrimSpace v | None \<Rightarrow> ''''),
                                   pd_UserAgent := (case ct_UserAgent client of Some v \<Rightarrow> TrimSpace v | None \<Rightarrow> '''')\<rparr>)"

definition selectProvider :: "StepSettings option \<Rightarrow> string \<Rightarrow> string \<Rightarrow> string \<Rightarrow> string \<Rightarrow> ProviderDebug \<Rightarrow> ProviderDebug" where
  "selectProvider settings urlKey urlDefault chatPath keyName provider =
     (let baseURL = lookupBaseURL settings urlKey urlDefault
      in provider\<lparr>pd_BaseURL := baseURL, pd_ChatRequestURL := joinURL baseURL chatPath, pd_HTTPSProbeURL := joinURL baseURL ''/models'',
           pd_SelectedAPIKeyName := keyName, pd_SelectedAPIKey := lookupAPIKey settings keyName\<rparr>)"

definition responsesNote :: string where
  "responsesNote = ''openai-responses-api-key is present, but the current openai_responses engine reads openai-api-key''"

definition providerDebug :: "debug_lib \<Rightarrow> StepSettings option \<Rightarrow> ProviderDebug" where
  "providerDebug lib settings =
     (let provider = ProviderDebug0 (db_Duration lib (providerTimeout settings))
      in case settings of
           None \<Rightarrow> provider\<lparr>pd_Notes := [''step settings are nil'']\<rparr>
         | Some st \<Rightarrow>
             (let provider = fromSettings st provider; apiType = pd_APIType provider;
                  (provider, notes) =
                    (if apiType = db_OpenAI lib
                     then (selectProvider settings ''openai-base-url'' defaultOpenAIBaseURL ''/chat/completions'' ''openai-api-key'' provider, [])
                     else if apiType = db_OpenAIResponses lib
                     then (let provider = selectProvider settings ''openai-base-url'' defaultOpenAIBaseURL ''/responses'' ''openai-api-key'' provider
                           in (provider,
                               if pd_SelectedAPIKey provider = '''' \<and> lookupAPIKey settings ''openai-responses-api-key'' \<noteq> ''''
                               then [responsesNote] else []))
                     else if apiType = '''' then (provider, [''chat api type is empty''])
                     else (selectProvider settings (apiType @ ''-base-url'') '''' ''/chat/completions'' (apiType @ ''-api-key'') provider, []));
                  notes = notes @ (if pd_BaseURL provider = '''' then [''resolved provider base URL is empty''] else []);
                  provider = (case db_Scheme lib (pd_BaseURL provider) of None \<Rightarrow> provider
                    | Some scheme \<Rightarrow> provider\<lparr>pd_UsesHTTPS := (ToLower scheme = ''https'')\<rparr>);
                  notes = notes @ (if pd_SelectedAPIKey provider = ''''
                    then [''resolved API key '' @ quote (pd_SelectedAPIKeyName provider) @ '' is empty''] else [])
              in provider\<lparr>pd_Notes := notes\<rparr>))"

section \<open>The probe\<close>

definition err_v :: "go_error option \<Rightarrow> string" where
  "err_v e = (case e of None \<Rightarrow> ''<nil>'' | Some x \<Rightarrow> err_text x)"

definition bool_t :: "bool \<Rightarrow> string" where
  "bool_t b = (if b then ''true'' else ''false'')"

definition traceEvent :: "trace_call \<Rightarrow> string \<times> string" where
  "traceEvent c =
     (case c of
        DNSStart host \<Rightarrow> (''dns_start'', host)
      | DNSDone coalesced addrs e \<Rightarrow> (''dns_done'', ''coalesced='' @ bool_t coalesced @ '' addrs='' @ addrs @ '' err='' @ err_v e)
      | ConnectStart network addr \<Rightarrow> (''connect_start'', network @ '' '' @ addr)
      | ConnectDone network addr e \<Rightarrow> (''connect_done'', network @ '' '' @ addr @ '' err='' @ err_v e)
      | TLSHandshakeStart \<Rightarrow> (''tls_handshake_start'', '''')
      | TLSHandshakeDone version resume e \<Rightarrow>
          (''tls_handshake_done'', ''version='' @ digits 16 version @ '' did_resume='' @ bool_t resume @ '' err='' @ err_v e)
      | GotConn reused idle \<Rightarrow> (''got_conn'', ''reused='' @ bool_t reused @ '' was_idle='' @ bool_t idle)
      | WroteRequest e \<Rightarrow> (''wrote_request'', ''err='' @ err_v e)
      | GotFirstResponseByte \<Rightarrow> (''first_response_byte'', ''''))"

definition appendTrace :: "string \<Rightarrow> string \<times> string \<Rightarrow> HTTPTraceEvent list \<Rightarrow> HTTPTraceEvent list" where
  "appendTrace at x tr = (case x of (event, detail) \<Rightarrow> tr @ [\<lparr>ht_At = at, ht_Event = event, ht_Detail = detail\<rparr>])"

definition probeHeaders :: "ProviderDebug \<Rightarrow> (string \<times> string) list" where
  "probeHeaders provider =
     [(''Accept'', ''application/json'')] @
     (if pd_SelectedAPIKey provider \<noteq> '''' then [(''Authorization'', ''Bearer '' @ pd_SelectedAPIKey provider)] else []) @
     (if TrimSpace (pd_Organization provider) \<noteq> '''' then [(''OpenAI-Organization'', pd_Organization provider)] else []) @
     [(''User-Agent'', if TrimSpace (pd_UserAgent provider) \<noteq> '''' then pd_UserAgent provider else ''qemu-go-init-aichat-debug/1'')]"

text \<open>\<^verbatim>\<open>io.ReadAll(io.LimitReader(body, n))\<close>: an error of the body that comes after the limit is not seen.\<close>

definition readLimited :: "nat \<Rightarrow> bytes \<Rightarrow> go_error option \<Rightarrow> bytes \<times> go_error option" where
  "readLimited n body e = (take n body, if length body < n then e else None)"

definition probeProviderHTTPSWithClient ::
  "os \<Rightarrow> debug_lib \<Rightarrow> ProviderDebug \<Rightarrow> int option \<Rightarrow> (HTTPSProbeResult result) io" where
  "probeProviderHTTPSWithClient os lib provider client w =
     (let clientTimeout = (case client of None \<Rightarrow> 15 * 1000000000 | Some t \<Rightarrow> t)
      in if TrimSpace (pd_HTTPSProbeURL provider) = '''' then (Inl (errorf ''provider probe URL is empty''), w)
         else
           (let timeout = (if clientTimeout \<le> 0 then 15 * 1000000000 else clientTimeout)
            in case now os w of (started, w) \<Rightarrow>
              (case db_NewRequest lib (pd_HTTPSProbeURL provider) of
                 Some e \<Rightarrow> (Inl e, w)
               | None \<Rightarrow>
                   (case db_Do lib timeout \<lparr>rq_Method = ''GET'', rq_URL = pd_HTTPSProbeURL provider, rq_Header = probeHeaders provider\<rparr> of
                      (calls, answer) \<Rightarrow>
                        (let tr = fold (\<lambda>(at, c). appendTrace at (traceEvent c)) calls []
                         in case answer of
                              Inl e \<Rightarrow>
                                (let tr = appendTrace (db_Since lib w) (''request_error'', err_text e) tr
                                 in case now os w of (t, w) \<Rightarrow>
                                   (Inr \<lparr>pb_GeneratedAt = db_RFC3339 lib t, pb_Provider = provider, pb_Method = ''GET'',
                                         pb_RequestURL = pd_HTTPSProbeURL provider, pb_Duration = db_Since lib w, pb_StatusCode = 0,
                                         pb_Status = '''', pb_ResponseHeaders = [], pb_BodyPreview = '''', pb_Trace = tr,
                                         pb_Error = err_text e\<rparr>, w))
                            | Inr resp \<Rightarrow>
                                (case readLimited maxBodyPreviewBytes (rp_Body resp) (rp_BodyError resp) of (preview, readErr) \<Rightarrow>
                                   (let tr = (case readErr of None \<Rightarrow> tr
                                          | Some e \<Rightarrow> appendTrace (db_Since lib w) (''read_error'', err_text e) tr)
                                    in case now os w of (t, w) \<Rightarrow>
                                      (Inr \<lparr>pb_GeneratedAt = db_RFC3339 lib t, pb_Provider = provider, pb_Method = ''GET'',
                                            pb_RequestURL = pd_HTTPSProbeURL provider, pb_Duration = db_Since lib w,
                                            pb_StatusCode = rp_StatusCode resp, pb_Status = rp_Status resp,
                                            pb_ResponseHeaders = rp_Headers resp, pb_BodyPreview = preview, pb_Trace = tr,
                                            pb_Error = (case readErr of Some e \<Rightarrow> err_text e | None \<Rightarrow> '''')\<rparr>, w))))))))"

definition ProbeProviderHTTPS ::
  "os \<Rightarrow> (StepSettings, 'any, 'mgr) profile_lib \<Rightarrow> debug_lib \<Rightarrow> ai_Options \<Rightarrow> ai_st \<Rightarrow> HTTPSProbeResult result \<times> ai_st" where
  "ProbeProviderHTTPS os plib lib options s =
     (case loadRuntimeDetails os plib options s of
        (Inl e, s) \<Rightarrow> (Inl e, s)
      | (Inr details, s) \<Rightarrow>
          (let settings = rs_EffectiveStepSettings (rd_resolved details)
           in case probeProviderHTTPSWithClient os lib (providerDebug lib settings) (Some (providerTimeout settings)) (a_world s) of
                (r, w) \<Rightarrow> (r, s\<lparr>a_world := w\<rparr>)))"

section \<open>The snapshot\<close>

definition persistenceSnapshot :: "os \<Rightarrow> debug_lib \<Rightarrow> ai_Options \<Rightarrow> PersistenceDebugSnapshot io" where
  "persistenceSnapshot os lib options w =
     (let root = defaultChatStateRoot (firstNonEmpty [ai_ChatStateRoot options, ai_StateRoot options])
      in case snapshotFile os (PathJoin [root, ''turns.db'']) w of (turnsDB, w) \<Rightarrow>
        (case snapshotFile os (PathJoin [root, ''timeline.db'']) w of (timelineDB, w) \<Rightarrow>
        (case queryTurnsCount os lib (fs_Path turnsDB) w of (turns, w) \<Rightarrow>
        (case queryTimelineCounts os lib (fs_Path timelineDB) w of (timeline, w) \<Rightarrow>
           (\<lparr>ps_Root = root, ps_ConversationID = firstNonEmpty [ai_ConversationID options, defaultConversationID],
              ps_TurnsDB = turnsDB,
              ps_TurnsCount = (case turns of Inl _ \<Rightarrow> 0 | Inr n \<Rightarrow> n),
              ps_TurnsCountError = (case turns of Inl e \<Rightarrow> err_text e | Inr _ \<Rightarrow> ''''),
              ps_TimelineDB = timelineDB,
              ps_TimelineCounts = (case timeline of Inl _ \<Rightarrow> timelineCounts0 | Inr c \<Rightarrow> c),
              ps_TimelineCountError = (case timeline of Inl e \<Rightarrow> err_text e | Inr _ \<Rightarrow> '''')\<rparr>, w)))))"

text \<open>A summary of a profile has the fields of the item it is made of.\<close>

definition DebugSnapshot ::
  "os \<Rightarrow> (StepSettings, 'any, 'mgr) profile_lib \<Rightarrow> debug_lib \<Rightarrow> ai_Options \<Rightarrow> ai_st \<Rightarrow> ('any RuntimeDebugSnapshot) result \<times> ai_st" where
  "DebugSnapshot os plib lib options s =
     (case loadRuntimeDetails os plib options s of
        (Inl e, s) \<Rightarrow> (Inl e, s)
      | (Inr details, s) \<Rightarrow>
     (case snapshotFile os (PathJoin [rd_configHome details, ''pinocchio'', ''config.yaml'']) (a_world s) of (configFile, w) \<Rightarrow>
     (case snapshotRegistrySources os lib (rd_profileRegistries details) w of
        (Inl e, w) \<Rightarrow> (Inl e, s\<lparr>a_world := w\<rparr>)
      | (Inr registrySources, w) \<Rightarrow>
     (case persistenceSnapshot os lib options w of (persistence, w) \<Rightarrow>
     (case now os w of (t, w) \<Rightarrow>
       (let resolved = rd_resolved details
        in (Inr \<lparr>rn_GeneratedAt = db_RFC3339 lib t, rn_ConfigHome = rd_configHome details, rn_ConfigFile = configFile,
                 rn_Persistence = persistence, rn_ProfileRegistries = rd_profileRegistries details,
                 rn_ProfileSlug = rd_profileSlug details, rn_RegistrySources = registrySources,
                 rn_AvailableProfiles = rd_profiles details, rn_ResolvedRegistry = rs_RegistrySlug resolved,
                 rn_ResolvedProfile = rs_ProfileSlug resolved, rn_RuntimeKey = rs_RuntimeKey resolved,
                 rn_RuntimeFingerprint = rs_RuntimeFingerprint resolved, rn_SystemPrompt = rs_SystemPrompt resolved,
                 rn_StepSettingsPatch = rs_StepSettingsPatch resolved, rn_ProfileMetadata = rs_Metadata resolved,
                 rn_EffectiveSettings = rs_EffectiveStepSettings resolved,
                 rn_Provider = providerDebug lib (rs_EffectiveStepSettings resolved)\<rparr>,
            s\<lparr>a_world := w\<rparr>)))))))"

section \<open>Properties\<close>

text \<open>The events a file snapshot adds: it only looks at the path and reads it.\<close>

lemma snapshotFile_events:
  "\<exists>n. snd (snapshotFile os p w) = w @ take n [Stat (TrimSpace p), ReadFile (TrimSpace p)]"
proof -
  let ?p = "TrimSpace p"
  have "snd (snapshotFile os p w) \<in> {w, w @ [Stat ?p], w @ [Stat ?p, ReadFile ?p]}"
    by (auto simp: snapshotFile_def Let_def stat_def readFile_def split: sum.split)
  then consider "snd (snapshotFile os p w) = w @ take 0 [Stat ?p, ReadFile ?p]"
    | "snd (snapshotFile os p w) = w @ take 1 [Stat ?p, ReadFile ?p]" | "snd (snapshotFile os p w) = w @ take 2 [Stat ?p, ReadFile ?p]"
    by auto
  then show ?thesis by cases blast+
qed

text \<open>
  C34. A file snapshot shows content only as it was read from an existing file that is not a
  directory, has at most 32 KiB, no zero byte and none of the extensions of databases, modules and images. The
  snapshot looks at the path and reads it, and changes nothing.
\<close>

theorem snapshotFile_spec:
  assumes "snapshotFile os p w = (f, w')"
  shows "(fs_Raw f \<noteq> '''' \<longrightarrow> fs_Exists f \<and> os_ReadFile os (w @ [Stat (TrimSpace p)]) (TrimSpace p) = Inr (fs_Raw f) \<and>
            length (fs_Raw f) \<le> 32768 \<and> CHR 0x00 \<notin> set (fs_Raw f) \<and>
            ToLower (Ext (TrimSpace p)) \<notin> {''.db'', ''.wal'', ''.shm'', ''.ko'', ''.img''}) \<and>
         (fs_Exists f \<longleftrightarrow> TrimSpace p \<noteq> '''' \<and> (\<exists>info. os_Stat os w (TrimSpace p) = Inr info)) \<and>
         (\<exists>n. w' = w @ take n [Stat (TrimSpace p), ReadFile (TrimSpace p)])"
proof -
  have "\<exists>n. w' = w @ take n [Stat (TrimSpace p), ReadFile (TrimSpace p)]"
    using snapshotFile_events [of os p w] assms by simp
  moreover have "fs_Exists f \<longleftrightarrow> TrimSpace p \<noteq> '''' \<and> (\<exists>info. os_Stat os w (TrimSpace p) = Inr info)"
    using assms by (auto simp: snapshotFile_def Let_def stat_def readFile_def FileSnapshot0_def split: sum.splits if_splits)
  moreover have "fs_Exists f \<and> os_ReadFile os (w @ [Stat (TrimSpace p)]) (TrimSpace p) = Inr (fs_Raw f) \<and>
      shouldExposeRawSnapshot (TrimSpace p) (fs_Raw f)" if "fs_Raw f \<noteq> ''''"
    using assms that
    by (auto simp: snapshotFile_def Let_def stat_def readFile_def FileSnapshot0_def split: sum.splits if_splits)
  ultimately show ?thesis
    by (auto simp: shouldExposeRawSnapshot_def maxRawSnapshotBytes_def split: if_splits)
qed

lemma fromSettings_keeps [simp]:
  "pd_BaseURL (fromSettings st p) = pd_BaseURL p" "pd_HTTPSProbeURL (fromSettings st p) = pd_HTTPSProbeURL p"
  "pd_SelectedAPIKeyName (fromSettings st p) = pd_SelectedAPIKeyName p" "pd_SelectedAPIKey (fromSettings st p) = pd_SelectedAPIKey p"
  by (simp_all add: fromSettings_def Let_def split: option.split)

lemma ProviderDebug0_simps [simp]:
  "pd_BaseURL (ProviderDebug0 t) = ''''" "pd_HTTPSProbeURL (ProviderDebug0 t) = ''''"
  "pd_SelectedAPIKeyName (ProviderDebug0 t) = ''''" "pd_SelectedAPIKey (ProviderDebug0 t) = ''''"
  by (simp_all add: ProviderDebug0_def)

lemma selectProvider_simps [simp]:
  "pd_HTTPSProbeURL (selectProvider settings u d c k p) = joinURL (pd_BaseURL (selectProvider settings u d c k p)) ''/models''"
  "pd_SelectedAPIKeyName (selectProvider settings u d c k p) = k"
  "pd_SelectedAPIKey (selectProvider settings u d c k p) = lookupAPIKey settings k"
  by (simp_all add: selectProvider_def Let_def)

lemma joinURL_empty [simp]: "joinURL '''' s = ''''"
proof -
  have "TrimRight1 slash (TrimSpace '''') = ''''" by code_simp
  then show ?thesis by (simp add: joinURL_def)
qed

text \<open>
  What a provider summary says agrees with the settings: the selected key is the one stored under the
  selected name, the probe URL is made of the base URL, and there is no note exactly when there are a base
  URL and a key.
\<close>

theorem providerDebug_consistent:
  assumes "p = providerDebug lib settings"
  shows "(pd_SelectedAPIKeyName p \<noteq> '''' \<longrightarrow> pd_SelectedAPIKey p = lookupAPIKey settings (pd_SelectedAPIKeyName p)) \<and>
    (pd_SelectedAPIKeyName p = '''' \<longrightarrow> pd_SelectedAPIKey p = '''') \<and>
    pd_HTTPSProbeURL p = joinURL (pd_BaseURL p) ''/models'' \<and>
    (pd_Notes p = [] \<longleftrightarrow> pd_BaseURL p \<noteq> '''' \<and> pd_SelectedAPIKey p \<noteq> '''')"
proof (cases settings)
  case (Some st)
  let ?t = "pd_APIType (fromSettings st (ProviderDebug0 (db_Duration lib (providerTimeout settings))))"
  consider "?t = db_OpenAI lib" | "?t \<noteq> db_OpenAI lib" "?t = db_OpenAIResponses lib"
    | "?t \<noteq> db_OpenAI lib" "?t \<noteq> db_OpenAIResponses lib" "?t = ''''"
    | "?t \<noteq> db_OpenAI lib" "?t \<noteq> db_OpenAIResponses lib" "?t \<noteq> ''''" by blast
  then show ?thesis
    by cases (simp_all add: assms providerDebug_def Some Let_def split: option.split)
qed (simp add: assms providerDebug_def Let_def)

lemma Authorization_header:
  "map_of (probeHeaders p) ''Authorization'' =
     (if pd_SelectedAPIKey p = '''' then None else Some (''Bearer '' @ pd_SelectedAPIKey p))"
  by (simp add: probeHeaders_def)

text \<open>
  C35. The probe fails only without a URL or when no request can be made of it. Otherwise
  it asks once, with a positive time limit and with the selected key and no other as credential; the
  preview is a prefix of the body, all of it up to 32 KiB, and a failure of the client is reported in
  the result.
\<close>

theorem probe_spec:
  assumes "probeProviderHTTPSWithClient os lib provider client w = (r, w')"
  shows "case r of
      Inl _ \<Rightarrow> TrimSpace (pd_HTTPSProbeURL provider) = '''' \<or> db_NewRequest lib (pd_HTTPSProbeURL provider) \<noteq> None
    | Inr pb \<Rightarrow> length (pb_BodyPreview pb) \<le> 32768 \<and>
        (\<exists>timeout rq calls answer. 0 < timeout \<and> db_Do lib timeout rq = (calls, answer) \<and>
           rq_URL rq = pd_HTTPSProbeURL provider \<and>
           map_of (rq_Header rq) ''Authorization'' =
             (if pd_SelectedAPIKey provider = '''' then None else Some (''Bearer '' @ pd_SelectedAPIKey provider)) \<and>
           (case answer of
              Inl e \<Rightarrow> pb_Error pb = err_text e \<and> pb_BodyPreview pb = ''''
            | Inr resp \<Rightarrow> pb_StatusCode pb = rp_StatusCode resp \<and> prefix (pb_BodyPreview pb) (rp_Body resp) \<and>
                (length (rp_Body resp) \<le> 32768 \<longrightarrow> pb_BodyPreview pb = rp_Body resp)))"
proof (cases "TrimSpace (pd_HTTPSProbeURL provider) = '''' \<or> db_NewRequest lib (pd_HTTPSProbeURL provider) \<noteq> None")
  case True
  have "\<exists>e. r = Inl e"
  proof (cases "TrimSpace (pd_HTTPSProbeURL provider) = ''''")
    case False
    with True obtain e where "db_NewRequest lib (pd_HTTPSProbeURL provider) = Some e" by blast
    with assms False show ?thesis by (auto simp: probeProviderHTTPSWithClient_def Let_def now_def)
  qed (use assms in \<open>auto simp: probeProviderHTTPSWithClient_def Let_def\<close>)
  then obtain e where e: "r = Inl e" by blast
  show ?thesis unfolding e sum.case by (rule True)
next
  case False
  let ?c = "case client of None \<Rightarrow> 15 * 1000000000 | Some t \<Rightarrow> t"
  let ?t = "if ?c \<le> 0 then 15 * 1000000000 else ?c"
  let ?rq = "\<lparr>rq_Method = ''GET'', rq_URL = pd_HTTPSProbeURL provider, rq_Header = probeHeaders provider\<rparr>"
  obtain calls answer where run: "db_Do lib ?t ?rq = (calls, answer)" by fastforce
  have "\<exists>pb. r = Inr pb \<and> (case answer of
      Inl e \<Rightarrow> pb_Error pb = err_text e \<and> pb_BodyPreview pb = ''''
    | Inr resp \<Rightarrow> pb_StatusCode pb = rp_StatusCode resp \<and> pb_BodyPreview pb = take 32768 (rp_Body resp))"
    using assms False run
    by (cases answer) (auto simp: probeProviderHTTPSWithClient_def Let_def now_def readLimited_def maxBodyPreviewBytes_def)
  then obtain pb where pb: "r = Inr pb" "case answer of
      Inl e \<Rightarrow> pb_Error pb = err_text e \<and> pb_BodyPreview pb = ''''
    | Inr resp \<Rightarrow> pb_StatusCode pb = rp_StatusCode resp \<and> pb_BodyPreview pb = take 32768 (rp_Body resp)" by blast
  have a: "case answer of
      Inl e \<Rightarrow> pb_Error pb = err_text e \<and> pb_BodyPreview pb = ''''
    | Inr resp \<Rightarrow> pb_StatusCode pb = rp_StatusCode resp \<and> prefix (pb_BodyPreview pb) (rp_Body resp) \<and>
        (length (rp_Body resp) \<le> 32768 \<longrightarrow> pb_BodyPreview pb = rp_Body resp)"
    and l: "length (pb_BodyPreview pb) \<le> 32768"
    using pb(2) by (cases answer; simp add: take_is_prefix)+
  have "0 < ?t \<and> db_Do lib ?t ?rq = (calls, answer) \<and> rq_URL ?rq = pd_HTTPSProbeURL provider \<and>
     map_of (rq_Header ?rq) ''Authorization'' =
       (if pd_SelectedAPIKey provider = '''' then None else Some (''Bearer '' @ pd_SelectedAPIKey provider))"
    using run Authorization_header [of provider] by simp
  with a l pb(1) show ?thesis by (simp only: sum.case) blast
qed

section \<open>Instances\<close>

definition debug1 :: debug_lib where
  "debug1 = \<lparr>db_OpenAI = ''openai'', db_OpenAIResponses = ''openai-responses'', db_SQLiteDSNKind = ''sqlite-dsn'', db_Duration = Itoa,
     db_Scheme = \<lambda>_. Some ''HTTPS'', db_RFC3339 = Itoa, db_SourceEntries = \<lambda>s. Inr [s], db_SourceSpecs = \<lambda>_. Inr [],
     db_OpenReadOnly = \<lambda>_. None, db_Count = \<lambda>_ _. Inr 0, db_NewRequest = \<lambda>_. None, db_Since = \<lambda>_. ''1ms'',
     db_Do = \<lambda>_ _. ([(''0s'', TLSHandshakeStart)],
       Inr \<lparr>rp_StatusCode = 200, rp_Status = ''200 OK'', rp_Headers = [], rp_Body = ''models'', rp_BodyError = None\<rparr>)\<rparr>"

definition settings1 :: StepSettings where
  "settings1 = \<lparr>ss_API = Some \<lparr>as_APIKeys = [''openai-api-key'' \<mapsto> ''k''], as_BaseUrls = Map.empty\<rparr>,
     ss_Chat = Some \<lparr>cs_ApiType = Some ''openai'', cs_Engine = None\<rparr>, ss_Client = None\<rparr>"

lemma provider1:
  "pd_SelectedAPIKeyName (providerDebug debug1 (Some settings1)) = ''openai-api-key''"
  "pd_BaseURL (providerDebug debug1 (Some settings1)) = defaultOpenAIBaseURL"
proof -
  have "TrimSpace '''' = ''''" by code_simp
  then show "pd_SelectedAPIKeyName (providerDebug debug1 (Some settings1)) = ''openai-api-key''"
    "pd_BaseURL (providerDebug debug1 (Some settings1)) = defaultOpenAIBaseURL"
    by (simp_all add: providerDebug_def debug1_def settings1_def fromSettings_def ProviderDebug0_def Let_def
        selectProvider_def lookupBaseURL_def)
qed

theorem providerDebug_consistent_witness:
  "pd_SelectedAPIKey (providerDebug debug1 (Some settings1)) = ''k'' \<and> pd_Notes (providerDebug debug1 (Some settings1)) = []"
proof -
  have "TrimSpace ''k'' = ''k''" by code_simp
  then have "lookupAPIKey (Some settings1) ''openai-api-key'' = ''k''" by (simp add: lookupAPIKey_def settings1_def)
  moreover have "defaultOpenAIBaseURL \<noteq> ''''" by (simp add: defaultOpenAIBaseURL_def)
  ultimately show ?thesis
    using providerDebug_consistent [of "providerDebug debug1 (Some settings1)" debug1 "Some settings1"] by (simp add: provider1)
qed

theorem snapshotFile_spec_witness:
  "\<exists>f w'. snapshotFile good_os '' /a.yaml'' [] = (f, w') \<and> fs_Exists f \<and> fs_Raw f = ''''"
proof -
  obtain f w' where f: "snapshotFile good_os '' /a.yaml'' [] = (f, w')" by fastforce
  have t: "TrimSpace '' /a.yaml'' = ''/a.yaml''" by code_simp
  from snapshotFile_spec [OF f] f show ?thesis by (auto simp: t good_os_def)
qed

theorem probe_spec_witness:
  "\<exists>pb w'. probeProviderHTTPSWithClient good_os debug1 ((ProviderDebug0 '''')\<lparr>pd_HTTPSProbeURL := ''u''\<rparr>) None [] = (Inr pb, w') \<and>
     pb_StatusCode pb = 200 \<and> pb_BodyPreview pb = ''models''"
proof -
  let ?p = "(ProviderDebug0 '''')\<lparr>pd_HTTPSProbeURL := ''u''\<rparr>"
  obtain r w' where r: "probeProviderHTTPSWithClient good_os debug1 ?p None [] = (r, w')" by fastforce
  have t: "TrimSpace ''u'' = ''u''" by code_simp
  have d: "db_NewRequest debug1 u = None" "db_Do debug1 n rq = ([(''0s'', TLSHandshakeStart)],
       Inr \<lparr>rp_StatusCode = 200, rp_Status = ''200 OK'', rp_Headers = [], rp_Body = ''models'', rp_BodyError = None\<rparr>)" for u n rq
    by (simp_all add: debug1_def)
  show ?thesis
  proof (cases r)
    case (Inl e)
    with probe_spec [OF r] show ?thesis by (simp add: t d)
  next
    case (Inr pb)
    with probe_spec [OF r] r show ?thesis by (auto simp: t d)
  qed
qed

end
