(* ===== verification/Guest.thy ===== *)
theory Guest
  imports InitMain SSHBBS AIDebug
begin

text \<open>
  How \<^verbatim>\<open>cmd/init\<close> puts the AI chat together: the roots it derives from the mounts, the options of the two debug
  pages of the chat, and the middleware that gives every SSH session a board with a chat of its own.
\<close>

definition guestChatRoot :: "storage_Result \<Rightarrow> string" where
  "guestChatRoot storageResult = PathJoin [sr_MountPoint storageResult, ''state'', ''chat'']"

definition guestBBSRoot :: "storage_Result \<Rightarrow> shared_Result \<Rightarrow> string" where
  "guestBBSRoot storageResult sharedStateResult = BBSRoot sharedStateResult (sr_MountPoint storageResult @ ''/app'')"

definition guestChatOptions :: "string \<Rightarrow> string \<Rightarrow> ai_Options" where
  "guestChatOptions bbsRoot chatRoot =
     \<lparr>ai_Title = ''qemu-go-init AI chat'', ai_StateRoot = bbsRoot, ai_ChatStateRoot = chatRoot,
      ai_ConversationID = '''', ai_ProfileSlug = '''', ai_ProfileRegistries = ''''\<rparr>"

definition AIChatDebug ::
  "os \<Rightarrow> (StepSettings, 'any, 'mgr) profile_lib \<Rightarrow> debug_lib \<Rightarrow> string \<Rightarrow> string \<Rightarrow> ai_st \<Rightarrow> ('any RuntimeDebugSnapshot) result \<times> ai_st" where
  "AIChatDebug os plib lib bbsRoot chatRoot s = DebugSnapshot os plib lib (guestChatOptions bbsRoot chatRoot) s"

definition AIChatHTTPSProbe ::
  "os \<Rightarrow> (StepSettings, 'any, 'mgr) profile_lib \<Rightarrow> debug_lib \<Rightarrow> string \<Rightarrow> string \<Rightarrow> ai_st \<Rightarrow> HTTPSProbeResult result \<times> ai_st" where
  "AIChatHTTPSProbe os plib lib bbsRoot chatRoot s = ProbeProviderHTTPS os plib lib (guestChatOptions bbsRoot chatRoot) s"

text \<open>The chat of a session: \<^verbatim>\<open>sshbbs.Middleware\<close> with the board's store and the chat root.\<close>

definition sessionChat ::
  "os \<Rightarrow> ('set, 'any, 'mgr) profile_lib \<Rightarrow> ('set, 'eng, 'u) chat_lib \<Rightarrow> (int \<Rightarrow> string) \<Rightarrow> (Message list) result \<Rightarrow>
   Store \<Rightarrow> string \<Rightarrow> string \<Rightarrow> ai_st \<Rightarrow> ('u Surface) result \<times> ai_st" where
  "sessionChat os plib cl utc listed store chatRoot user s =
     NewSurface os plib cl utc listed (chatOptions (sessionOptions store chatRoot user)) s"

section \<open>The debug pages show what the sessions use\<close>

lemma boot_roots:
  assumes "bootSequence m hooks g = Some (Inr b, g')"
  shows "Root (bt_Store b) = guestBBSRoot (wo_Storage (wh_options (bt_Handler b))) (wo_SharedState (wh_options (bt_Handler b)))"
proof -
  obtain results g1 st g2 sh g3 lg g4 me g5 net g6 g7 g8 g9 g10 ops addr where
    s: "openBBSStore m (BBSRoot sh (sr_MountPoint st @ ''/app'')) g6 = Some (Inr (bt_Store b), g7)"
      "buildHandler m ops g10 = Some (Inr (bt_Handler b), g')"
    and o: "wo_Storage ops = st" "wo_SharedState ops = sh"
    using bootSequence_steps [OF assms] by (elim exE conjE) simp
  then show ?thesis using openBBSStore_ok [OF s(1)] buildHandler_options [OF s(2)] by (simp add: guestBBSRoot_def Root_def)
qed

lemma sessionChat_options:
  "chatOptions (sessionOptions store chatRoot user) = guestChatOptions (Root store) chatRoot"
  by (simp add: chatOptions_def sessionOptions_def guestChatOptions_def)

lemma openPersistence_Inr:
  assumes "openPersistence os cl root conv s = (Inr p, s')" "TrimSpace conv = ''''"
  shows "pr_root p = defaultChatStateRoot root \<and> pr_conversationID p = defaultConversationID \<and>
    pr_turnsDBPath p = PathJoin [pr_root p, ''turns.db''] \<and> pr_timelineDBPath p = PathJoin [pr_root p, ''timeline.db'']"
  using assms by (auto simp: openPersistence_def Let_def split: option.splits sum.splits prod.splits)

lemma NewSurface_Inr:
  assumes "NewSurface os plib cl utc listed options s = (Inr v, s')" "TrimSpace (ai_ConversationID options) = ''''"
  shows "\<exists>details t engine.
    loadRuntimeDetails os plib options s = (Inr details, t) \<and>
    cl_NewEngine cl (rs_EffectiveStepSettings (rd_resolved details)) = Inr engine \<and>
    sf_model v = cl_InitialModel cl engine (if TrimSpace (ai_Title options) = '''' then defaultTitle else TrimSpace (ai_Title options)) \<and>
    buildSeedTurn utc listed (ai_StateRoot options) (rs_SystemPrompt (rd_resolved details)) = Inr (sf_seed v) \<and>
    pr_root (sf_persist v) = defaultChatStateRoot (firstNonEmpty [ai_ChatStateRoot options, ai_StateRoot options]) \<and>
    pr_conversationID (sf_persist v) = defaultConversationID \<and>
    pr_turnsDBPath (sf_persist v) = PathJoin [pr_root (sf_persist v), ''turns.db''] \<and>
    pr_timelineDBPath (sf_persist v) = PathJoin [pr_root (sf_persist v), ''timeline.db'']"
  using assms
  by (auto simp: NewSurface_def Let_def simp del: firstNonEmpty.simps
      split: option.splits sum.splits prod.splits dest!: openPersistence_Inr)

lemma snapshotFile_path: "fs_Path (fst (snapshotFile os p w)) = TrimSpace p"
  by (auto simp: snapshotFile_def Let_def FileSnapshot0_def stat_def readFile_def split: sum.splits)

lemma persistenceSnapshot_roots:
  assumes "persistenceSnapshot os lib options w = (p, w')" "TrimSpace (ai_ConversationID options) = []"
  shows "ps_Root p = defaultChatStateRoot (firstNonEmpty [ai_ChatStateRoot options, ai_StateRoot options]) \<and>
    ps_ConversationID p = defaultConversationID \<and>
    fs_Path (ps_TurnsDB p) = TrimSpace (PathJoin [ps_Root p, ''turns.db'']) \<and>
    fs_Path (ps_TimelineDB p) = TrimSpace (PathJoin [ps_Root p, ''timeline.db''])"
proof -
  have "firstNonEmpty [ai_ConversationID options, defaultConversationID] = defaultConversationID"
  proof -
    have "TrimSpace defaultConversationID = defaultConversationID \<and> defaultConversationID \<noteq> []" by code_simp
    with assms(2) show ?thesis by simp
  qed
  then show ?thesis using assms(1) snapshotFile_path
    by (auto simp: persistenceSnapshot_def Let_def simp del: firstNonEmpty.simps split: prod.splits) (metis fst_conv)+
qed

lemma DebugSnapshot_Inr:
  assumes "DebugSnapshot os plib lib options s = (Inr r, s')"
  shows "\<exists>details t w w'. loadRuntimeDetails os plib options s = (Inr details, t) \<and>
    persistenceSnapshot os lib options w = (rn_Persistence r, w') \<and>
    rn_EffectiveSettings r = rs_EffectiveStepSettings (rd_resolved details) \<and>
    rn_SystemPrompt r = rs_SystemPrompt (rd_resolved details) \<and> rn_Provider r = providerDebug lib (rn_EffectiveSettings r)"
  using assms by (auto simp: DebugSnapshot_def Let_def split: sum.splits prod.splits) blast

text \<open>
  C22. The debug page of a booted guest tells the truth about the chat of its SSH sessions. Taken when a
  session of any user starts, it names the directory, the two databases and the conversation the session uses; the
  session's engine is made from the settings it shows, the prompt from the system prompt it shows; and the
  probe page asks the provider it shows.
\<close>

theorem debug_page_truthful:
  assumes boot: "bootSequence m hooks g = Some (Inr b, g')"
    and session: "sessionChat os plib cl utc listed (bt_Store b) chatRoot user s = (Inr v, s1)"
    and debug: "AIChatDebug os plib lib (guestBBSRoot (wo_Storage (wh_options (bt_Handler b))) (wo_SharedState (wh_options (bt_Handler b))))
      chatRoot s = (Inr r, s2)"
  shows "let p = rn_Persistence r; q = sf_persist v in
    ps_Root p = pr_root q \<and> ps_ConversationID p = pr_conversationID q \<and>
    fs_Path (ps_TurnsDB p) = TrimSpace (pr_turnsDBPath q) \<and> fs_Path (ps_TimelineDB p) = TrimSpace (pr_timelineDBPath q) \<and>
    (\<exists>engine. cl_NewEngine cl (rn_EffectiveSettings r) = Inr engine \<and> sf_model v = cl_InitialModel cl engine ''qemu-go-init AI chat'') \<and>
    buildSeedTurn utc listed (Root (bt_Store b)) (rn_SystemPrompt r) = Inr (sf_seed v) \<and>
    (\<exists>w. fst (AIChatHTTPSProbe os plib lib (Root (bt_Store b)) chatRoot s) =
      fst (probeProviderHTTPSWithClient os lib (rn_Provider r) (Some (providerTimeout (rn_EffectiveSettings r))) w))"
proof -
  let ?o = "guestChatOptions (Root (bt_Store b)) chatRoot"
  have o: "ai_StateRoot ?o = Root (bt_Store b)" "ai_Title ?o = ''qemu-go-init AI chat''" "TrimSpace (ai_ConversationID ?o) = []"
    by (simp_all add: guestChatOptions_def)
  have t: "TrimSpace ''qemu-go-init AI chat'' = ''qemu-go-init AI chat''" by code_simp
  have n: "NewSurface os plib cl utc listed ?o s = (Inr v, s1)" using session by (simp add: sessionChat_def sessionChat_options)
  have d: "DebugSnapshot os plib lib ?o s = (Inr r, s2)" using debug boot_roots [OF boot] by (simp add: AIChatDebug_def)
  obtain details t w w' where d1: "loadRuntimeDetails os plib ?o s = (Inr details, t)"
      "persistenceSnapshot os lib ?o w = (rn_Persistence r, w')"
      "rn_EffectiveSettings r = rs_EffectiveStepSettings (rd_resolved details)"
      "rn_SystemPrompt r = rs_SystemPrompt (rd_resolved details)" "rn_Provider r = providerDebug lib (rn_EffectiveSettings r)"
    using DebugSnapshot_Inr [OF d] by blast
  note q = NewSurface_Inr [OF n o(3), unfolded d1(1) o(1,2) t]
  note p = persistenceSnapshot_roots [OF d1(2) o(3)]
  have "\<exists>w. fst (AIChatHTTPSProbe os plib lib (Root (bt_Store b)) chatRoot s) =
    fst (probeProviderHTTPSWithClient os lib (rn_Provider r) (Some (providerTimeout (rn_EffectiveSettings r))) w)"
    by (intro exI [of _ "a_world t"]) (simp add: AIChatHTTPSProbe_def ProbeProviderHTTPS_def d1 Let_def split: prod.split)
  with p q d1 o(1) show ?thesis by (auto simp: Let_def)
qed

section \<open>Instances\<close>

definition guest_profiles1 :: "(StepSettings, unit, unit) profile_lib" where
  "guest_profiles1 = \<lparr>pl_CurrentUser = Inr None, pl_BaseSettings = \<lambda>_. Inr settings1, pl_NewManager = \<lambda>_ _. Inr (),
     pl_ListProfiles = \<lambda>_. Inr [],
     pl_Switch = \<lambda>_ slug. Inr \<lparr>rs_RegistrySlug = ''default'', rs_ProfileSlug = slug, rs_RuntimeKey = [], rs_RuntimeFingerprint = [],
       rs_SystemPrompt = ''Be kind.'', rs_StepSettingsPatch = (), rs_Metadata = (), rs_EffectiveStepSettings = Some settings1\<rparr>\<rparr>"

definition guest_chat1 :: "(StepSettings, unit, string) chat_lib" where
  "guest_chat1 = \<lparr>cl_TurnDSN = Inr, cl_NewTurnStore = \<lambda>_. None, cl_TimelineDSN = Inr, cl_NewTimelineStore = \<lambda>_. None,
     cl_NewEngine = \<lambda>_. Inr (), cl_NewRouter = None, cl_InitialModel = \<lambda>_ title. title,
     cl_CloseTurn = None, cl_CloseTimeline = None, cl_CloseRouter = None\<rparr>"

lemma guest_details1: "\<exists>dt t. loadRuntimeDetails good_os guest_profiles1 (guestChatOptions root chat) ai_st1 = (Inr dt, t)"
proof -
  have "TrimSpace ''/c'' = ''/c''" "TrimSpace [] = []" by code_simp+
  then have "\<exists>x t. resolveRuntime good_os (Inr None) (guestChatOptions root chat) ai_st1 = (Inr (''/c'', x), t) \<and> a_env t = a_env ai_st1"
    by (simp add: resolveRuntime_def Let_def guestChatOptions_def ai_st1_def getenv_def fileExists_def stat_def good_os_def defaultProfileSlug_def
        split: prod.splits)
       (simp add: PathJoin_def Clean_def)
  then obtain x t where r: "resolveRuntime good_os (Inr None) (guestChatOptions root chat) ai_st1 = (Inr (''/c'', x), t)" by blast
  have b: "resolveBaseStepSettings (\<lambda>_. Inr settings1) ''/c'' t = (Inr settings1, restoreConfigHome (a_env t ''XDG_CONFIG_HOME'') (snd (Setenv ''XDG_CONFIG_HOME'' ''/c'' t)))"
    by (simp add: resolveBaseStepSettings_def Setenv_def)
  show ?thesis
    by (cases x) (simp add: loadRuntimeDetails_def guest_profiles1_def r b Let_def)
qed

lemma guest_session1:
  "\<exists>v s'. sessionChat good_os guest_profiles1 guest_chat1 Itoa (Inr [message1]) store chatRoot user ai_st1 = (Inr v, s')"
proof -
  obtain dt t where d: "loadRuntimeDetails good_os guest_profiles1 (guestChatOptions (Root store) chatRoot) ai_st1 = (Inr dt, t)"
    using guest_details1 by blast
  have "\<exists>p s'. openPersistence good_os guest_chat1 r c s = (Inr p, s')" for r c s
    by (simp add: openPersistence_def guest_chat1_def Let_def mkdirAll_def good_os_def)
  then obtain p s' where "openPersistence good_os guest_chat1 (firstNonEmpty [ai_ChatStateRoot (guestChatOptions (Root store) chatRoot),
      ai_StateRoot (guestChatOptions (Root store) chatRoot)]) (ai_ConversationID (guestChatOptions (Root store) chatRoot)) (opened Router t) = (Inr p, s')"
    by blast
  moreover have "cl_NewEngine guest_chat1 = (\<lambda>_. Inr ())" "cl_NewRouter guest_chat1 = None" by (simp_all add: guest_chat1_def)
  ultimately show ?thesis
    by (simp add: sessionChat_def sessionChat_options NewSurface_def d buildSeedTurn_eq Let_def del: firstNonEmpty.simps)
qed

lemma guest_debug1: "\<exists>r s'. AIChatDebug good_os guest_profiles1 debug1 root chatRoot ai_st1 = (Inr r, s')"
proof -
  obtain dt t where d: "loadRuntimeDetails good_os guest_profiles1 (guestChatOptions root chatRoot) ai_st1 = (Inr dt, t)"
    using guest_details1 by blast
  have "db_SourceEntries debug1 = (\<lambda>s. Inr [s])" "db_SourceSpecs debug1 = (\<lambda>_. Inr [])" by (simp_all add: debug1_def)
  then have "snapshotRegistrySources good_os debug1 raw w = (Inr [], w)" for raw w by (simp add: snapshotRegistrySources_def)
  then show ?thesis by (simp add: AIChatDebug_def DebugSnapshot_def d Let_def split: prod.split)
qed

theorem debug_page_truthful_witness:
  "\<exists>(b :: nat booted) g' v s1 r s2. bootSequence machine1 (None, None, None) guest1 = Some (Inr b, g') \<and>
     sessionChat good_os guest_profiles1 guest_chat1 Itoa (Inr [message1]) (bt_Store b) ''/s/chat'' ''ann'' ai_st1 = (Inr v, s1) \<and>
     AIChatDebug good_os guest_profiles1 debug1 (Root (bt_Store b)) ''/s/chat'' ai_st1 = (Inr r, s2) \<and>
     ps_Root (rn_Persistence r) = pr_root (sf_persist v)"
proof -
  obtain b :: "nat booted" and g' where b: "bootSequence machine1 (None, None, None) guest1 = Some (Inr b, g')"
    using boot1 by blast
  obtain v s1 where v: "sessionChat good_os guest_profiles1 guest_chat1 Itoa (Inr [message1]) (bt_Store b) ''/s/chat'' ''ann'' ai_st1 = (Inr v, s1)"
    using guest_session1 by blast
  obtain r s2 where r: "AIChatDebug good_os guest_profiles1 debug1 (Root (bt_Store b)) ''/s/chat'' ai_st1 = (Inr r, s2)"
    using guest_debug1 by blast
  from debug_page_truthful [OF b v r [unfolded boot_roots [OF b]]] b v r show ?thesis by (auto simp: Let_def)
qed

end
